(* ===== verification/Prelude.thy ===== *)
theory Prelude
  imports Main "HOL-Library.Word"
begin

text \<open>
  Shared vocabulary of the PABLO language-core development: the byte type of the
  \<open>.pgraph\<close> wire format, Python's strings as lists of Unicode code points, the
  error type of the codec and builder (each constructor is one \<open>raise\<close> site of
  \<open>src/brain/language/graph_builder.py\<close>), the sequencing combinator for
  fallible code, and generic list and word lemmas the component theories share.
\<close>

unbundle bit_operations_syntax

named_theorems enc_simps \<open>equations that compute byte encodings\<close>
named_theorems dec_simps \<open>equations that run decoders on encoded input\<close>

section \<open>Types\<close>

text \<open>A Python \<open>bytes\<close> value is a list of 8-bit words.\<close>

type_synonym byte = "8 word"

text \<open>
  A Python \<open>str\<close> is a sequence of Unicode code points; \<open>len\<close> and offsets count
  code points. A code point is a natural number.
\<close>

type_synonym uchar = nat
type_synonym ustr = "uchar list"

definition ascii :: "string \<Rightarrow> ustr" where
  "ascii s = map of_char s"

text \<open>
  Python's Unicode character database, as far as the language core consults it:
  \<open>str.isdigit\<close>, \<open>str.isalpha\<close>, \<open>str.isupper\<close> on one code point and
  \<open>str.lower\<close> and \<open>str.upper\<close>, which may map one code point to several, and \<open>str.isalnum\<close> (which
  decides the regular-expression class \<open>\w\<close> with \<open>_\<close>). The development keeps it
  a parameter; \<open>ascii_ucd\<close> is the instance that is exact on ASCII and classifies
  every other code point as neither digit, letter nor upper case.
\<close>

record ucd =
  u_isdigit :: "uchar \<Rightarrow> bool"
  u_isalpha :: "uchar \<Rightarrow> bool"
  u_isupper :: "uchar \<Rightarrow> bool"
  u_lower :: "uchar \<Rightarrow> ustr"
  u_upper :: "uchar \<Rightarrow> ustr"
  u_isalnum :: "uchar \<Rightarrow> bool"

definition is_ascii_upper :: "uchar \<Rightarrow> bool" where
  "is_ascii_upper c \<longleftrightarrow> 65 \<le> c \<and> c \<le> 90"

definition is_ascii_lower :: "uchar \<Rightarrow> bool" where
  "is_ascii_lower c \<longleftrightarrow> 97 \<le> c \<and> c \<le> 122"

definition is_ascii_digit :: "uchar \<Rightarrow> bool" where
  "is_ascii_digit c \<longleftrightarrow> 48 \<le> c \<and> c \<le> 57"

definition is_ascii_alpha :: "uchar \<Rightarrow> bool" where
  "is_ascii_alpha c \<longleftrightarrow> is_ascii_upper c \<or> is_ascii_lower c"

definition is_ascii_alnum :: "uchar \<Rightarrow> bool" where
  "is_ascii_alnum c \<longleftrightarrow> is_ascii_alpha c \<or> is_ascii_digit c"

definition ascii_ucd :: ucd where
  "ascii_ucd = \<lparr>u_isdigit = is_ascii_digit, u_isalpha = is_ascii_alpha, u_isupper = is_ascii_upper,
                 u_lower = (\<lambda>c. if is_ascii_upper c then [c + 32] else [c]),
                 u_upper = (\<lambda>c. if is_ascii_lower c then [c - 32] else [c]),
                 u_isalnum = is_ascii_alnum\<rparr>"

lemmas ascii_class_defs = is_ascii_upper_def is_ascii_lower_def is_ascii_digit_def
  is_ascii_alpha_def is_ascii_alnum_def

text \<open>
  The exceptions raised by the graph core and the codec. Python raises
  \<open>ValueError\<close> with a message at each site and \<open>IndexError\<close> where \<open>buf[i]\<close>
  reads past the end; the model keeps one constructor per site.
\<close>

datatype pg_error =
    NegativeVarint      \<comment> \<open>\<open>_uvarint_encode\<close>: "uvarint cannot encode negative values"\<close>
  | TruncatedVarint     \<comment> \<open>\<open>_uvarint_decode\<close>: "uvarint: truncated input"\<close>
  | VarintTooLarge      \<comment> \<open>\<open>_uvarint_decode\<close>: "uvarint: value too large"\<close>
  | InvalidMagic        \<comment> \<open>\<open>decode_pgraph\<close>: "Invalid magic"\<close>
  | TruncatedFeatures   \<comment> \<open>\<open>decode_pgraph\<close>: "Truncated g_features"\<close>
  | IndexOutOfRange     \<comment> \<open>\<open>buf[i]\<close> with \<open>i \<ge> len(buf)\<close>: IndexError\<close>
  | BadThumbnailLength  \<comment> \<open>\<open>set_thumbnail\<close>: "g_features must be 64 or 128 bytes"\<close>

type_synonym 'a result = "pg_error + 'a"

section \<open>Sequencing fallible code\<close>

text \<open>
  \<open>sum_bind m f\<close> runs \<open>f\<close> on the value of \<open>m\<close> and propagates the first error,
  as a Python exception propagates out of a sequence of statements.
\<close>

definition sum_bind :: "'e + 'a \<Rightarrow> ('a \<Rightarrow> 'e + 'b) \<Rightarrow> 'e + 'b" where
  "sum_bind m f = (case m of Inl e \<Rightarrow> Inl e | Inr a \<Rightarrow> f a)"

lemma sum_bind_Inl [simp]: "sum_bind (Inl e) f = Inl e"
  by (simp add: sum_bind_def)

lemma sum_bind_Inr [simp]: "sum_bind (Inr a) f = f a"
  by (simp add: sum_bind_def)

lemma sum_bind_eq_Inr:
  "sum_bind m f = Inr b \<longleftrightarrow> (\<exists>a. m = Inr a \<and> f a = Inr b)"
  by (cases m) (simp_all add: sum_bind_def)

text \<open>
  Concatenating the outputs of several fallible byte producers, stopping at the
  first error: the shape of \<open>out += f(x); out += g(y); ...\<close>.
\<close>

fun seq_bytes :: "('e + 'a list) list \<Rightarrow> 'e + 'a list" where
  "seq_bytes [] = Inr []"
| "seq_bytes (r # rs) = sum_bind r (\<lambda>bs. sum_bind (seq_bytes rs) (\<lambda>cs. Inr (bs @ cs)))"

lemma seq_bytes_all_Inr [simp]:
  "seq_bytes (map Inr xss) = Inr (concat xss)"
  by (induction xss) simp_all

lemma seq_bytes_append:
  "seq_bytes (rs @ ss) = sum_bind (seq_bytes rs) (\<lambda>a. sum_bind (seq_bytes ss) (\<lambda>b. Inr (a @ b)))"
proof (induction rs)
  case Nil
  then show ?case by (cases "seq_bytes ss") simp_all
next
  case (Cons r rs)
  then show ?case
    by (cases r; cases "seq_bytes rs"; cases "seq_bytes ss") simp_all
qed

lemma seq_bytes_Inr_append:
  "seq_bytes (Inr xs # rs) = sum_bind (seq_bytes rs) (\<lambda>cs. Inr (xs @ cs))"
  by simp

section \<open>Generic list lemmas\<close>

lemma nth_append_middle [simp]:
  "(xs @ ys @ zs) ! (length xs + i) = (ys @ zs) ! i"
  by (simp add: nth_append)

lemma take_drop_append_middle:
  "take (length ys) (drop (length xs) (xs @ ys @ zs)) = ys"
  by simp

section \<open>Bytes\<close>

lemma byte_of_nat_unat [simp]:
  "n < 256 \<Longrightarrow> unat (of_nat n :: byte) = n"
  by (simp add: unat_of_nat)

lemma byte_of_nat_uint [simp]:
  "n < 256 \<Longrightarrow> uint (of_nat n :: byte) = int n"
  by (simp add: uint_nat)

lemma byte_uint_bound [simp]: "uint (b :: byte) < 256"
  using uint_lt2p [of b] by simp

lemma byte_word_of_int_uint [simp]:
  "0 \<le> x \<Longrightarrow> x < 256 \<Longrightarrow> uint (word_of_int x :: byte) = x"
  by (simp add: uint_word_of_int_eq take_bit_int_eq_self)

end
