(* ===== verification/Varint.thy ===== *)
theory Varint
  imports Prelude
begin

text \<open>
  The unsigned base-128 variable-length integers of the \<open>.pgraph\<close> format
  (\<open>_uvarint_encode\<close> and \<open>_uvarint_decode\<close> in
  \<open>src/brain/language/graph_builder.py\<close>), and the fixed two-byte little-endian
  flag fields (\<open>int.to_bytes(2, "little")\<close> and \<open>int.from_bytes\<close>).
  The theorems: decoding an encoding returns the value and the offset just past it,
  whatever bytes surround it; every decoded value is below \<open>2^70\<close> and takes
  at most ten bytes; eleven continuation bytes in a row are rejected.
\<close>

unbundle bit_operations_syntax

section \<open>Encoding\<close>

text \<open>
  The \<open>while True\<close> loop of \<open>_uvarint_encode\<close>, after the negative-value guard:
  emit the low seven bits, with the high bit set when more bytes follow.
\<close>

function uvarint_loop :: "nat \<Rightarrow> byte list" where
  "uvarint_loop value =
     (let b = value AND 0x7F; value' = drop_bit 7 value in
      if value' \<noteq> 0 then of_nat (b OR 0x80) # uvarint_loop value'
      else [of_nat b])"
  by pat_completeness auto
termination
  by (relation "measure id") (auto simp: drop_bit_eq_div)

definition uvarint_encode :: "int \<Rightarrow> byte list result" where
  "uvarint_encode value =
     (if value < 0 then Inl NegativeVarint else Inr (uvarint_loop (nat value)))"

section \<open>Decoding\<close>

text \<open>
  The loop of \<open>_uvarint_decode(buf, offset)\<close>: \<open>i\<close> is the read position,
  \<open>shift\<close> and \<open>value\<close> the accumulators. The guard \<open>shift > 63\<close> is checked
  after a byte with the continuation bit, before the next byte is read.
\<close>

function uvarint_dec_loop :: "byte list \<Rightarrow> nat \<Rightarrow> nat \<Rightarrow> int \<Rightarrow> (int \<times> nat) result" where
  "uvarint_dec_loop buf i shift value =
     (if length buf \<le> i then Inl TruncatedVarint
      else let b = buf ! i; value' = value OR push_bit shift (uint (b AND 0x7F)) in
        if b AND 0x80 = 0 then Inr (value', i + 1)
        else if 63 < shift + 7 then Inl VarintTooLarge
        else uvarint_dec_loop buf (i + 1) (shift + 7) value')"
  by pat_completeness auto
termination
  by (relation "measure (\<lambda>(buf, i, _, _). length buf - i)") auto

definition uvarint_decode :: "byte list \<Rightarrow> nat \<Rightarrow> (int \<times> nat) result" where
  "uvarint_decode buf offset = uvarint_dec_loop buf offset 0 0"

section \<open>Two-byte little-endian flag fields\<close>

text \<open>\<open>(x & 0xFFFF).to_bytes(2, "little")\<close>.\<close>

definition to_bytes_le2 :: "int \<Rightarrow> byte list" where
  "to_bytes_le2 x = (let y = x AND 0xFFFF in [word_of_int y, word_of_int (drop_bit 8 y)])"

text \<open>\<open>int.from_bytes(bs, "little")\<close>: the least significant byte first.\<close>

fun from_bytes_le :: "byte list \<Rightarrow> int" where
  "from_bytes_le [] = 0"
| "from_bytes_le (b # bs) = uint b + 256 * from_bytes_le bs"

section \<open>Bit-level facts\<close>

lemma int_and_127: "(x::int) AND 127 = x mod 128"
proof -
  have m: "(127::int) = mask 7" by (simp add: mask_eq_exp_minus_1)
  have "x AND 127 = take_bit 7 x" by (simp only: m take_bit_eq_mask)
  then show ?thesis by (simp add: take_bit_eq_mod)
qed

lemma nat_and_127: "(x::nat) AND 127 = x mod 128"
proof -
  have m: "(127::nat) = mask 7" by (simp add: mask_eq_exp_minus_1)
  have "x AND 127 = take_bit 7 x" by (simp only: m take_bit_eq_mask)
  then show ?thesis by (simp add: take_bit_eq_mod)
qed

lemma nat_or_128: "(x::nat) < 128 \<Longrightarrow> x OR 128 = x + 128"
proof -
  assume "x < 128"
  then have "take_bit 7 x = x" by (simp add: take_bit_nat_eq_self_iff)
  then have "\<not> bit x 7" by (metis bit_take_bit_iff less_irrefl)
  then have "x AND 2 ^ 7 = 0" using and_exp_eq_0_iff_not_bit [of x 7] by simp
  then have "x + 2 ^ 7 = x OR 2 ^ 7" by (rule disjunctive_add_eq_or)
  then show ?thesis by simp
qed

lemma byte_and_80: "((b::byte) AND 0x80 = 0) \<longleftrightarrow> uint b < 128"
proof -
  have "(b AND 0x80 = 0) \<longleftrightarrow> \<not> bit b 7"
    using and_exp_eq_0_iff_not_bit [of b 7] by simp
  also have "\<dots> \<longleftrightarrow> \<not> bit (uint b) 7" by (simp add: bit_uint_iff)
  also have "\<dots> \<longleftrightarrow> even (uint b div 128)" by (simp add: bit_iff_odd)
  also have "\<dots> \<longleftrightarrow> uint b < 128"
  proof -
    have "0 \<le> uint b" "uint b < 256" by simp_all
    then show ?thesis by presburger
  qed
  finally show ?thesis .
qed

lemma byte_and_7f: "uint ((b::byte) AND 0x7F) = uint b mod 128"
  by (simp add: uint_and int_and_127)

lemma int_or_push_bit:
  "0 \<le> v \<Longrightarrow> v < 2 ^ s \<Longrightarrow> (v::int) OR push_bit s x = v + x * 2 ^ s"
  by (metis concat_bit_def concat_bit_eq push_bit_eq_mult take_bit_int_eq_self)

lemma last_byte [simp]:
  "n < 128 \<Longrightarrow> (of_nat n :: byte) AND 0x80 = 0"
  "n < 128 \<Longrightarrow> uint ((of_nat n :: byte) AND 0x7F) = int n"
  by (simp_all add: byte_and_80 byte_and_7f)

lemma cont_byte_uint:
  "n < 128 \<Longrightarrow> uint (of_nat n + 128 :: byte) = int n + 128"
proof -
  assume n: "n < 128"
  have "(of_nat n + 128 :: byte) = of_nat (n + 128)" by simp
  moreover have "uint (of_nat (n + 128) :: byte) = int (n + 128)"
    using n by (subst byte_of_nat_uint) simp_all
  ultimately show ?thesis by simp
qed

lemma cont_byte [simp]:
  "n < 128 \<Longrightarrow> (of_nat n + 128 :: byte) AND 0x80 \<noteq> 0"
  "n < 128 \<Longrightarrow> uint ((of_nat n + 128 :: byte) AND 0x7F) = int n"
  by (simp_all add: byte_and_80 byte_and_7f cont_byte_uint)

section \<open>The encoder, unfolded\<close>

declare uvarint_loop.simps [simp del]

lemma uvarint_loop_small [enc_simps]: "n < 128 \<Longrightarrow> uvarint_loop n = [of_nat n]"
  by (simp add: uvarint_loop.simps [of n] nat_and_127 drop_bit_eq_div)

lemma uvarint_loop_big [enc_simps]:
  "128 \<le> n \<Longrightarrow> uvarint_loop n = (of_nat (n mod 128) + 128) # uvarint_loop (n div 128)"
proof -
  assume n: "128 \<le> n"
  then have "0 < n div 128" by simp
  moreover have "n mod 128 OR 128 = n mod 128 + 128" by (rule nat_or_128) simp
  ultimately show ?thesis
    by (simp add: uvarint_loop.simps [of n] Let_def nat_and_127 drop_bit_eq_div)
qed

lemma uvarint_loop_nonempty [simp]: "uvarint_loop n \<noteq> []"
  by (cases "n < 128") (simp_all add: uvarint_loop_small uvarint_loop_big)

lemma uvarint_loop_length_le:
  "n < 2 ^ (7 * k) \<Longrightarrow> 0 < k \<Longrightarrow> length (uvarint_loop n) \<le> k"
proof (induction n arbitrary: k rule: less_induct)
  case (less n)
  show ?case
  proof (cases "n < 128")
    case True
    with less.prems show ?thesis by (simp add: uvarint_loop_small)
  next
    case False
    then obtain k' where k: "k = Suc k'" and "0 < k'"
      using less.prems by (cases k; cases "k - 1") (auto simp: power_mult)
    have "n div 128 < 2 ^ (7 * k')"
      using less.prems(1) k by (simp add: power_add less_mult_imp_div_less mult.commute)
    then have "length (uvarint_loop (n div 128)) \<le> k'"
      using less.IH [of "n div 128" k'] False \<open>0 < k'\<close> by simp
    with False k show ?thesis by (simp add: uvarint_loop_big)
  qed
qed


section \<open>Decoding what was encoded\<close>

lemma acc_bound:
  fixes v x :: int
  assumes "v < 2 ^ s" "x < 128"
  shows "v + x * 2 ^ s < 2 ^ (s + 7)"
proof -
  have "x * 2 ^ s \<le> 127 * 2 ^ s" using assms(2) by (intro mult_right_mono) simp_all
  then have "v + x * 2 ^ s < 128 * 2 ^ s" using assms(1) by linarith
  then show ?thesis by (simp add: power_add mult.commute)
qed

declare uvarint_dec_loop.simps [simp del]

lemma uvarint_dec_loop_step:
  "i < length buf \<Longrightarrow> buf ! i = b \<Longrightarrow>
   uvarint_dec_loop buf i s v =
     (let v' = v OR push_bit s (uint (b AND 0x7F)) in
      if b AND 0x80 = 0 then Inr (v', i + 1)
      else if 63 < s + 7 then Inl VarintTooLarge
      else uvarint_dec_loop buf (i + 1) (s + 7) v')"
  by (simp add: uvarint_dec_loop.simps [of buf i s v] Let_def)

lemma uvarint_dec_loop_enc:
  "0 \<le> v \<Longrightarrow> v < 2 ^ s \<Longrightarrow> s + 7 * length (uvarint_loop n) \<le> 70 \<Longrightarrow>
   uvarint_dec_loop (xs @ uvarint_loop n @ ys) (length xs) s v =
     Inr (v + int n * 2 ^ s, length xs + length (uvarint_loop n))"
proof (induction n arbitrary: xs s v rule: less_induct)
  case (less n)
  show ?case
  proof (cases "n < 128")
    case True
    then have enc: "uvarint_loop n = [of_nat n]" by (rule uvarint_loop_small)
    show ?thesis
      using True less.prems
      by (simp add: enc uvarint_dec_loop_step [where b = "of_nat n"] int_or_push_bit)
  next
    case False
    let ?b = "of_nat (n mod 128) + 128 :: byte"
    let ?v = "v + int (n mod 128) * 2 ^ s"
    have enc: "uvarint_loop n = ?b # uvarint_loop (n div 128)"
      using False by (simp add: uvarint_loop_big)
    have len: "s + 7 + 7 * length (uvarint_loop (n div 128)) \<le> 70"
      using less.prems(3) by (simp add: enc)
    then have s63: "\<not> 63 < s + 7"
      using uvarint_loop_nonempty [of "n div 128"] by (cases "uvarint_loop (n div 128)") auto
    have v0: "0 \<le> ?v" using less.prems(1) by simp
    have v1: "?v < 2 ^ (s + 7)" using less.prems(2) by (intro acc_bound) simp_all
    have IH: "uvarint_dec_loop ((xs @ [?b]) @ uvarint_loop (n div 128) @ ys) (length (xs @ [?b])) (s + 7) ?v
       = Inr (?v + int (n div 128) * 2 ^ (s + 7), length (xs @ [?b]) + length (uvarint_loop (n div 128)))"
      using False v0 v1 len by (intro less.IH) simp_all
    have arith: "?v + int (n div 128) * 2 ^ (s + 7) = v + int n * 2 ^ s"
    proof -
      have "n = n mod 128 + 128 * (n div 128)" by simp
      then have "int n = int (n mod 128) + 128 * int (n div 128)"
        by (metis of_nat_add of_nat_mult of_nat_numeral)
      then show ?thesis by (simp add: power_add algebra_simps)
    qed
    show ?thesis
      using less.prems s63 IH arith
      by (simp add: enc uvarint_dec_loop_step [where b = ?b] int_or_push_bit)
  qed
qed


lemma uvarint_loop_length_10: "n < 2 ^ 70 \<Longrightarrow> length (uvarint_loop n) \<le> 10"
  using uvarint_loop_length_le [of n 10] by simp

lemma uvarint_dec_loop_bounds:
  "uvarint_dec_loop buf i s v = Inr (w, j) \<Longrightarrow> 0 \<le> v \<Longrightarrow> v < 2 ^ s \<Longrightarrow> s \<le> 63 \<Longrightarrow>
   i < j \<and> j \<le> length buf \<and> s + 7 * (j - i) \<le> 70 \<and> 0 \<le> w \<and> w < 2 ^ (s + 7 * (j - i))"
proof (induction buf i s v rule: uvarint_dec_loop.induct)
  case (1 buf i s v)
  have i: "i < length buf"
    using "1.prems"(1) by (auto simp: uvarint_dec_loop.simps [of buf i s v] split: if_splits)
  let ?x = "uint (buf ! i AND 0x7F)"
  let ?v = "v OR push_bit s ?x"
  have x: "0 \<le> ?x" "?x < 128"
    by (simp_all add: byte_and_7f)
  have v: "?v = v + ?x * 2 ^ s"
    using "1.prems"(2,3) by (rule int_or_push_bit)
  have v0: "0 \<le> ?v" using v x "1.prems"(2) by simp
  have v1: "?v < 2 ^ (s + 7)" using v x "1.prems"(3) acc_bound by simp
  show ?case
  proof (cases "buf ! i AND 0x80 = 0")
    case True
    then have "w = ?v" "j = i + 1"
      using "1.prems"(1) i by (simp_all add: uvarint_dec_loop_step [where b = "buf ! i"])
    then show ?thesis using i v0 v1 "1.prems"(4) by simp
  next
    case False
    with "1.prems"(1) i have s: "s + 7 \<le> 63"
      and rec: "uvarint_dec_loop buf (i + 1) (s + 7) ?v = Inr (w, j)"
      by (simp_all add: uvarint_dec_loop_step [where b = "buf ! i"] split: if_splits)
    have IHr: "i + 1 < j \<and> j \<le> length buf \<and> s + 7 + 7 * (j - (i + 1)) \<le> 70 \<and> 0 \<le> w \<and>
          w < 2 ^ (s + 7 + 7 * (j - (i + 1)))"
      using "1.IH" [OF _ _ _ _ _ rec v0 v1 s] i False s by (simp add: Let_def)
    then have e: "s + 7 + 7 * (j - (i + 1)) = s + 7 * (j - i)" by auto
    from IHr have "w < 2 ^ (s + 7 + 7 * (j - (i + 1)))" by simp
    then have "w < 2 ^ (s + 7 * (j - i))" by (simp only: e)
    with IHr e show ?thesis by simp
  qed
qed


lemma uvarint_dec_loop_too_large:
  "0 < d \<Longrightarrow> d \<le> 10 \<Longrightarrow> i + d \<le> length buf \<Longrightarrow>
   \<forall>k < d. buf ! (i + k) AND 0x80 \<noteq> 0 \<Longrightarrow>
   uvarint_dec_loop buf i (70 - 7 * d) v = Inl VarintTooLarge"
proof (induction d arbitrary: i v)
  case 0
  then show ?case by simp
next
  case (Suc d)
  have i: "i < length buf" using Suc.prems(3) by simp
  have b: "buf ! i AND 0x80 \<noteq> 0" using Suc.prems(4) by (metis add_0_right zero_less_Suc)
  show ?case
  proof (cases "d = 0")
    case True
    then show ?thesis using i b by (simp add: uvarint_dec_loop_step [where b = "buf ! i"])
  next
    case False
    have rest: "\<forall>k < d. buf ! (Suc i + k) AND 0x80 \<noteq> 0"
      using Suc.prems(4) by (metis add_Suc_shift not_less_eq)
    have "uvarint_dec_loop buf (Suc i) (70 - 7 * d) w = Inl VarintTooLarge" for w
      using False Suc.prems rest by (intro Suc.IH) simp_all
    moreover have "70 - 7 * Suc d + 7 = 70 - 7 * d" using Suc.prems(2) by simp
    ultimately show ?thesis
      using i b False Suc.prems(2) by (simp add: uvarint_dec_loop_step [where b = "buf ! i"] Let_def)
  qed
qed

lemma le2_mask: "(x::int) AND 0xFFFF = x mod 65536"
proof -
  have m: "(0xFFFF::int) = mask 16" by (simp add: mask_eq_exp_minus_1)
  have "x AND 0xFFFF = take_bit 16 x" by (simp only: m take_bit_eq_mask)
  then show ?thesis by (simp add: take_bit_eq_mod)
qed

lemma to_bytes_le2_length [simp]: "length (to_bytes_le2 x) = 2"
  by (simp add: to_bytes_le2_def Let_def)

lemma from_to_bytes_le2: "from_bytes_le (to_bytes_le2 x) = x mod 65536"
proof -
  let ?y = "x mod 65536"
  have y: "0 \<le> ?y" "?y < 65536" by simp_all
  have lo: "uint (word_of_int ?y :: byte) = ?y mod 256"
    by (simp add: uint_word_of_int_eq take_bit_eq_mod)
  have hi: "uint (word_of_int (drop_bit 8 ?y) :: byte) = ?y div 256"
    using y by (simp add: uint_word_of_int_eq take_bit_eq_mod drop_bit_eq_div)
  have "?y mod 256 + 256 * (?y div 256) = ?y" by simp
  then show ?thesis
    by (simp add: to_bytes_le2_def Let_def le2_mask lo hi del: mod_mult_self2)
qed


section \<open>Properties of the varint codec\<close>

text \<open>
  C3. Encoding a non-negative value below \<open>2^70\<close> succeeds with at most ten
  bytes, and decoding those bytes at any offset of any buffer returns the value
  and the offset just past its encoding.
\<close>

theorem uvarint_roundtrip:
  assumes "0 \<le> v" and "v < 2 ^ 70"
  shows "\<exists>bs. uvarint_encode v = Inr bs \<and> length bs \<le> 10 \<and>
           (\<forall>xs ys. uvarint_decode (xs @ bs @ ys) (length xs) = Inr (v, length xs + length bs))"
proof (intro exI conjI allI)
  let ?bs = "uvarint_loop (nat v)"
  show "uvarint_encode v = Inr ?bs" using assms(1) by (simp add: uvarint_encode_def)
  have n: "nat v < 2 ^ 70" using assms by (simp add: nat_less_iff)
  then show len: "length ?bs \<le> 10" by (rule uvarint_loop_length_10)
  fix xs ys :: "byte list"
  have "uvarint_dec_loop (xs @ ?bs @ ys) (length xs) 0 0 = Inr (0 + int (nat v) * 2 ^ 0, length xs + length ?bs)"
    using len by (intro uvarint_dec_loop_enc) simp_all
  then show "uvarint_decode (xs @ ?bs @ ys) (length xs) = Inr (v, length xs + length ?bs)"
    using assms(1) by (simp add: uvarint_decode_def)
qed

theorem uvarint_roundtrip_witness:
  "uvarint_encode 300 = Inr [0xAC, 0x02] \<and> uvarint_decode [0xAC, 0x02] 0 = Inr (300, 2)"
proof -
  have enc: "uvarint_encode 300 = Inr [0xAC, 0x02]"
    by (simp add: uvarint_encode_def enc_simps)
  obtain bs where e: "uvarint_encode 300 = Inr bs" and
      d: "\<forall>xs ys. uvarint_decode (xs @ bs @ ys) (length xs) = Inr (300, length xs + length bs)"
    using uvarint_roundtrip [of 300] by auto
  from e enc have bs: "bs = [0xAC, 0x02]" by simp
  have "uvarint_decode ([] @ bs @ []) (length ([] :: byte list)) = Inr (300, length ([] :: byte list) + length bs)"
    using d by blast
  with bs enc show ?thesis by simp
qed

text \<open>
  C4. A successful decode returns a non-negative value below \<open>2^70\<close> and
  advances the offset by one to ten bytes within the buffer: the check
  \<open>shift > 63\<close> admits a tenth byte with all seven payload bits, so values up
  to \<open>2^70 - 1\<close> are accepted, beyond the 64-bit range.
\<close>

theorem uvarint_decode_bounds:
  assumes "uvarint_decode buf i = Inr (w, j)"
  shows "0 \<le> w \<and> w < 2 ^ 70 \<and> i < j \<and> j \<le> i + 10 \<and> j \<le> length buf"
proof -
  have b: "i < j \<and> j \<le> length buf \<and> 7 * (j - i) \<le> 70 \<and> 0 \<le> w \<and> w < 2 ^ (7 * (j - i))"
    using uvarint_dec_loop_bounds [of buf i 0 0 w j] assms by (simp add: uvarint_decode_def)
  then have "(2::int) ^ (7 * (j - i)) \<le> 2 ^ 70" by (intro power_increasing) simp_all
  with b show ?thesis by auto
qed

theorem uvarint_decode_bounds_witness:
  "uvarint_decode ([0xFF, 0xFF, 0xFF, 0xFF, 0xFF, 0xFF, 0xFF, 0xFF, 0xFF, 0x7F]) 0 = Inr (2 ^ 70 - 1, 10) \<and> (2 ^ 70 - 1 :: int) < 2 ^ 70"
proof -
  have d: "uvarint_decode ([0xFF, 0xFF, 0xFF, 0xFF, 0xFF, 0xFF, 0xFF, 0xFF, 0xFF, 0x7F]) 0 = Inr (2 ^ 70 - 1, 10)"
    by (simp add: uvarint_decode_def uvarint_dec_loop.simps Let_def)
  from uvarint_decode_bounds [OF d] d show ?thesis by simp
qed

text \<open>
  C5. Ten bytes in a row with the continuation bit set are rejected with
  \<open>VarintTooLarge\<close> (the "uvarint: value too large" error): the decoder never
  reads an eleventh byte.
\<close>

theorem uvarint_decode_rejects_long_runs:
  assumes "i + 10 \<le> length buf" and "\<forall>k < 10. buf ! (i + k) AND 0x80 \<noteq> 0"
  shows "uvarint_decode buf i = Inl VarintTooLarge"
  using uvarint_dec_loop_too_large [of 10 i buf 0] assms by (simp add: uvarint_decode_def)

theorem uvarint_decode_rejects_long_runs_witness:
  "uvarint_decode (replicate 10 0x80) 0 = Inl VarintTooLarge"
proof -
  have "(0::nat) + 10 \<le> length (replicate 10 (0x80 :: byte))" by simp
  moreover have "\<forall>k < 10. replicate 10 (0x80 :: byte) ! (0 + k) AND 0x80 \<noteq> 0" by simp
  ultimately show ?thesis by (rule uvarint_decode_rejects_long_runs)
qed

end
