(* ===== verification/Graph.thy ===== *)
theory Graph
  imports Prelude
begin

text \<open>
  The graph data shapes and the \<open>GraphBuilder\<close> of
  \<open>src/brain/language/graph_builder.py\<close>: the enumerations with their wire codes,
  the node and edge flag bits, the \<open>Node\<close>, \<open>Edge\<close> and \<open>Graph\<close> dataclasses as
  records, and the builder as a record of its slots with one function per method.
  A datatype of builder operations and a run function give the reachable builder
  states; the invariant is that node ids are the dense sequence \<open>0, 1, \<dots>\<close> of
  insertion order, and every finalized graph has counts equal to its list lengths.
\<close>

unbundle bit_operations_syntax

section \<open>Enumerations\<close>

datatype GraphType = SIMPLE | MULTI | TREE | DAG | HETERO | TEMPORAL

fun GraphType_code :: "GraphType \<Rightarrow> int" where
  "GraphType_code SIMPLE = 1"
| "GraphType_code MULTI = 2"
| "GraphType_code TREE = 3"
| "GraphType_code DAG = 4"
| "GraphType_code HETERO = 5"
| "GraphType_code TEMPORAL = 6"

datatype SchemaID = WRITING

fun SchemaID_code :: "SchemaID \<Rightarrow> int" where
  "SchemaID_code WRITING = 1"

datatype NodeType =
    TOKEN | ENTITY | PREDICATE | EVENT | PHRASE | EDU | DISCOURSE_REL | NEGATION
  | MODALITY | QUANTIFIER | TIME_EXPR | PLACE | KG_ENTITY | KG_CONCEPT

fun NodeType_code :: "NodeType \<Rightarrow> int" where
  "NodeType_code TOKEN = 1"
| "NodeType_code ENTITY = 2"
| "NodeType_code PREDICATE = 3"
| "NodeType_code EVENT = 4"
| "NodeType_code PHRASE = 5"
| "NodeType_code EDU = 6"
| "NodeType_code DISCOURSE_REL = 7"
| "NodeType_code NEGATION = 8"
| "NodeType_code MODALITY = 9"
| "NodeType_code QUANTIFIER = 10"
| "NodeType_code TIME_EXPR = 11"
| "NodeType_code PLACE = 12"
| "NodeType_code KG_ENTITY = 13"
| "NodeType_code KG_CONCEPT = 14"

datatype EdgeType =
    DEP | ROLE | COREF | DISCOURSE | SCOPES_OVER | HAPPENS_AT | LOCATED_IN | SAME_AS
  | NEXT | PUNCT | ARG_OF

fun EdgeType_code :: "EdgeType \<Rightarrow> int" where
  "EdgeType_code DEP = 1"
| "EdgeType_code ROLE = 2"
| "EdgeType_code COREF = 3"
| "EdgeType_code DISCOURSE = 4"
| "EdgeType_code SCOPES_OVER = 5"
| "EdgeType_code HAPPENS_AT = 6"
| "EdgeType_code LOCATED_IN = 7"
| "EdgeType_code SAME_AS = 8"
| "EdgeType_code NEXT = 9"
| "EdgeType_code PUNCT = 10"
| "EdgeType_code ARG_OF = 11"

section \<open>Flag bits\<close>

definition NF_IS_ROOT :: int where "NF_IS_ROOT = push_bit 0 1"
definition NF_IS_STOP :: int where "NF_IS_STOP = push_bit 1 1"
definition NF_IS_CAPITALIZED :: int where "NF_IS_CAPITALIZED = push_bit 2 1"
definition NF_IS_PUNCT :: int where "NF_IS_PUNCT = push_bit 3 1"
definition NF_PROPOSED :: int where "NF_PROPOSED = push_bit 4 1"
definition NF_IS_HEAD :: int where "NF_IS_HEAD = push_bit 5 1"
definition NF_SENT_END_STRONG :: int where "NF_SENT_END_STRONG = push_bit 6 1"
definition NF_SENT_END_WEAK :: int where "NF_SENT_END_WEAK = push_bit 7 1"

definition EF_DIRECTED :: int where "EF_DIRECTED = push_bit 0 1"
definition EF_PROPOSED :: int where "EF_PROPOSED = push_bit 1 1"
definition EF_SYMMETRIC :: int where "EF_SYMMETRIC = push_bit 2 1"
definition EF_CROSS_SENT :: int where "EF_CROSS_SENT = push_bit 3 1"
definition EF_NEGATED :: int where "EF_NEGATED = push_bit 4 1"
definition EF_INFERRED :: int where "EF_INFERRED = push_bit 5 1"

lemmas node_flag_defs = NF_IS_ROOT_def NF_IS_STOP_def NF_IS_CAPITALIZED_def NF_IS_PUNCT_def
  NF_PROPOSED_def NF_IS_HEAD_def NF_SENT_END_STRONG_def NF_SENT_END_WEAK_def
lemmas edge_flag_defs = EF_DIRECTED_def EF_PROPOSED_def EF_SYMMETRIC_def EF_CROSS_SENT_def
  EF_NEGATED_def EF_INFERRED_def

section \<open>Data shapes\<close>

text \<open>
  The dataclasses hold Python \<open>int\<close>s; the comments in the source give the
  intended wire widths (varint, uint8, uint16), which the codec theory states as
  its range conditions. A span is a pair \<open>(start, end)\<close>.
\<close>

record Node =
  node_id :: int
  n_type :: int
  sub_type :: int
  features_ref :: int
  span :: "int \<times> int"
  n_flags :: int
  n_confidence :: int
  label_id :: int

record Edge =
  src_id :: int
  dst_id :: int
  e_type :: int
  weight :: int
  time :: int
  e_flags :: int
  e_confidence :: int
  attr_ref :: int

record Graph =
  graph_id :: int
  graph_type :: int
  num_nodes :: int
  num_edges :: int
  g_features :: "byte list option"
  source_id :: int
  version :: int
  schema_id :: int
  nodes :: "Node list"
  edges :: "Edge list"

section \<open>The builder\<close>

text \<open>The slots of \<open>GraphBuilder\<close>, without their leading underscore.\<close>

record GraphBuilder =
  gb_graph_id :: int
  gb_graph_type :: int
  gb_source_id :: int
  gb_version :: int
  gb_schema_id :: int
  gb_nodes :: "Node list"
  gb_edges :: "Edge list"
  gb_features :: "byte list option"

text \<open>\<open>GraphBuilder.__init__\<close>: the thumbnail passed here is stored unchecked.\<close>

definition GraphBuilder_init ::
  "int \<Rightarrow> int \<Rightarrow> int \<Rightarrow> int \<Rightarrow> int \<Rightarrow> byte list option \<Rightarrow> GraphBuilder" where
  "GraphBuilder_init gid sid gt src ver feats =
     \<lparr>gb_graph_id = gid, gb_graph_type = gt, gb_source_id = src, gb_version = ver,
      gb_schema_id = sid, gb_nodes = [], gb_edges = [], gb_features = feats\<rparr>"

text \<open>\<open>add_node\<close>: the new node's id is the number of nodes added before it.\<close>

definition add_node ::
  "GraphBuilder \<Rightarrow> int \<Rightarrow> int \<Rightarrow> int \<Rightarrow> int \<times> int \<Rightarrow> int \<Rightarrow> int \<Rightarrow> int \<Rightarrow> GraphBuilder \<times> int" where
  "add_node gb nt st lid sp fl conf fref =
     (let nid = int (length (gb_nodes gb)) in
      (gb\<lparr>gb_nodes := gb_nodes gb @
          [\<lparr>node_id = nid, n_type = nt, sub_type = st, features_ref = fref,
            span = (fst sp, snd sp), n_flags = fl, n_confidence = conf, label_id = lid\<rparr>]\<rparr>,
       nid))"

text \<open>
  \<open>add_edge\<close>: the endpoints are stored as given, with no check against the
  number of nodes; the result is the index of the new edge.
\<close>

definition add_edge ::
  "GraphBuilder \<Rightarrow> int \<Rightarrow> int \<Rightarrow> int \<Rightarrow> int \<Rightarrow> int \<Rightarrow> int \<Rightarrow> int \<Rightarrow> int \<Rightarrow> GraphBuilder \<times> int" where
  "add_edge gb s d et w tm fl conf aref =
     (let gb' = gb\<lparr>gb_edges := gb_edges gb @
          [\<lparr>src_id = s, dst_id = d, e_type = et, weight = w, time = tm, e_flags = fl,
            e_confidence = conf, attr_ref = aref\<rparr>]\<rparr>
      in (gb', int (length (gb_edges gb')) - 1))"

text \<open>\<open>set_thumbnail\<close>: \<open>None\<close> or exactly 64 or 128 bytes, else \<open>ValueError\<close>.\<close>

definition set_thumbnail :: "GraphBuilder \<Rightarrow> byte list option \<Rightarrow> GraphBuilder result" where
  "set_thumbnail gb feats =
     (if (case feats of None \<Rightarrow> False | Some f \<Rightarrow> length f \<notin> {64, 128})
      then Inl BadThumbnailLength
      else Inr (gb\<lparr>gb_features := feats\<rparr>))"

text \<open>\<open>finalize\<close>: a snapshot whose counts are the lengths of the lists.\<close>

definition finalize :: "GraphBuilder \<Rightarrow> Graph" where
  "finalize gb =
     \<lparr>graph_id = gb_graph_id gb, graph_type = gb_graph_type gb,
      num_nodes = int (length (gb_nodes gb)), num_edges = int (length (gb_edges gb)),
      g_features = gb_features gb, source_id = gb_source_id gb, version = gb_version gb,
      schema_id = gb_schema_id gb, nodes = gb_nodes gb, edges = gb_edges gb\<rparr>"

section \<open>Builder runs\<close>

text \<open>
  A call of one of the mutating methods, with all its arguments (the Python keyword
  defaults made explicit by the caller), and the run of a sequence of calls, which
  stops at the first exception.
\<close>

datatype builder_op =
    AddNode int int int "int \<times> int" int int int
  | AddEdge int int int int int int int int
  | SetThumbnail "byte list option"

fun builder_step :: "GraphBuilder \<Rightarrow> builder_op \<Rightarrow> GraphBuilder result" where
  "builder_step gb (AddNode nt st lid sp fl conf fref) = Inr (fst (add_node gb nt st lid sp fl conf fref))"
| "builder_step gb (AddEdge s d et w tm fl conf aref) = Inr (fst (add_edge gb s d et w tm fl conf aref))"
| "builder_step gb (SetThumbnail f) = set_thumbnail gb f"

fun builder_run :: "GraphBuilder \<Rightarrow> builder_op list \<Rightarrow> GraphBuilder result" where
  "builder_run gb [] = Inr gb"
| "builder_run gb (op # ops) = sum_bind (builder_step gb op) (\<lambda>gb'. builder_run gb' ops)"

section \<open>Invariants\<close>

definition dense_ids :: "Node list \<Rightarrow> bool" where
  "dense_ids ns \<longleftrightarrow> (\<forall>i < length ns. node_id (ns ! i) = int i)"

definition counts_match :: "Graph \<Rightarrow> bool" where
  "counts_match g \<longleftrightarrow> num_nodes g = int (length (nodes g)) \<and> num_edges g = int (length (edges g))"

lemma dense_ids_Nil [simp]: "dense_ids []"
  by (simp add: dense_ids_def)

lemma dense_ids_snoc:
  "dense_ids (ns @ [n]) \<longleftrightarrow> dense_ids ns \<and> node_id n = int (length ns)"
  by (auto simp: dense_ids_def nth_append less_Suc_eq)

lemma add_node_nodes:
  "gb_nodes (fst (add_node gb nt st lid sp fl conf fref)) =
     gb_nodes gb @ [\<lparr>node_id = int (length (gb_nodes gb)), n_type = nt, sub_type = st,
       features_ref = fref, span = sp, n_flags = fl, n_confidence = conf, label_id = lid\<rparr>]"
  by (simp add: add_node_def Let_def)

lemma add_node_id [simp]:
  "snd (add_node gb nt st lid sp fl conf fref) = int (length (gb_nodes gb))"
  by (simp add: add_node_def Let_def)

lemma add_edge_nodes [simp]:
  "gb_nodes (fst (add_edge gb s d et w tm fl conf aref)) = gb_nodes gb"
  by (simp add: add_edge_def Let_def)

lemma set_thumbnail_nodes:
  "set_thumbnail gb f = Inr gb' \<Longrightarrow> gb_nodes gb' = gb_nodes gb"
  by (auto simp: set_thumbnail_def split: if_splits)

lemma builder_step_dense:
  "builder_step gb op = Inr gb' \<Longrightarrow> dense_ids (gb_nodes gb) \<Longrightarrow> dense_ids (gb_nodes gb')"
  by (cases op) (auto simp: add_node_nodes dense_ids_snoc dest: set_thumbnail_nodes)

lemma builder_run_dense:
  "builder_run gb ops = Inr gb' \<Longrightarrow> dense_ids (gb_nodes gb) \<Longrightarrow> dense_ids (gb_nodes gb')"
proof (induction ops arbitrary: gb)
  case Nil
  then show ?case by simp
next
  case (Cons op ops)
  then obtain gb1 where s: "builder_step gb op = Inr gb1" and r: "builder_run gb1 ops = Inr gb'"
    by (auto simp: sum_bind_eq_Inr)
  from s Cons.prems(2) have "dense_ids (gb_nodes gb1)" by (rule builder_step_dense)
  with r show ?case by (rule Cons.IH)
qed

lemma finalize_counts [simp]: "counts_match (finalize gb)"
  by (simp add: counts_match_def finalize_def)

lemma finalize_nodes [simp]: "nodes (finalize gb) = gb_nodes gb"
  by (simp add: finalize_def)

lemma finalize_edges [simp]: "edges (finalize gb) = gb_edges gb"
  by (simp add: finalize_def)

lemma builder_step_error:
  "builder_step gb op = Inl e \<Longrightarrow>
   e = BadThumbnailLength \<and> (\<exists>bs. op = SetThumbnail (Some bs) \<and> length bs \<notin> {64, 128})"
  by (cases op) (auto simp: set_thumbnail_def split: if_splits option.splits)

section \<open>Properties of the builder\<close>

text \<open>
  C8. Whatever sequence of \<open>add_node\<close>, \<open>add_edge\<close> and \<open>set_thumbnail\<close> calls a
  fresh builder goes through, the graph \<open>finalize\<close> returns has node ids
  \<open>0, 1, \<dots>\<close> in insertion order and header counts equal to its list lengths.
\<close>

theorem builder_run_finalize_wf:
  assumes "builder_run (GraphBuilder_init gid sid gt src ver feats) ops = Inr gb"
  shows "dense_ids (nodes (finalize gb)) \<and> counts_match (finalize gb)"
proof -
  have "dense_ids (gb_nodes (GraphBuilder_init gid sid gt src ver feats))"
    by (simp add: GraphBuilder_init_def)
  with assms have "dense_ids (gb_nodes gb)" by (rule builder_run_dense)
  then show ?thesis by simp
qed

theorem builder_run_finalize_wf_witness:
  "\<exists>gb. builder_run (GraphBuilder_init 1 1 5 0 1 None)
          [AddNode 1 0 123 (0, 1) 4 240 0, AddNode 1 0 456 (1, 2) 0 255 0,
           AddEdge 0 1 9 255 0 1 255 0] = Inr gb \<and>
        dense_ids (nodes (finalize gb)) \<and> counts_match (finalize gb)"
proof -
  obtain gb where r: "builder_run (GraphBuilder_init 1 1 5 0 1 None)
          [AddNode 1 0 123 (0, 1) 4 240 0, AddNode 1 0 456 (1, 2) 0 255 0,
           AddEdge 0 1 9 255 0 1 255 0] = Inr gb"
    by (simp add: add_node_def add_edge_def Let_def)
  with builder_run_finalize_wf [OF r] show ?thesis by blast
qed

text \<open>
  C9. \<open>set_thumbnail\<close> rejects a byte string exactly when its length is neither
  64 nor 128, the empty string included.
\<close>

theorem set_thumbnail_rejects:
  "set_thumbnail gb (Some bs) = Inl BadThumbnailLength \<longleftrightarrow> length bs \<notin> {64, 128}"
  by (simp add: set_thumbnail_def)

text \<open>
  C10. The builder never fails but through \<open>set_thumbnail\<close>: a run of builder
  calls that raises has met a thumbnail of a length other than 64 and 128;
  \<open>add_edge\<close> accepts any endpoints, also ids of nodes not yet added.
\<close>

theorem builder_run_error:
  assumes "builder_run gb ops = Inl e"
  shows "e = BadThumbnailLength \<and> (\<exists>bs. SetThumbnail (Some bs) \<in> set ops \<and> length bs \<notin> {64, 128})"
  using assms
proof (induction ops arbitrary: gb)
  case Nil
  then show ?case by simp
next
  case (Cons op ops)
  show ?case
  proof (cases "builder_step gb op")
    case (Inl e')
    with Cons.prems have "e' = e" by simp
    with Inl show ?thesis using builder_step_error by fastforce
  next
    case (Inr gb')
    with Cons.prems have "builder_run gb' ops = Inl e" by simp
    then show ?thesis using Cons.IH by fastforce
  qed
qed

theorem builder_run_error_witness:
  "builder_run (GraphBuilder_init 0 1 5 0 1 None) [AddEdge 0 7 9 255 0 1 255 0, SetThumbnail (Some (replicate 65 0))]
     = Inl BadThumbnailLength \<and>
   (\<exists>bs. SetThumbnail (Some bs) \<in> set [AddEdge 0 7 9 255 0 1 255 0, SetThumbnail (Some (replicate 65 0))] \<and>
         length bs \<notin> {64, 128})"
proof -
  have r: "builder_run (GraphBuilder_init 0 1 5 0 1 None)
      [AddEdge 0 7 9 255 0 1 255 0, SetThumbnail (Some (replicate 65 0))] = Inl BadThumbnailLength"
    by (simp add: add_edge_def set_thumbnail_def Let_def)
  with builder_run_error [OF r] show ?thesis by blast
qed

end
