(* ===== verification/Codec.thy ===== *)
theory Codec
  imports Varint Graph
begin

text \<open>
  The single-graph \<open>.pgraph\<close> codec, \<open>encode_pgraph\<close> and \<open>decode_pgraph\<close> of
  \<open>src/brain/language/graph_builder.py\<close>. Encoding is a sequence of byte producers
  that stops at the first \<open>ValueError\<close> (a negative varint field); decoding is a
  sequence of readers over the buffer and a read offset, each returning its value
  and the next offset or an error. The decoders only look at the bytes from their
  offset on (\<open>reader_local\<close>), which lets the roundtrip proofs read each field
  at offset 0 of the remaining bytes.
\<close>

unbundle bit_operations_syntax

section \<open>Readers\<close>

text \<open>\<open>buf[i]; i += 1\<close>: \<open>IndexError\<close> past the end of the buffer.\<close>

definition read_byte :: "byte list \<Rightarrow> nat \<Rightarrow> (int \<times> nat) result" where
  "read_byte buf i = (if i < length buf then Inr (uint (buf ! i), i + 1) else Inl IndexOutOfRange)"

text \<open>
  \<open>int.from_bytes(buf[i:i+2], "little"); i += 2\<close>: the slice is silently
  shorter (and the value smaller) when fewer than two bytes remain.
\<close>

definition read_le2 :: "byte list \<Rightarrow> nat \<Rightarrow> (int \<times> nat) result" where
  "read_le2 buf i = Inr (from_bytes_le (take 2 (drop i buf)), i + 2)"

section \<open>Encoding\<close>

definition PG_MAGIC :: "byte list" where
  "PG_MAGIC = [0x50, 0x47, 0x52, 0x41]"  \<comment> \<open>\<open>b"PGRA"\<close>\<close>

text \<open>\<open>out.append(x & 0xFF)\<close>.\<close>

definition byte_of :: "int \<Rightarrow> byte" where
  "byte_of x = word_of_int (x AND 0xFF)"

definition encode_node :: "Node \<Rightarrow> byte list result" where
  "encode_node n = seq_bytes
     [uvarint_encode (node_id n), Inr [byte_of (n_type n)], Inr [byte_of (sub_type n)],
      uvarint_encode (features_ref n), uvarint_encode (fst (span n)),
      uvarint_encode (snd (span n)), Inr (to_bytes_le2 (n_flags n)),
      Inr [byte_of (n_confidence n)], uvarint_encode (label_id n)]"

definition encode_edge :: "Edge \<Rightarrow> byte list result" where
  "encode_edge e = seq_bytes
     [uvarint_encode (src_id e), uvarint_encode (dst_id e), Inr [byte_of (e_type e)],
      Inr [byte_of (weight e)], uvarint_encode (time e), Inr (to_bytes_le2 (e_flags e)),
      Inr [byte_of (e_confidence e)], uvarint_encode (attr_ref e)]"

text \<open>\<open>feat = g.g_features or b""\<close>: \<open>None\<close> and \<open>b""\<close> both write length 0.\<close>

definition encode_features :: "byte list option \<Rightarrow> byte list result" where
  "encode_features gf =
     (let feat = (case gf of None \<Rightarrow> [] | Some f \<Rightarrow> f) in
      seq_bytes [uvarint_encode (int (length feat)), Inr (if feat \<noteq> [] then feat else [])])"

definition encode_pgraph :: "Graph \<Rightarrow> byte list result" where
  "encode_pgraph g = seq_bytes
     ([Inr PG_MAGIC, uvarint_encode (graph_id g), Inr [byte_of (graph_type g)],
       uvarint_encode (num_nodes g), uvarint_encode (num_edges g),
       uvarint_encode (source_id g), uvarint_encode (version g), Inr [byte_of (schema_id g)]]
      @ map encode_node (nodes g) @ map encode_edge (edges g) @ [encode_features (g_features g)])"

section \<open>Decoding\<close>

definition decode_node :: "byte list \<Rightarrow> nat \<Rightarrow> (Node \<times> nat) result" where
  "decode_node buf i =
     sum_bind (uvarint_decode buf i) (\<lambda>(nid, i).
     sum_bind (read_byte buf i) (\<lambda>(nt, i).
     sum_bind (read_byte buf i) (\<lambda>(st, i).
     sum_bind (uvarint_decode buf i) (\<lambda>(fref, i).
     sum_bind (uvarint_decode buf i) (\<lambda>(s0, i).
     sum_bind (uvarint_decode buf i) (\<lambda>(s1, i).
     sum_bind (read_le2 buf i) (\<lambda>(fl, i).
     sum_bind (read_byte buf i) (\<lambda>(conf, i).
     sum_bind (uvarint_decode buf i) (\<lambda>(lid, i).
     Inr (\<lparr>node_id = nid, n_type = nt, sub_type = st, features_ref = fref, span = (s0, s1),
           n_flags = fl, n_confidence = conf, label_id = lid\<rparr>, i))))))))))"

definition decode_edge :: "byte list \<Rightarrow> nat \<Rightarrow> (Edge \<times> nat) result" where
  "decode_edge buf i =
     sum_bind (uvarint_decode buf i) (\<lambda>(s, i).
     sum_bind (uvarint_decode buf i) (\<lambda>(d, i).
     sum_bind (read_byte buf i) (\<lambda>(et, i).
     sum_bind (read_byte buf i) (\<lambda>(w, i).
     sum_bind (uvarint_decode buf i) (\<lambda>(tm, i).
     sum_bind (read_le2 buf i) (\<lambda>(fl, i).
     sum_bind (read_byte buf i) (\<lambda>(conf, i).
     sum_bind (uvarint_decode buf i) (\<lambda>(aref, i).
     Inr (\<lparr>src_id = s, dst_id = d, e_type = et, weight = w, time = tm, e_flags = fl,
           e_confidence = conf, attr_ref = aref\<rparr>, i)))))))))"

text \<open>\<open>for _ in range(count)\<close>: the header's count is trusted as a repetition count.\<close>

fun decode_nodes :: "byte list \<Rightarrow> nat \<Rightarrow> nat \<Rightarrow> (Node list \<times> nat) result" where
  "decode_nodes buf 0 i = Inr ([], i)"
| "decode_nodes buf (Suc k) i =
     sum_bind (decode_node buf i) (\<lambda>(n, i).
     sum_bind (decode_nodes buf k i) (\<lambda>(ns, i). Inr (n # ns, i)))"

fun decode_edges :: "byte list \<Rightarrow> nat \<Rightarrow> nat \<Rightarrow> (Edge list \<times> nat) result" where
  "decode_edges buf 0 i = Inr ([], i)"
| "decode_edges buf (Suc k) i =
     sum_bind (decode_edge buf i) (\<lambda>(e, i).
     sum_bind (decode_edges buf k i) (\<lambda>(es, i). Inr (e # es, i)))"

text \<open>The adjunct section: a length, then that many raw bytes when it is not 0.\<close>

definition decode_features :: "byte list \<Rightarrow> nat \<Rightarrow> (byte list option \<times> nat) result" where
  "decode_features buf i =
     sum_bind (uvarint_decode buf i) (\<lambda>(feat_len, i).
       if feat_len \<noteq> 0 then
         (let gf = take (nat feat_len) (drop i buf) in
          if int (length gf) \<noteq> feat_len then Inl TruncatedFeatures
          else Inr (Some gf, i + nat feat_len))
       else Inr (None, i))"

definition decode_pgraph :: "byte list \<Rightarrow> Graph result" where
  "decode_pgraph buf =
     (if take 4 buf \<noteq> PG_MAGIC then Inl InvalidMagic else
      sum_bind (uvarint_decode buf 4) (\<lambda>(gid, i).
      sum_bind (read_byte buf i) (\<lambda>(gt, i).
      sum_bind (uvarint_decode buf i) (\<lambda>(nn, i).
      sum_bind (uvarint_decode buf i) (\<lambda>(ne, i).
      sum_bind (uvarint_decode buf i) (\<lambda>(src, i).
      sum_bind (uvarint_decode buf i) (\<lambda>(ver, i).
      sum_bind (read_byte buf i) (\<lambda>(sid, i).
      sum_bind (decode_nodes buf (nat nn) i) (\<lambda>(ns, i).
      sum_bind (decode_edges buf (nat ne) i) (\<lambda>(es, i).
      sum_bind (decode_features buf i) (\<lambda>(gf, i).
      Inr \<lparr>graph_id = gid, graph_type = gt, num_nodes = int (length ns),
           num_edges = int (length es), g_features = gf, source_id = src, version = ver,
           schema_id = sid, nodes = ns, edges = es\<rparr>)))))))))))"

section \<open>Readers only look ahead of their offset\<close>

definition shift_res :: "nat \<Rightarrow> ('a \<times> nat) result \<Rightarrow> ('a \<times> nat) result" where
  "shift_res k r = map_sum id (\<lambda>(v, j). (v, k + j)) r"

definition reader_local :: "(byte list \<Rightarrow> nat \<Rightarrow> ('a \<times> nat) result) \<Rightarrow> bool" where
  "reader_local R \<longleftrightarrow> (\<forall>buf i. R buf i = shift_res i (R (drop i buf) 0))"

lemma shift_res_simps [simp]:
  "shift_res k (Inl e) = Inl e"
  "shift_res k (Inr (v, j)) = Inr (v, k + j)"
  by (simp_all add: shift_res_def)

lemma shift_res_shift_res: "shift_res i (shift_res j r) = shift_res (i + j) r"
  by (cases r) (auto simp: shift_res_def add.assoc)

lemma reader_local_return [intro]: "reader_local (\<lambda>buf i. Inr (x, i))"
  by (simp add: reader_local_def)

lemma reader_localD: "reader_local R \<Longrightarrow> R buf i = shift_res i (R (drop i buf) 0)"
  unfolding reader_local_def by blast

lemma reader_local_bind [intro]:
  assumes R: "reader_local R" and F: "\<And>v. reader_local (F v)"
  shows "reader_local (\<lambda>buf i. sum_bind (R buf i) (\<lambda>(v, j). F v buf j))"
  unfolding reader_local_def
proof (intro allI)
  fix buf i
  have r: "R buf i = shift_res i (R (drop i buf) 0)" using R by (rule reader_localD)
  show "sum_bind (R buf i) (\<lambda>(v, j). F v buf j) =
        shift_res i (sum_bind (R (drop i buf) 0) (\<lambda>(v, j). F v (drop i buf) j))"
  proof (cases "R (drop i buf) 0")
    case (Inl e)
    with r show ?thesis by simp
  next
    case (Inr p)
    obtain v j where p: "p = (v, j)" by (cases p)
    have f1: "F v buf (i + j) = shift_res (i + j) (F v (drop (i + j) buf) 0)"
      using F by (rule reader_localD)
    have f2: "F v (drop i buf) j = shift_res j (F v (drop j (drop i buf)) 0)"
      using F by (rule reader_localD)
    have d: "drop j (drop i buf) = drop (i + j) buf" by (simp add: add.commute)
    have lhs: "sum_bind (R buf i) (\<lambda>(v, j). F v buf j) = F v buf (i + j)"
      using r Inr p by simp
    have rhs: "sum_bind (R (drop i buf) 0) (\<lambda>(v, j). F v (drop i buf) j) = F v (drop i buf) j"
      using Inr p by simp
    show ?thesis by (simp only: lhs rhs f1 f2 d shift_res_shift_res)
  qed
qed

lemma uvarint_dec_loop_prefix:
  "uvarint_dec_loop (xs @ buf) (length xs + i) s v = shift_res (length xs) (uvarint_dec_loop buf i s v)"
proof (induction buf i s v rule: uvarint_dec_loop.induct)
  case (1 buf i s v)
  show ?case
  proof (cases "length buf \<le> i")
    case True
    then show ?thesis
      by (simp add: uvarint_dec_loop.simps [of "xs @ buf" "length xs + i"] uvarint_dec_loop.simps [of buf i])
  next
    case False
    then have i: "length xs + i < length (xs @ buf)" and b: "(xs @ buf) ! (length xs + i) = buf ! i"
      by simp_all
    show ?thesis
      using "1.IH" [OF _ refl refl] False
      by (cases "uvarint_dec_loop buf (i + 1) (s + 7) (v OR push_bit s (uint (buf ! i AND 0x7F)))")
        (auto simp: uvarint_dec_loop_step [OF i b] uvarint_dec_loop_step [where buf = buf and i = i] Let_def)
  qed
qed

lemma reader_local_uvarint [intro]: "reader_local uvarint_decode"
  unfolding reader_local_def uvarint_decode_def
proof (intro allI)
  fix buf :: "byte list" and i :: nat
  show "uvarint_dec_loop buf i 0 0 = shift_res i (uvarint_dec_loop (drop i buf) 0 0 0)"
  proof (cases "i \<le> length buf")
    case True
    then show ?thesis using uvarint_dec_loop_prefix [of "take i buf" "drop i buf" 0 0 0] by simp
  next
    case False
    then show ?thesis by (simp add: uvarint_dec_loop.simps [of buf] uvarint_dec_loop.simps [of "[]"])
  qed
qed

lemma reader_local_read_byte [intro]: "reader_local read_byte"
  by (auto simp: reader_local_def read_byte_def)

lemma reader_local_read_le2 [intro]: "reader_local read_le2"
  by (simp add: reader_local_def read_le2_def)

lemma reader_local_decode_node [intro]: "reader_local decode_node"
  unfolding decode_node_def [abs_def] by (intro reader_local_bind reader_local_return allI reader_local_uvarint reader_local_read_byte reader_local_read_le2)

lemma reader_local_decode_edge [intro]: "reader_local decode_edge"
  unfolding decode_edge_def [abs_def] by (intro reader_local_bind reader_local_return allI reader_local_uvarint reader_local_read_byte reader_local_read_le2)

lemma reader_local_decode_nodes [intro]: "reader_local (\<lambda>buf i. decode_nodes buf k i)"
proof (induction k)
  case 0
  then show ?case by (simp add: reader_local_def)
next
  case (Suc k)
  then show ?case by (simp only: decode_nodes.simps) (intro reader_local_bind reader_local_return reader_local_decode_node)
qed

lemma reader_local_decode_edges [intro]: "reader_local (\<lambda>buf i. decode_edges buf k i)"
proof (induction k)
  case 0
  then show ?case by (simp add: reader_local_def)
next
  case (Suc k)
  then show ?case by (simp only: decode_edges.simps) (intro reader_local_bind reader_local_return reader_local_decode_edge)
qed

lemma reader_local_decode_features [intro]: "reader_local decode_features"
  unfolding reader_local_def
proof (intro allI)
  fix buf :: "byte list" and i :: nat
  show "decode_features buf i = shift_res i (decode_features (drop i buf) 0)"
    using reader_localD [OF reader_local_uvarint, of buf i]
    by (cases "uvarint_decode (drop i buf) 0") (auto simp: decode_features_def Let_def add.commute)
qed

text \<open>Reading at a positive offset is reading at offset 0 of the remaining bytes.\<close>

lemma at_offset [dec_simps]:
  "0 < i \<Longrightarrow> uvarint_decode buf i = shift_res i (uvarint_decode (drop i buf) 0)"
  "0 < i \<Longrightarrow> read_byte buf i = shift_res i (read_byte (drop i buf) 0)"
  "0 < i \<Longrightarrow> read_le2 buf i = shift_res i (read_le2 (drop i buf) 0)"
  "0 < i \<Longrightarrow> decode_node buf i = shift_res i (decode_node (drop i buf) 0)"
  "0 < i \<Longrightarrow> decode_edge buf i = shift_res i (decode_edge (drop i buf) 0)"
  "0 < i \<Longrightarrow> decode_nodes buf k i = shift_res i (decode_nodes (drop i buf) k 0)"
  "0 < i \<Longrightarrow> decode_edges buf k i = shift_res i (decode_edges (drop i buf) k 0)"
  "0 < i \<Longrightarrow> decode_features buf i = shift_res i (decode_features (drop i buf) 0)"
  by (rule reader_localD [where R = uvarint_decode], blast)
     (rule reader_localD, blast)+

section \<open>Field ranges\<close>

text \<open>
  The ranges the source's comments give each field (varint, uint8, uint16): the
  roundtrip holds for graphs whose fields lie in them. A varint field must also be
  below \<open>2^70\<close>, the largest value the decoder accepts.
\<close>

definition varint_ok :: "int \<Rightarrow> bool" where
  "varint_ok x \<longleftrightarrow> 0 \<le> x \<and> x < 2 ^ 70"

definition u8_ok :: "int \<Rightarrow> bool" where
  "u8_ok x \<longleftrightarrow> 0 \<le> x \<and> x < 256"

definition u16_ok :: "int \<Rightarrow> bool" where
  "u16_ok x \<longleftrightarrow> 0 \<le> x \<and> x < 65536"

definition node_ok :: "Node \<Rightarrow> bool" where
  "node_ok n \<longleftrightarrow> varint_ok (node_id n) \<and> u8_ok (n_type n) \<and> u8_ok (sub_type n) \<and>
     varint_ok (features_ref n) \<and> varint_ok (fst (span n)) \<and> varint_ok (snd (span n)) \<and>
     u16_ok (n_flags n) \<and> u8_ok (n_confidence n) \<and> varint_ok (label_id n)"

definition edge_ok :: "Edge \<Rightarrow> bool" where
  "edge_ok e \<longleftrightarrow> varint_ok (src_id e) \<and> varint_ok (dst_id e) \<and> u8_ok (e_type e) \<and>
     u8_ok (weight e) \<and> varint_ok (time e) \<and> u16_ok (e_flags e) \<and> u8_ok (e_confidence e) \<and>
     varint_ok (attr_ref e)"

section \<open>Fields read back what was written\<close>

lemma uvarint_encode_ok [enc_simps]: "varint_ok v \<Longrightarrow> uvarint_encode v = Inr (uvarint_loop (nat v))"
  by (simp add: varint_ok_def uvarint_encode_def)

lemma uvarint_decode_at0 [dec_simps]:
  "varint_ok v \<Longrightarrow> uvarint_decode (uvarint_loop (nat v) @ ys) 0 = Inr (v, length (uvarint_loop (nat v)))"
proof -
  assume v: "varint_ok v"
  then have "nat v < 2 ^ 70" by (simp add: varint_ok_def nat_less_iff)
  then have "length (uvarint_loop (nat v)) \<le> 10" by (rule uvarint_loop_length_10)
  then have "uvarint_dec_loop ([] @ uvarint_loop (nat v) @ ys) (length ([] :: byte list)) 0 0 =
      Inr (0 + int (nat v) * 2 ^ 0, length ([] :: byte list) + length (uvarint_loop (nat v)))"
    by (intro uvarint_dec_loop_enc) simp_all
  then show ?thesis using v by (simp add: uvarint_decode_def varint_ok_def)
qed

lemma uvarint_decode_at0_nat [dec_simps]:
  "varint_ok (int n) \<Longrightarrow> uvarint_decode (uvarint_loop n @ ys) 0 = Inr (int n, length (uvarint_loop n))"
  using uvarint_decode_at0 [of "int n" ys] by simp

lemma uvarint_loop_length_pos [simp]: "0 < length (uvarint_loop n)"
  by simp

lemma read_byte_at0 [dec_simps]: "read_byte (b # ys) 0 = Inr (uint b, 1)"
  by (simp add: read_byte_def)

lemma int_and_255: "(x::int) AND 0xFF = x mod 256"
proof -
  have m: "(0xFF::int) = mask 8" by (simp add: mask_eq_exp_minus_1)
  have "x AND 0xFF = take_bit 8 x" by (simp only: m take_bit_eq_mask)
  then show ?thesis by (simp add: take_bit_eq_mod)
qed

lemma byte_of_ok [dec_simps]: "u8_ok x \<Longrightarrow> uint (byte_of x) = x"
  by (simp add: u8_ok_def byte_of_def int_and_255)

lemma read_le2_at0 [dec_simps]:
  "u16_ok x \<Longrightarrow> read_le2 (to_bytes_le2 x @ ys) 0 = Inr (x, 2)"
  by (simp add: read_le2_def from_to_bytes_le2 u16_ok_def)

section \<open>Records read back what was written\<close>

lemma decode_node_encoded:
  assumes ok: "node_ok n" and enc: "encode_node n = Inr bs"
  shows "decode_node (bs @ ys) 0 = Inr (n, length bs)"
proof -
  have bs: "bs = uvarint_loop (nat (node_id n)) @ [byte_of (n_type n)] @ [byte_of (sub_type n)] @
      uvarint_loop (nat (features_ref n)) @ uvarint_loop (nat (fst (span n))) @
      uvarint_loop (nat (snd (span n))) @ to_bytes_le2 (n_flags n) @ [byte_of (n_confidence n)] @
      uvarint_loop (nat (label_id n))"
    using ok enc by (simp add: encode_node_def node_ok_def uvarint_encode_ok)
  show ?thesis
    using ok unfolding bs node_ok_def
    by (cases n) (simp add: decode_node_def dec_simps numeral_eq_Suc)
qed

lemma encode_node_nonempty: "node_ok n \<Longrightarrow> encode_node n = Inr bs \<Longrightarrow> 0 < length bs"
  by (auto simp: encode_node_def node_ok_def uvarint_encode_ok)

lemma decode_edge_encoded:
  assumes ok: "edge_ok e" and enc: "encode_edge e = Inr bs"
  shows "decode_edge (bs @ ys) 0 = Inr (e, length bs)"
proof -
  have bs: "bs = uvarint_loop (nat (src_id e)) @ uvarint_loop (nat (dst_id e)) @ [byte_of (e_type e)] @
      [byte_of (weight e)] @ uvarint_loop (nat (time e)) @ to_bytes_le2 (e_flags e) @
      [byte_of (e_confidence e)] @ uvarint_loop (nat (attr_ref e))"
    using ok enc by (simp add: encode_edge_def edge_ok_def uvarint_encode_ok)
  show ?thesis
    using ok unfolding bs edge_ok_def
    by (cases e) (simp add: decode_edge_def dec_simps numeral_eq_Suc)
qed

lemma encode_edge_nonempty: "edge_ok e \<Longrightarrow> encode_edge e = Inr bs \<Longrightarrow> 0 < length bs"
  by (auto simp: encode_edge_def edge_ok_def uvarint_encode_ok)

lemma encode_nodes_ok: "list_all node_ok ns \<Longrightarrow> \<exists>bs. seq_bytes (map encode_node ns) = Inr bs"
  by (induction ns) (auto simp: encode_node_def node_ok_def uvarint_encode_ok)

lemma encode_edges_ok: "list_all edge_ok es \<Longrightarrow> \<exists>bs. seq_bytes (map encode_edge es) = Inr bs"
  by (induction es) (auto simp: encode_edge_def edge_ok_def uvarint_encode_ok)

lemma decode_nodes_encoded:
  "list_all node_ok ns \<Longrightarrow> seq_bytes (map encode_node ns) = Inr bs \<Longrightarrow>
   decode_nodes (bs @ ys) (length ns) 0 = Inr (ns, length bs)"
proof (induction ns arbitrary: bs)
  case Nil
  then show ?case by simp
next
  case (Cons n ns)
  then obtain b1 b2 where e1: "encode_node n = Inr b1" and e2: "seq_bytes (map encode_node ns) = Inr b2"
      and bs: "bs = b1 @ b2"
    by (auto simp: sum_bind_eq_Inr)
  have d1: "decode_node (b1 @ b2 @ ys) 0 = Inr (n, length b1)"
    using Cons.prems(1) e1 by (intro decode_node_encoded) simp_all
  have d2: "decode_nodes (b2 @ ys) (length ns) 0 = Inr (ns, length b2)"
    using Cons.prems(1) e2 by (intro Cons.IH) simp_all
  have pos: "0 < length b1" using Cons.prems(1) e1 by (intro encode_node_nonempty) simp_all
  show ?case using d1 d2 pos by (simp add: bs at_offset)
qed

lemma decode_edges_encoded:
  "list_all edge_ok es \<Longrightarrow> seq_bytes (map encode_edge es) = Inr bs \<Longrightarrow>
   decode_edges (bs @ ys) (length es) 0 = Inr (es, length bs)"
proof (induction es arbitrary: bs)
  case Nil
  then show ?case by simp
next
  case (Cons e es)
  then obtain b1 b2 where e1: "encode_edge e = Inr b1" and e2: "seq_bytes (map encode_edge es) = Inr b2"
      and bs: "bs = b1 @ b2"
    by (auto simp: sum_bind_eq_Inr)
  have d1: "decode_edge (b1 @ b2 @ ys) 0 = Inr (e, length b1)"
    using Cons.prems(1) e1 by (intro decode_edge_encoded) simp_all
  have d2: "decode_edges (b2 @ ys) (length es) 0 = Inr (es, length b2)"
    using Cons.prems(1) e2 by (intro Cons.IH) simp_all
  have pos: "0 < length b1" using Cons.prems(1) e1 by (intro encode_edge_nonempty) simp_all
  show ?case using d1 d2 pos by (simp add: bs at_offset)
qed

section \<open>The adjunct section and the whole graph\<close>

text \<open>
  A thumbnail that the decoder gives back as it was: absent, or a non-empty byte
  string whose length fits a varint (an empty one comes back as \<open>None\<close>).
\<close>

fun features_ok :: "byte list option \<Rightarrow> bool" where
  "features_ok None = True"
| "features_ok (Some f) \<longleftrightarrow> f \<noteq> [] \<and> length f < 2 ^ 70"

definition graph_ok :: "Graph \<Rightarrow> bool" where
  "graph_ok g \<longleftrightarrow> counts_match g \<and> varint_ok (graph_id g) \<and> u8_ok (graph_type g) \<and>
     varint_ok (num_nodes g) \<and> varint_ok (num_edges g) \<and> varint_ok (source_id g) \<and>
     varint_ok (version g) \<and> u8_ok (schema_id g) \<and> list_all node_ok (nodes g) \<and>
     list_all edge_ok (edges g) \<and> features_ok (g_features g)"

lemma encode_features_ok:
  "features_ok gf \<Longrightarrow>
   encode_features gf = Inr (uvarint_loop (length (case gf of None \<Rightarrow> [] | Some f \<Rightarrow> f)) @
                             (case gf of None \<Rightarrow> [] | Some f \<Rightarrow> f))"
  by (cases gf) (simp_all add: encode_features_def uvarint_encode_def)

lemma decode_features_encoded:
  assumes ok: "features_ok gf" and enc: "encode_features gf = Inr bs"
  shows "decode_features (bs @ ys) 0 = Inr (gf, length bs)"
proof (cases gf)
  case None
  then have "bs = [0]" using ok enc by (simp add: encode_features_ok enc_simps)
  then show ?thesis using None by (simp add: decode_features_def uvarint_decode_def uvarint_dec_loop.simps)
next
  case (Some f)
  let ?n = "int (length f)"
  have v: "varint_ok ?n" using ok Some by (simp add: varint_ok_def)
  have bs: "bs = uvarint_loop (nat ?n) @ f" using ok enc Some by (simp add: encode_features_ok)
  have "uvarint_decode (uvarint_loop (nat ?n) @ f @ ys) 0 = Inr (?n, length (uvarint_loop (nat ?n)))"
    using v by (rule uvarint_decode_at0)
  then show ?thesis using Some ok by (simp add: bs decode_features_def)
qed

lemma encode_pgraph_ok: "graph_ok g \<Longrightarrow> \<exists>bs. encode_pgraph g = Inr bs"
  using encode_nodes_ok [of "nodes g"] encode_edges_ok [of "edges g"] encode_features_ok [of "g_features g"]
  by (auto simp: graph_ok_def encode_pgraph_def seq_bytes_append uvarint_encode_ok)

lemma decode_pgraph_encoded:
  assumes ok: "graph_ok g" and enc: "encode_pgraph g = Inr bs"
  shows "decode_pgraph (bs @ ys) = Inr g"
proof -
  obtain bn be bf where n: "seq_bytes (map encode_node (nodes g)) = Inr bn"
      and e: "seq_bytes (map encode_edge (edges g)) = Inr be"
      and f: "encode_features (g_features g) = Inr bf"
    using ok encode_nodes_ok [of "nodes g"] encode_edges_ok [of "edges g"] encode_features_ok [of "g_features g"]
    by (auto simp: graph_ok_def)
  have bs: "bs = PG_MAGIC @ uvarint_loop (nat (graph_id g)) @ [byte_of (graph_type g)] @
      uvarint_loop (nat (num_nodes g)) @ uvarint_loop (nat (num_edges g)) @
      uvarint_loop (nat (source_id g)) @ uvarint_loop (nat (version g)) @ [byte_of (schema_id g)] @
      bn @ be @ bf"
    using ok enc n e f by (simp add: graph_ok_def encode_pgraph_def seq_bytes_append uvarint_encode_ok)
  have cn: "nat (num_nodes g) = length (nodes g)" and ce: "nat (num_edges g) = length (edges g)"
    using ok by (simp_all add: graph_ok_def counts_match_def)
  have dn: "decode_nodes (bn @ be @ bf @ ys) (nat (num_nodes g)) 0 = Inr (nodes g, length bn)"
    using ok n by (simp add: cn graph_ok_def decode_nodes_encoded)
  have de: "decode_edges (be @ bf @ ys) (nat (num_edges g)) 0 = Inr (edges g, length be)"
    using ok e by (simp add: ce graph_ok_def decode_edges_encoded)
  have df: "decode_features (bf @ ys) 0 = Inr (g_features g, length bf)"
    using ok f by (intro decode_features_encoded) (simp_all add: graph_ok_def)
  show ?thesis
    using ok dn de df unfolding bs graph_ok_def counts_match_def
    by (cases g) (simp add: decode_pgraph_def PG_MAGIC_def dec_simps numeral_eq_Suc)
qed

section \<open>The self-check of the module\<close>

text \<open>
  \<open>_self_check()\<close>: a two-node graph with one \<open>NEXT\<close> edge, built with the
  builder's keyword defaults, encoded and decoded; the asserts become a Boolean.
\<close>

definition self_check_graph :: Graph where
  "self_check_graph =
     (let gb = GraphBuilder_init 1 (SchemaID_code WRITING) (GraphType_code HETERO) 0 1 None;
          (gb, t1) = add_node gb (NodeType_code TOKEN) 0 123 (0, 1) NF_IS_CAPITALIZED 240 0;
          (gb, t2) = add_node gb (NodeType_code TOKEN) 0 456 (1, 2) 0 255 0;
          (gb, _) = add_edge gb t1 t2 (EdgeType_code NEXT) 255 0 EF_DIRECTED 255 0
      in finalize gb)"

definition self_check :: bool where
  "self_check =
     (case sum_bind (encode_pgraph self_check_graph) decode_pgraph of
        Inl _ \<Rightarrow> False
      | Inr g2 \<Rightarrow> graph_id g2 = graph_id self_check_graph \<and> num_nodes g2 = 2 \<and> num_edges g2 = 1 \<and>
                  label_id (nodes g2 ! 0) = 123 \<and> src_id (edges g2 ! 0) = 0 \<and> dst_id (edges g2 ! 0) = 1)"

lemma self_check_graph_eq:
  "self_check_graph =
     \<lparr>graph_id = 1, graph_type = 5, num_nodes = 2, num_edges = 1, g_features = None, source_id = 0,
      version = 1, schema_id = 1,
      nodes = [\<lparr>node_id = 0, n_type = 1, sub_type = 0, features_ref = 0, span = (0, 1), n_flags = 4,
                n_confidence = 240, label_id = 123\<rparr>,
               \<lparr>node_id = 1, n_type = 1, sub_type = 0, features_ref = 0, span = (1, 2), n_flags = 0,
                n_confidence = 255, label_id = 456\<rparr>],
      edges = [\<lparr>src_id = 0, dst_id = 1, e_type = 9, weight = 255, time = 0, e_flags = 1,
                e_confidence = 255, attr_ref = 0\<rparr>]\<rparr>"
  by (simp add: self_check_graph_def GraphBuilder_init_def add_node_def add_edge_def finalize_def
      node_flag_defs edge_flag_defs)

lemma self_check_graph_ok: "graph_ok self_check_graph"
  by (simp add: self_check_graph_eq graph_ok_def counts_match_def node_ok_def edge_ok_def
      varint_ok_def u8_ok_def u16_ok_def)

section \<open>Properties of the codec\<close>

text \<open>
  C1. For a graph whose fields lie in their declared ranges (counts equal to the list
  lengths, varints non-negative and below \<open>2^70\<close>, bytes below 256, flags below
  \<open>2^16\<close>, a thumbnail absent or non-empty), \<open>encode_pgraph\<close> succeeds and
  \<open>decode_pgraph\<close> returns the same graph field for field, whatever bytes follow
  the encoding in the buffer.
\<close>

theorem pgraph_roundtrip:
  assumes "graph_ok g"
  shows "\<exists>bs. encode_pgraph g = Inr bs \<and> (\<forall>ys. decode_pgraph (bs @ ys) = Inr g)"
  using encode_pgraph_ok [OF assms] decode_pgraph_encoded [OF assms] by blast

theorem pgraph_roundtrip_witness:
  "graph_ok self_check_graph \<and>
   (\<exists>bs. encode_pgraph self_check_graph = Inr bs \<and> decode_pgraph bs = Inr self_check_graph)"
proof -
  obtain bs where "encode_pgraph self_check_graph = Inr bs"
      and "\<forall>ys. decode_pgraph (bs @ ys) = Inr self_check_graph"
    using pgraph_roundtrip [OF self_check_graph_ok] by blast
  then show ?thesis using self_check_graph_ok by (metis append_Nil2)
qed

text \<open>
  C2. Re-encoding a decoded encoding gives the same bytes:
  \<open>encode(decode(encode g)) = encode g\<close> for every graph with in-range fields.
\<close>

theorem pgraph_reencode:
  assumes "graph_ok g" and "encode_pgraph g = Inr bs"
  shows "sum_bind (decode_pgraph bs) encode_pgraph = Inr bs"
  using decode_pgraph_encoded [OF assms, of "[]"] assms(2) by simp

theorem pgraph_reencode_witness:
  "\<exists>bs. encode_pgraph self_check_graph = Inr bs \<and>
        sum_bind (decode_pgraph bs) encode_pgraph = Inr bs"
proof -
  obtain bs where e: "encode_pgraph self_check_graph = Inr bs"
    using encode_pgraph_ok [OF self_check_graph_ok] by blast
  show ?thesis using pgraph_reencode [OF self_check_graph_ok e] e by blast
qed

text \<open>
  C6. An empty thumbnail \<open>b""\<close> is written exactly like an absent one (length 0,
  no bytes), so it decodes as \<open>None\<close>: the roundtrip does not hold field for
  field for \<open>g_features = b""\<close>.
\<close>

theorem pgraph_empty_thumbnail_lost:
  assumes "graph_ok (g\<lparr>g_features := None\<rparr>)"
  shows "encode_pgraph (g\<lparr>g_features := Some []\<rparr>) = encode_pgraph (g\<lparr>g_features := None\<rparr>) \<and>
         (\<exists>bs. encode_pgraph (g\<lparr>g_features := Some []\<rparr>) = Inr bs \<and>
               decode_pgraph bs = Inr (g\<lparr>g_features := None\<rparr>))"
proof -
  have same: "encode_pgraph (g\<lparr>g_features := Some []\<rparr>) = encode_pgraph (g\<lparr>g_features := None\<rparr>)"
    by (simp add: encode_pgraph_def encode_features_def)
  obtain bs where "encode_pgraph (g\<lparr>g_features := None\<rparr>) = Inr bs"
    using encode_pgraph_ok [OF assms] by blast
  moreover have "decode_pgraph (bs @ []) = Inr (g\<lparr>g_features := None\<rparr>)" if "encode_pgraph (g\<lparr>g_features := None\<rparr>) = Inr bs"
    using decode_pgraph_encoded [OF assms that] .
  ultimately show ?thesis using same by auto
qed

theorem pgraph_empty_thumbnail_lost_witness:
  "\<exists>bs. encode_pgraph (self_check_graph\<lparr>g_features := Some []\<rparr>) = Inr bs \<and>
        decode_pgraph bs = Inr self_check_graph"
proof -
  have n: "self_check_graph\<lparr>g_features := None\<rparr> = self_check_graph"
    by (simp add: self_check_graph_eq)
  have "graph_ok (self_check_graph\<lparr>g_features := None\<rparr>)" using self_check_graph_ok n by simp
  from pgraph_empty_thumbnail_lost [OF this]
  have "\<exists>bs. encode_pgraph (self_check_graph\<lparr>g_features := Some []\<rparr>) = Inr bs \<and>
        decode_pgraph bs = Inr (self_check_graph\<lparr>g_features := None\<rparr>)" by blast
  then show ?thesis unfolding n .
qed

text \<open>
  The module's \<open>_self_check\<close> passes: after encoding and decoding the
  two-node graph, the graph id, the counts, the first node's label and the edge's
  endpoints are as built.
\<close>

theorem self_check_passes: "self_check"
proof -
  obtain bs where e: "encode_pgraph self_check_graph = Inr bs"
    using encode_pgraph_ok [OF self_check_graph_ok] by blast
  have "decode_pgraph (bs @ []) = Inr self_check_graph"
    using decode_pgraph_encoded [OF self_check_graph_ok e] .
  with e show ?thesis by (simp add: self_check_def self_check_graph_eq)
qed

end
