(* ===== verification/Tokenizer.thy ===== *)
theory Tokenizer
  imports Graph
begin

text \<open>
  \<open>src/brain/language/tokenizer.py\<close>: \<open>tokenize\<close> scans the text with one master
  regular expression whose alternatives are tried in order (URL, e-mail, handle,
  ellipsis, word, punctuation, whitespace), as \<open>re.finditer\<close> does: at each
  position the first alternative that matches wins and the scan resumes after it;
  a position where none matches is skipped. Each alternative is a matcher that
  returns the length of its match at the head of the remaining text, written from
  its pattern with the backtracking the pattern needs. Whitespace matches are not
  emitted; a trailing unmatched rest becomes one fallback token; a post-pass sets
  the sentence-end flags. \<open>tokens_to_graph\<close> builds the token graph with the
  builder of \<open>Graph\<close>.
\<close>

unbundle bit_operations_syntax

section \<open>Tokens\<close>

record Token =
  tok_idx :: nat
  tok_text :: ustr
  tok_start :: nat
  tok_end :: nat
  tok_flags :: int

definition TF_CAP :: int where "TF_CAP = push_bit 0 1"
definition TF_PUNCT :: int where "TF_PUNCT = push_bit 1 1"
definition TF_NUM :: int where "TF_NUM = push_bit 2 1"
definition TF_SENT_END_STRONG :: int where "TF_SENT_END_STRONG = push_bit 3 1"
definition TF_SENT_END_WEAK :: int where "TF_SENT_END_WEAK = push_bit 4 1"

lemmas token_flag_defs = TF_CAP_def TF_PUNCT_def TF_NUM_def TF_SENT_END_STRONG_def TF_SENT_END_WEAK_def

section \<open>Character classes of the patterns\<close>

text \<open>
  \<open>\s\<close> in a \<open>str\<close> pattern is \<open>Py_UNICODE_ISSPACE\<close>: the ASCII whitespace
  (with the separators U+1C..U+1F) and the Unicode space separators below.
\<close>

definition py_isspace :: "uchar \<Rightarrow> bool" where
  "py_isspace c \<longleftrightarrow> (9 \<le> c \<and> c \<le> 13) \<or> (28 \<le> c \<and> c \<le> 32) \<or> c = 0x85 \<or> c = 0xA0 \<or>
     c = 0x1680 \<or> (0x2000 \<le> c \<and> c \<le> 0x200A) \<or> c = 0x2028 \<or> c = 0x2029 \<or> c = 0x202F \<or>
     c = 0x205F \<or> c = 0x3000"

text \<open>\<open>[A-Za-z0-9._%+\-]\<close> and \<open>[A-Za-z0-9.\-]\<close> of \<open>_EMAIL\<close>.\<close>

definition email_local_char :: "uchar \<Rightarrow> bool" where
  "email_local_char c \<longleftrightarrow> is_ascii_alnum c \<or> c \<in> {46, 95, 37, 43, 45}"

definition email_domain_char :: "uchar \<Rightarrow> bool" where
  "email_domain_char c \<longleftrightarrow> is_ascii_alnum c \<or> c \<in> {46, 45}"

text \<open>\<open>[A-Za-z0-9_]\<close> of \<open>_HANDLE\<close>, \<open>[\<rsquo>'\-]\<close> of \<open>_WORDISH\<close>.\<close>

definition handle_char :: "uchar \<Rightarrow> bool" where
  "handle_char c \<longleftrightarrow> is_ascii_alnum c \<or> c = 95"

definition word_joiner :: "uchar \<Rightarrow> bool" where
  "word_joiner c \<longleftrightarrow> c \<in> {0x2019, 39, 45}"

text \<open>The class of \<open>_PUNCT\<close>: \<open>. , ? ! ; : ( ) [ ] { } " \<ldquo> \<rdquo> \<lsquo> \<rsquo>\<close> em dash, en dash, hyphen.\<close>

definition punct_char :: "uchar \<Rightarrow> bool" where
  "punct_char c \<longleftrightarrow> c \<in> {46, 44, 63, 33, 59, 58, 40, 41, 91, 93, 123, 125, 34,
                         0x201C, 0x201D, 0x2018, 0x2019, 0x2014, 0x2013, 45}"

definition run_len :: "(uchar \<Rightarrow> bool) \<Rightarrow> ustr \<Rightarrow> nat" where
  "run_len P s = length (takeWhile P s)"

section \<open>The alternatives of the master pattern\<close>

text \<open>\<open>prefix\S+\<close>: a literal prefix followed by a maximal non-empty non-space run.\<close>

definition prefix_nonspace :: "ustr \<Rightarrow> ustr \<Rightarrow> nat option" where
  "prefix_nonspace p s =
     (let r = run_len (\<lambda>c. \<not> py_isspace c) (drop (length p) s) in
      if take (length p) s = p \<and> 0 < r then Some (length p + r) else None)"

text \<open>
  \<open>_URL = (?:https?://\S+|www\.\S+)\<close>. The optional \<open>s\<close> is tried first; giving it
  up cannot help, since the \<open>://\<close> would then have to start at the \<open>s\<close>.
\<close>

definition url_match :: "ustr \<Rightarrow> nat option" where
  "url_match s =
     (case prefix_nonspace (ascii ''https://'') s of Some n \<Rightarrow> Some n | None \<Rightarrow>
      case prefix_nonspace (ascii ''http://'') s of Some n \<Rightarrow> Some n | None \<Rightarrow>
      prefix_nonspace (ascii ''www.'') s)"

text \<open>
  The domain part of \<open>_EMAIL\<close>, \<open>[A-Za-z0-9.\-]+\.[A-Za-z]{2,}\<close>, on the maximal
  run \<open>D\<close> of domain characters after the \<open>@\<close>: the greedy \<open>+\<close> gives back one
  character at a time, so the match uses the last \<open>.\<close> at an index \<open>m \<ge> 1\<close> of
  \<open>D\<close> that is followed by at least two ASCII letters, and takes all the letters
  after it. \<open>email_tld D m\<close> tries \<open>m\<close>, \<open>m - 1\<close>, \<dots>, \<open>1\<close>.
\<close>

fun email_tld :: "ustr \<Rightarrow> nat \<Rightarrow> nat option" where
  "email_tld D 0 = None"
| "email_tld D (Suc m) =
     (let r = run_len is_ascii_alpha (drop (Suc m + 1) D) in
      if D ! Suc m = 46 \<and> 2 \<le> r then Some (Suc m + 1 + r) else email_tld D m)"

text \<open>
  \<open>_EMAIL\<close>: the local part is the maximal run of local characters (a shorter one
  is followed by a local character, not \<open>@\<close>).
\<close>

definition email_match :: "ustr \<Rightarrow> nat option" where
  "email_match s =
     (let l = run_len email_local_char s in
      if l = 0 then None else
      (case drop l s of
         [] \<Rightarrow> None
       | c # rest \<Rightarrow>
           if c = 64 then
             (let D = takeWhile email_domain_char rest in
              case email_tld D (length D - 1) of None \<Rightarrow> None | Some d \<Rightarrow> Some (l + 1 + d))
           else None))"

text \<open>\<open>_HANDLE = [@#][A-Za-z0-9_]+\<close>.\<close>

definition handle_match :: "ustr \<Rightarrow> nat option" where
  "handle_match s =
     (case s of
        [] \<Rightarrow> None
      | c # rest \<Rightarrow> (let r = run_len handle_char rest in
                    if c \<in> {64, 35} \<and> 0 < r then Some (1 + r) else None))"

text \<open>\<open>_ELLIPSIS = (?:\u2026|\.{3})\<close>.\<close>

definition ellipsis_match :: "ustr \<Rightarrow> nat option" where
  "ellipsis_match s =
     (if take 1 s = [0x2026] then Some 1 else if take 3 s = [46, 46, 46] then Some 3 else None)"

text \<open>
  \<open>_WORDISH = [A-Za-z0-9]+(?:[\<rsquo>'\-][A-Za-z0-9]+)*\<close>: a maximal alphanumeric run,
  then as many joiner-plus-run groups as follow; nothing after the pattern forces
  the greedy loops to give anything back.
\<close>

function word_tail :: "ustr \<Rightarrow> nat" where
  "word_tail s =
     (case s of
        [] \<Rightarrow> 0
      | j # rest \<Rightarrow> (let r = run_len is_ascii_alnum rest in
                    if word_joiner j \<and> 0 < r then 1 + r + word_tail (drop r rest) else 0))"
  by pat_completeness auto
termination
  by (relation "measure length") auto

declare word_tail.simps [simp del]

definition word_match :: "ustr \<Rightarrow> nat option" where
  "word_match s =
     (let a = run_len is_ascii_alnum s in if a = 0 then None else Some (a + word_tail (drop a s)))"

definition punct_match :: "ustr \<Rightarrow> nat option" where
  "punct_match s = (case s of [] \<Rightarrow> None | c # _ \<Rightarrow> if punct_char c then Some 1 else None)"

definition ws_match :: "ustr \<Rightarrow> nat option" where
  "ws_match s = (let r = run_len py_isspace s in if 0 < r then Some r else None)"

datatype tok_kind = K_URL | K_EMAIL | K_HANDLE | K_ELLIPSIS | K_WORD | K_PUNCT | K_WS

text \<open>\<open>_MASTER\<close>: the named groups in their order; the first that matches wins.\<close>

fun first_match :: "(tok_kind \<times> (ustr \<Rightarrow> nat option)) list \<Rightarrow> ustr \<Rightarrow> (tok_kind \<times> nat) option" where
  "first_match [] s = None"
| "first_match ((k, m) # alts) s = (case m s of Some n \<Rightarrow> Some (k, n) | None \<Rightarrow> first_match alts s)"

definition master_match :: "ustr \<Rightarrow> (tok_kind \<times> nat) option" where
  "master_match = first_match
     [(K_URL, url_match), (K_EMAIL, email_match), (K_HANDLE, handle_match),
      (K_ELLIPSIS, ellipsis_match), (K_WORD, word_match), (K_PUNCT, punct_match), (K_WS, ws_match)]"

section \<open>Every match is non-empty\<close>

lemma prefix_nonspace_pos: "prefix_nonspace p s = Some n \<Longrightarrow> 0 < n"
  by (auto simp: prefix_nonspace_def Let_def split: if_splits)

lemma email_tld_pos: "email_tld D m = Some n \<Longrightarrow> 0 < n"
  by (induction D m rule: email_tld.induct) (auto simp: Let_def split: if_splits)

lemma master_match_pos: "master_match s = Some (k, n) \<Longrightarrow> 0 < n"
  by (auto simp: master_match_def url_match_def email_match_def handle_match_def ellipsis_match_def
      word_match_def punct_match_def ws_match_def Let_def prefix_nonspace_pos
      split: option.splits if_splits list.splits)

section \<open>The scan\<close>

text \<open>
  \<open>re.finditer\<close>: the matches as \<open>(kind, start, end)\<close> in text order; a position
  where no alternative matches is skipped.
\<close>

function scan :: "ustr \<Rightarrow> nat \<Rightarrow> (tok_kind \<times> nat \<times> nat) list" where
  "scan [] p = []"
| "scan (c # cs) p =
     (case master_match (c # cs) of
        Some (k, n) \<Rightarrow> (k, p, p + n) # scan (drop n (c # cs)) (p + n)
      | None \<Rightarrow> scan cs (p + 1))"
  by pat_completeness auto
termination
  by (relation "measure (\<lambda>(s, p). length s)") (auto dest: master_match_pos)

section \<open>Building the token list\<close>

text \<open>The flags \<open>tokenize\<close> sets on a matched piece, in the order of the source.\<close>

definition piece_flags :: "ucd \<Rightarrow> tok_kind \<Rightarrow> ustr \<Rightarrow> int" where
  "piece_flags U kind piece =
     (let f = (0::int);
          f = (if kind \<in> {K_PUNCT, K_ELLIPSIS} then f OR TF_PUNCT else f);
          f = (if kind = K_WORD then
                 (let f = (if list_ex (u_isdigit U) piece then f OR TF_NUM else f) in
                  if list_ex (u_isalpha U) piece \<and> u_isupper U (hd piece) then f OR TF_CAP else f)
               else f);
          f = (if kind \<in> {K_URL, K_EMAIL, K_HANDLE} \<and> list_ex (u_isdigit U) piece then f OR TF_NUM else f)
      in f)"

text \<open>
  The \<open>for m in _MASTER.finditer(text)\<close> loop: whitespace only moves \<open>i\<close>; every
  other match becomes the token \<open>text[s:e]\<close> with the next index. The result is
  the tokens, their kinds and the final \<open>i\<close>.
\<close>

fun build_tokens ::
  "ucd \<Rightarrow> ustr \<Rightarrow> (tok_kind \<times> nat \<times> nat) list \<Rightarrow> nat \<Rightarrow> nat \<Rightarrow> Token list \<times> tok_kind list \<times> nat" where
  "build_tokens U text [] idx i = ([], [], i)"
| "build_tokens U text ((kind, s, e) # ms) idx i =
     (if kind = K_WS then build_tokens U text ms idx e
      else
        (let piece = take (e - s) (drop s text);
             t = \<lparr>tok_idx = idx, tok_text = piece, tok_start = s, tok_end = e,
                  tok_flags = piece_flags U kind piece\<rparr>;
             (ts, ks, i') = build_tokens U text ms (idx + 1) e
         in (t # ts, kind # ks, i')))"

text \<open>The fallback: an unmatched rest after the last match becomes one token.\<close>

definition fallback_token :: "ucd \<Rightarrow> ustr \<Rightarrow> nat \<Rightarrow> nat \<Rightarrow> Token list \<times> tok_kind list" where
  "fallback_token U text idx i =
     (if i < length text then
        (let piece = drop i text;
             f = (if list_ex (u_isdigit U) piece then TF_NUM else 0);
             f = (if piece \<noteq> [] \<and> list_ex (u_isalpha U) piece \<and> u_isupper U (hd piece) then f OR TF_CAP else f)
         in ([\<lparr>tok_idx = idx, tok_text = piece, tok_start = i, tok_end = length text, tok_flags = f\<rparr>], [K_WORD]))
      else ([], []))"

section \<open>Sentence-end cues\<close>

definition TERMINATORS_STRONG :: "ustr list" where
  "TERMINATORS_STRONG = [[46], [63], [33]]"

definition TERMINATORS_WEAK :: "ustr list" where
  "TERMINATORS_WEAK = [[0x2026], [46, 46, 46]]"

text \<open>\<open>_CLOSERS\<close>: \<open>" \<rdquo> \<rsquo> ' ) ] }\<close> and the right guillemet U+BB.\<close>

definition CLOSERS :: "ustr list" where
  "CLOSERS = [[34], [0x201D], [0x2019], [39], [41], [93], [125], [0xBB]]"

definition set_flag :: "int \<Rightarrow> Token \<Rightarrow> Token" where
  "set_flag fl t = t\<lparr>tok_flags := tok_flags t OR fl\<rparr>"

text \<open>The inner \<open>while j < n and tokens[j].text in _CLOSERS\<close> loop.\<close>

function bubble_weak :: "Token list \<Rightarrow> nat \<Rightarrow> Token list" where
  "bubble_weak ts j =
     (if j < length ts \<and> tok_text (ts ! j) \<in> set CLOSERS
      then bubble_weak (ts[j := set_flag TF_SENT_END_WEAK (ts ! j)]) (j + 1)
      else ts)"
  by pat_completeness auto
termination
  by (relation "measure (\<lambda>(ts, j). length ts - j)") auto

declare bubble_weak.simps [simp del]

text \<open>One iteration \<open>k\<close> of the post-pass \<open>for k in range(n)\<close>.\<close>

definition cue_step :: "tok_kind list \<Rightarrow> Token list \<Rightarrow> nat \<Rightarrow> Token list" where
  "cue_step kinds ts k =
     (if kinds ! k \<in> {K_PUNCT, K_ELLIPSIS} then
        (if tok_text (ts ! k) \<in> set TERMINATORS_STRONG
         then bubble_weak (ts[k := set_flag TF_SENT_END_STRONG (ts ! k)]) (k + 1)
         else if tok_text (ts ! k) \<in> set TERMINATORS_WEAK
         then ts[k := set_flag TF_SENT_END_WEAK (ts ! k)]
         else ts)
      else ts)"

definition sentence_cues :: "Token list \<Rightarrow> tok_kind list \<Rightarrow> Token list" where
  "sentence_cues ts kinds = fold (\<lambda>k ts. cue_step kinds ts k) [0..<length ts] ts"

section \<open>tokenize\<close>

definition tokenize :: "ucd \<Rightarrow> ustr \<Rightarrow> Token list" where
  "tokenize U text =
     (let (ts, ks, i) = build_tokens U text (scan text 0) 0 0;
          (fts, fks) = fallback_token U text (length ts) i
      in sentence_cues (ts @ fts) (ks @ fks))"

section \<open>The token graph\<close>

text \<open>The node flags \<open>tokens_to_graph\<close> derives from a token's flags.\<close>

definition token_node_flags :: "int \<Rightarrow> int" where
  "token_node_flags tf =
     (let nf = (0::int);
          nf = (if tf AND TF_PUNCT \<noteq> 0 then nf OR NF_IS_PUNCT else nf);
          nf = (if tf AND TF_CAP \<noteq> 0 then nf OR NF_IS_CAPITALIZED else nf);
          nf = (if tf AND TF_SENT_END_STRONG \<noteq> 0 then nf OR NF_SENT_END_STRONG else nf);
          nf = (if tf AND TF_SENT_END_WEAK \<noteq> 0 then nf OR NF_SENT_END_WEAK else nf)
      in nf)"

text \<open>The \<open>for t in toks\<close> loop: one \<open>TOKEN\<close> node per token, collecting the ids.\<close>

fun add_token_nodes :: "GraphBuilder \<Rightarrow> Token list \<Rightarrow> GraphBuilder \<times> int list" where
  "add_token_nodes gb [] = (gb, [])"
| "add_token_nodes gb (t # ts) =
     (let (gb1, nid) = add_node gb (NodeType_code TOKEN) 0 0 (int (tok_start t), int (tok_end t))
                         (token_node_flags (tok_flags t)) 255 0;
          (gb2, ids) = add_token_nodes gb1 ts
      in (gb2, nid # ids))"

text \<open>The \<open>for a, b in zip(node_ids, node_ids[1:])\<close> loop, with \<open>add_edge\<close>'s defaults.\<close>

fun add_next_edges :: "GraphBuilder \<Rightarrow> (int \<times> int) list \<Rightarrow> GraphBuilder" where
  "add_next_edges gb [] = gb"
| "add_next_edges gb ((a, b) # ps) =
     add_next_edges (fst (add_edge gb a b (EdgeType_code NEXT) 255 0 EF_DIRECTED 255 0)) ps"

definition tokens_to_graph :: "ucd \<Rightarrow> ustr \<Rightarrow> int \<Rightarrow> int \<Rightarrow> int \<Rightarrow> Graph" where
  "tokens_to_graph U text gid src ver =
     (let toks = tokenize U text;
          gb = GraphBuilder_init gid (SchemaID_code WRITING) (GraphType_code HETERO) src ver None;
          (gb, node_ids) = add_token_nodes gb toks;
          gb = add_next_edges gb (zip node_ids (drop 1 node_ids))
      in finalize gb)"

section \<open>Specifications\<close>

definition strong_at :: "Token list \<Rightarrow> tok_kind list \<Rightarrow> nat \<Rightarrow> bool" where
  "strong_at ts ks k \<longleftrightarrow> ks ! k \<in> {K_PUNCT, K_ELLIPSIS} \<and> tok_text (ts ! k) \<in> set TERMINATORS_STRONG"

definition weak_term_at :: "Token list \<Rightarrow> tok_kind list \<Rightarrow> nat \<Rightarrow> bool" where
  "weak_term_at ts ks k \<longleftrightarrow> ks ! k \<in> {K_PUNCT, K_ELLIPSIS} \<and> tok_text (ts ! k) \<in> set TERMINATORS_WEAK"

definition closes_after :: "Token list \<Rightarrow> nat \<Rightarrow> nat \<Rightarrow> bool" where
  "closes_after ts i k \<longleftrightarrow> i < k \<and> list_all (\<lambda>l. tok_text (ts ! l) \<in> set CLOSERS) [Suc i..<Suc k]"

definition cue_tok :: "Token list \<Rightarrow> tok_kind list \<Rightarrow> nat \<Rightarrow> nat \<Rightarrow> Token" where
  "cue_tok ts ks m k =
     (let t = ts ! k;
          t = (if k < m \<and> strong_at ts ks k then set_flag TF_SENT_END_STRONG t else t)
      in if (k < m \<and> weak_term_at ts ks k) \<or>
            list_ex (\<lambda>i. strong_at ts ks i \<and> closes_after ts i k) [0..<min k m]
         then set_flag TF_SENT_END_WEAK t else t)"

definition cue_upto :: "Token list \<Rightarrow> tok_kind list \<Rightarrow> nat \<Rightarrow> Token list" where
  "cue_upto ts ks m = map (cue_tok ts ks m) [0..<length ts]"

definition cue_spec :: "Token list \<Rightarrow> tok_kind list \<Rightarrow> Token list" where
  "cue_spec ts ks =
     map (\<lambda>k. let t = ts ! k;
                 t = (if strong_at ts ks k then set_flag TF_SENT_END_STRONG t else t)
             in if weak_term_at ts ks k \<or> list_ex (\<lambda>i. strong_at ts ks i \<and> closes_after ts i k) [0..<k]
                then set_flag TF_SENT_END_WEAK t else t)
       [0..<length ts]"

definition spans_sorted :: "(tok_kind \<times> nat \<times> nat) list \<Rightarrow> bool" where
  "spans_sorted ms \<longleftrightarrow> sorted_wrt (\<lambda>m1 m2. snd (snd m1) \<le> fst (snd m2)) ms"

definition token_ok :: "ustr \<Rightarrow> Token \<Rightarrow> bool" where
  "token_ok text t \<longleftrightarrow> tok_start t < tok_end t \<and> tok_end t \<le> length text \<and>
     tok_text t = take (tok_end t - tok_start t) (drop (tok_start t) text)"

definition tokens_sorted :: "Token list \<Rightarrow> bool" where
  "tokens_sorted ts \<longleftrightarrow> sorted_wrt (\<lambda>t u. tok_end t \<le> tok_start u) ts"

definition mk_token :: "ucd \<Rightarrow> ustr \<Rightarrow> nat \<Rightarrow> tok_kind \<times> nat \<times> nat \<Rightarrow> Token" where
  "mk_token U text j m = (case m of (k, s, e) \<Rightarrow>
     \<lparr>tok_idx = j, tok_text = take (e - s) (drop s text), tok_start = s, tok_end = e,
      tok_flags = piece_flags U k (take (e - s) (drop s text))\<rparr>)"

definition non_ws :: "(tok_kind \<times> nat \<times> nat) list \<Rightarrow> (tok_kind \<times> nat \<times> nat) list" where
  "non_ws ms = filter (\<lambda>m. fst m \<noteq> K_WS) ms"

definition token_node :: "nat \<Rightarrow> Token \<Rightarrow> Node" where
  "token_node j t = \<lparr>node_id = int j, n_type = NodeType_code TOKEN, sub_type = 0, features_ref = 0,
     span = (int (tok_start t), int (tok_end t)), n_flags = token_node_flags (tok_flags t),
     n_confidence = 255, label_id = 0\<rparr>"

definition next_edge :: "int \<times> int \<Rightarrow> Edge" where
  "next_edge p = \<lparr>src_id = fst p, dst_id = snd p, e_type = EdgeType_code NEXT, weight = 255, time = 0,
     e_flags = EF_DIRECTED, e_confidence = 255, attr_ref = 0\<rparr>"

section \<open>Lemmas\<close>

lemma set_flag_text [simp]: "tok_text (set_flag f t) = tok_text t"
  by (simp add: set_flag_def)

lemma set_flag_commute: "set_flag a (set_flag b t) = set_flag b (set_flag a t)"
  by (simp add: set_flag_def or.assoc or.commute or.left_commute)

lemma set_flag_idem [simp]: "set_flag a (set_flag a t) = set_flag a t"
  by (simp add: set_flag_def or.assoc)

lemma bubble_weak_length [simp]: "length (bubble_weak ts j) = length ts"
  by (induction ts j rule: bubble_weak.induct) (subst bubble_weak.simps; simp)

lemma bubble_weak_nth:
  "k < length ts \<Longrightarrow> bubble_weak ts j ! k =
     (if j \<le> k \<and> (\<forall>l. j \<le> l \<and> l \<le> k \<longrightarrow> tok_text (ts ! l) \<in> set CLOSERS)
      then set_flag TF_SENT_END_WEAK (ts ! k) else ts ! k)"
proof (induction ts j rule: bubble_weak.induct)
  case (1 ts j)
  show ?case
  proof (cases "j < length ts \<and> tok_text (ts ! j) \<in> set CLOSERS")
    case True
    then have "bubble_weak ts j = bubble_weak (ts[j := set_flag TF_SENT_END_WEAK (ts ! j)]) (j + 1)"
      by (subst bubble_weak.simps) simp
    with 1 True show ?thesis
      apply (auto simp: nth_list_update)
      apply (metis le_antisym not_less_eq_eq)+
      done
  next
    case False
    then have "bubble_weak ts j = ts"
      by (subst bubble_weak.simps) (simp only: if_False if_not_P [OF False])
    with False 1(2) show ?thesis
      by (auto simp: not_less)
  qed
qed

lemma terminators_disjoint:
  "tok_text t \<in> set TERMINATORS_STRONG \<Longrightarrow> tok_text t \<notin> set TERMINATORS_WEAK"
  "tok_text t \<in> set TERMINATORS_STRONG \<Longrightarrow> tok_text t \<notin> set CLOSERS"
  by (auto simp: TERMINATORS_STRONG_def TERMINATORS_WEAK_def CLOSERS_def)

lemma cue_tok_text [simp]: "tok_text (cue_tok ts ks m k) = tok_text (ts ! k)"
  by (simp add: cue_tok_def Let_def)

lemma cue_upto_0: "cue_upto ts ks 0 = ts"
  by (rule nth_equalityI) (simp_all add: cue_upto_def cue_tok_def)

lemma cue_step_nth:
  assumes "k < length ts" "m < length ts"
  shows "cue_step ks ts m ! k =
    (let t = ts ! k;
         t = (if k = m \<and> strong_at ts ks m then set_flag TF_SENT_END_STRONG t else t)
     in if (k = m \<and> weak_term_at ts ks m) \<or> (strong_at ts ks m \<and> closes_after ts m k)
        then set_flag TF_SENT_END_WEAK t else t)"
proof (cases "strong_at ts ks m")
  case True
  then have "cue_step ks ts m = bubble_weak (ts[m := set_flag TF_SENT_END_STRONG (ts ! m)]) (m + 1)"
    by (simp add: cue_step_def strong_at_def)
  with True assms show ?thesis
    by (auto simp: bubble_weak_nth nth_list_update closes_after_def list_all_iff weak_term_at_def
        strong_at_def terminators_disjoint Let_def)
next
  case False
  then show ?thesis
    using assms by (auto simp: cue_step_def strong_at_def weak_term_at_def closes_after_def Let_def)
qed

lemma cue_step_length [simp]: "length (cue_step ks ts m) = length ts"
  by (simp add: cue_step_def)

lemma cue_upto_nth [simp]: "k < length ts \<Longrightarrow> cue_upto ts ks m ! k = cue_tok ts ks m k"
  by (simp add: cue_upto_def)

lemma cue_upto_length [simp]: "length (cue_upto ts ks m) = length ts"
  by (simp add: cue_upto_def)

lemma cue_upto_preds [simp]:
  "k < length ts \<Longrightarrow> strong_at (cue_upto ts ks m) ks k = strong_at ts ks k"
  "k < length ts \<Longrightarrow> weak_term_at (cue_upto ts ks m) ks k = weak_term_at ts ks k"
  "k < length ts \<Longrightarrow> closes_after (cue_upto ts ks m) i k = closes_after ts i k"
  by (auto simp: strong_at_def weak_term_at_def closes_after_def list_all_iff)

lemma list_ex_upt_min_Suc:
  "list_ex P [0..<min k (Suc m)] \<longleftrightarrow> list_ex P [0..<min k m] \<or> (m < k \<and> P m)"
proof (cases "m < k")
  case True
  then have "min k (Suc m) = Suc m" "min k m = m" by simp_all
  then show ?thesis using True by simp
next
  case False
  then show ?thesis by (simp add: min_def)
qed

lemma closes_after_irrefl [simp]: "\<not> closes_after ts i i"
  by (simp add: closes_after_def)

lemma cue_upto_step:
  assumes m: "m < length ts"
  shows "cue_step ks (cue_upto ts ks m) m = cue_upto ts ks (Suc m)"
proof (rule nth_equalityI)
  fix k assume "k < length (cue_step ks (cue_upto ts ks m) m)"
  then have k: "k < length ts" by simp
  let ?old = "list_ex (\<lambda>i. strong_at ts ks i \<and> closes_after ts i k) [0..<min k m]"
  have lhs: "cue_step ks (cue_upto ts ks m) m ! k =
    (let t = cue_tok ts ks m k;
         t = (if k = m \<and> strong_at ts ks m then set_flag TF_SENT_END_STRONG t else t)
     in if (k = m \<and> weak_term_at ts ks m) \<or> (strong_at ts ks m \<and> closes_after ts m k)
        then set_flag TF_SENT_END_WEAK t else t)"
    using k m by (simp add: cue_step_nth)
  consider "k < m" | "k = m" | "m < k" by linarith
  then show "cue_step ks (cue_upto ts ks m) m ! k = cue_upto ts ks (Suc m) ! k"
  proof cases
    case 1
    then show ?thesis using k by (simp add: lhs cue_tok_def Let_def closes_after_def)
  next
    case 2
    show ?thesis unfolding lhs using 2 k
      by (auto simp: cue_tok_def Let_def set_flag_commute)
  next
    case 3
    then have "min k (Suc m) = Suc m" "min k m = m" by simp_all
    with 3 show ?thesis using k
      by (auto simp: lhs cue_tok_def Let_def)
  qed
qed simp

lemma fold_cue_step:
  "m \<le> length ts \<Longrightarrow> fold (\<lambda>k ts'. cue_step ks ts' k) [0..<m] ts = cue_upto ts ks m"
  by (induction m) (simp_all add: cue_upto_0 cue_upto_step)

lemma sentence_cues_upto: "sentence_cues ts ks = cue_upto ts ks (length ts)"
  by (simp add: sentence_cues_def fold_cue_step)

lemma cue_tok_shape [simp]:
  "tok_idx (cue_tok ts ks m k) = tok_idx (ts ! k)"
  "tok_start (cue_tok ts ks m k) = tok_start (ts ! k)"
  "tok_end (cue_tok ts ks m k) = tok_end (ts ! k)"
  by (simp_all add: cue_tok_def Let_def set_flag_def)

lemma sentence_cues_shape:
  "map (\<lambda>t. (tok_idx t, tok_text t, tok_start t, tok_end t)) (sentence_cues ts ks) =
   map (\<lambda>t. (tok_idx t, tok_text t, tok_start t, tok_end t)) ts"
  by (rule nth_equalityI) (simp_all add: sentence_cues_upto)

lemma run_len_le [simp]: "run_len P s \<le> length s"
  by (simp add: run_len_def length_takeWhile_le)

lemma prefix_nonspace_le: "prefix_nonspace p s = Some n \<Longrightarrow> n \<le> length s"
  by (auto simp: prefix_nonspace_def Let_def split: if_splits)
     (metis add_le_cancel_left le_add_diff_inverse length_drop length_take min.absorb_iff2
       nat_le_linear run_len_le take_all)

lemma email_tld_le: "email_tld D m = Some n \<Longrightarrow> m < length D \<Longrightarrow> n \<le> length D"
proof (induction D m rule: email_tld.induct)
  case (2 D m)
  then show ?case
    using run_len_le [of is_ascii_alpha "drop (Suc m + 1) D"]
    by (auto simp: Let_def split: if_splits)
qed simp

lemma word_tail_le: "word_tail s \<le> length s"
proof (induction s rule: word_tail.induct)
  case (1 s)
  show ?case
  proof (cases s)
    case (Cons j rest)
    then show ?thesis
      using 1 [OF Cons] run_len_le [of is_ascii_alnum rest]
      by (subst word_tail.simps) (auto simp: Let_def le_diff_conv2)
  qed (simp add: word_tail.simps)
qed

lemma url_match_le: "url_match s = Some n \<Longrightarrow> n \<le> length s"
  by (auto simp: url_match_def dest: prefix_nonspace_le split: option.splits)

lemma handle_match_le: "handle_match s = Some n \<Longrightarrow> n \<le> length s"
  using run_len_le [of handle_char "tl s"]
  by (auto simp: handle_match_def Let_def split: list.splits if_splits)

lemma take_prefix_le: "take n s = p \<Longrightarrow> length p = n \<Longrightarrow> n \<le> length s"
  by (metis length_take min.absorb_iff1 nat_le_linear)

lemma ellipsis_match_le: "ellipsis_match s = Some n \<Longrightarrow> n \<le> length s"
  by (auto simp: ellipsis_match_def split: if_splits dest!: take_prefix_le)

lemma email_match_le: "email_match s = Some n \<Longrightarrow> n \<le> length s"
proof -
  assume m: "email_match s = Some n"
  define l where "l = run_len email_local_char s"
  obtain c rest where cr: "drop l s = c # rest"
    using m by (auto simp: email_match_def Let_def l_def split: if_splits list.splits)
  define D where "D = takeWhile email_domain_char rest"
  obtain d where d: "email_tld D (length D - 1) = Some d" "n = l + 1 + d"
    using m cr by (auto simp: email_match_def Let_def l_def D_def split: if_splits option.splits)
  have "length D \<le> length rest" by (simp add: D_def length_takeWhile_le)
  moreover have "l + 1 + length rest = length s"
    using arg_cong [OF cr, of length] by simp
  moreover have "d \<le> length D"
    using d(1) email_tld_le [of D "length D - 1" d] by (cases D) auto
  ultimately show ?thesis using d(2) by linarith
qed

lemma word_match_le: "word_match s = Some n \<Longrightarrow> n \<le> length s"
  using word_tail_le [of "drop (run_len is_ascii_alnum s) s"] run_len_le [of is_ascii_alnum s]
  by (auto simp: word_match_def Let_def le_diff_conv2 split: if_splits)

lemma punct_match_le: "punct_match s = Some n \<Longrightarrow> n \<le> length s"
  by (auto simp: punct_match_def split: list.splits if_splits)

lemma ws_match_le: "ws_match s = Some n \<Longrightarrow> n \<le> length s"
  by (auto simp: ws_match_def Let_def split: if_splits)

lemma master_match_le: "master_match s = Some (k, n) \<Longrightarrow> n \<le> length s"
  by (auto simp: master_match_def split: option.splits
      dest: url_match_le email_match_le handle_match_le ellipsis_match_le word_match_le
        punct_match_le ws_match_le)

lemma scan_bounds:
  "(k, s, e) \<in> set (scan str p) \<Longrightarrow> p \<le> s \<and> s < e \<and> e \<le> p + length str"
proof (induction str p rule: scan.induct)
  case (2 c cs p)
  show ?case
  proof (cases "master_match (c # cs)")
    case None
    with 2 show ?thesis by simp
  next
    case (Some a)
    obtain k' n where a: "a = (k', n)" by fastforce
    have n: "0 < n" "n \<le> Suc (length cs)"
      using master_match_pos master_match_le Some a by fastforce+
    have IH: "(k, s, e) \<in> set (scan (drop n (c # cs)) (p + n)) \<Longrightarrow>
        p + n \<le> s \<and> s < e \<and> e \<le> p + n + length (drop n (c # cs))"
      using 2(2) [OF Some a [symmetric]] .
    from 2(3) Some a n IH show ?thesis by auto
  qed
qed simp

lemma scan_sorted: "spans_sorted (scan str p)"
proof (induction str p rule: scan.induct)
  case (2 c cs p)
  show ?case
  proof (cases "master_match (c # cs)")
    case None
    with 2 show ?thesis by simp
  next
    case (Some a)
    obtain k' n where a: "a = (k', n)" by fastforce
    have "spans_sorted (scan (drop n (c # cs)) (p + n))"
      using 2(2) [OF Some a [symmetric]] .
    with Some a show ?thesis
      by (auto simp: spans_sorted_def dest: scan_bounds)
  qed
qed (simp add: spans_sorted_def)

lemma build_tokens_eq:
  "build_tokens U text ms idx i =
     (map2 (mk_token U text) [idx..<idx + length (non_ws ms)] (non_ws ms), map fst (non_ws ms),
      last (i # map (\<lambda>m. snd (snd m)) ms))"
proof (induction ms arbitrary: idx i)
  case (Cons m ms)
  obtain k s e where m: "m = (k, s, e)" by (cases m) auto
  show ?case
  proof (cases "k = K_WS")
    case True
    then show ?thesis using Cons [of idx e] m by (simp add: non_ws_def)
  next
    case False
    have "[idx..<idx + length (non_ws (m # ms))] = idx # [Suc idx..<Suc idx + length (non_ws ms)]"
      using False m by (simp add: non_ws_def upt_rec)
    then show ?thesis using Cons [of "Suc idx" e] m False
      by (simp add: non_ws_def mk_token_def Let_def)
  qed
qed (simp add: non_ws_def)

lemma spans_sorted_non_ws: "spans_sorted ms \<Longrightarrow> spans_sorted (non_ws ms)"
  by (simp add: spans_sorted_def non_ws_def sorted_wrt_filter)

lemma map2_upt_nth: "map2 f [i..<i + length xs] xs = map (\<lambda>j. f (i + j) (xs ! j)) [0..<length xs]"
  by (rule nth_equalityI) simp_all

lemma mk_token_sel [simp]:
  "tok_idx (mk_token U text j m) = j"
  "tok_start (mk_token U text j m) = fst (snd m)"
  "tok_end (mk_token U text j m) = snd (snd m)"
  "tok_text (mk_token U text j m) = take (snd (snd m) - fst (snd m)) (drop (fst (snd m)) text)"
  by (simp_all add: mk_token_def split: prod.splits)

lemma map2_upt0_nth: "map2 f [0..<length xs] xs = map (\<lambda>j. f j (xs ! j)) [0..<length xs]"
  using map2_upt_nth [of f 0 xs] by simp

lemma tokens_sorted_mk:
  assumes "spans_sorted xs"
  shows "tokens_sorted (map2 (mk_token U text) [i..<i + length xs] xs)"
  using assms
  by (simp add: map2_upt_nth tokens_sorted_def spans_sorted_def sorted_wrt_iff_nth_less)

lemma mk_token_ok:
  "fst (snd m) < snd (snd m) \<Longrightarrow> snd (snd m) \<le> length text \<Longrightarrow> token_ok text (mk_token U text j m)"
  by (simp add: token_ok_def)

lemma last_end_ge:
  "spans_sorted ms \<Longrightarrow> \<forall>m \<in> set ms. fst (snd m) < snd (snd m) \<Longrightarrow> m \<in> set ms \<Longrightarrow>
   snd (snd m) \<le> last (x # map (\<lambda>m. snd (snd m)) ms)"
proof (induction ms arbitrary: x m)
  case (Cons a ms)
  show ?case
  proof (cases ms)
    case Nil
    with Cons show ?thesis by simp
  next
    case (Cons b ms')
    have IH: "m' \<in> set ms \<Longrightarrow> snd (snd m') \<le> last (x # map (\<lambda>m. snd (snd m)) (a # ms))" for m'
      using Cons.IH [of m'] Cons.prems \<open>ms = b # ms'\<close> by (simp add: spans_sorted_def)
    have "snd (snd a) \<le> fst (snd b)" "fst (snd b) < snd (snd b)"
      using Cons.prems \<open>ms = b # ms'\<close> by (auto simp: spans_sorted_def)
    with IH [of b] have "snd (snd a) \<le> last (x # map (\<lambda>m. snd (snd m)) (a # ms))"
      using \<open>ms = b # ms'\<close> by simp
    moreover from Cons.prems(3) have "m = a \<or> m \<in> set ms" by simp
    ultimately show ?thesis using IH [of m] by blast
  qed
qed simp

lemma scan_spans_ok:
  "m \<in> set (scan text 0) \<Longrightarrow> fst (snd m) < snd (snd m) \<and> snd (snd m) \<le> length text"
  using scan_bounds [of "fst m" "fst (snd m)" "snd (snd m)" "text" 0] by simp

lemma non_ws_subset: "set (non_ws ms) \<subseteq> set ms"
  by (auto simp: non_ws_def)

lemma fallback_token_ok:
  assumes "fallback_token U text idx i = (fts, fks)"
  shows "map tok_idx fts = [idx..<idx + length fts] \<and> list_all (token_ok text) fts \<and>
         (\<forall>t \<in> set fts. tok_start t = i) \<and> length fks = length fts"
  using assms by (auto simp: fallback_token_def token_ok_def Let_def split: if_splits)

lemma tokens_sorted_append:
  "tokens_sorted (xs @ ys) \<longleftrightarrow> tokens_sorted xs \<and> tokens_sorted ys \<and>
     (\<forall>t \<in> set xs. \<forall>u \<in> set ys. tok_end t \<le> tok_start u)"
  by (simp add: tokens_sorted_def sorted_wrt_append)

lemma tokens_before_cues:
  fixes U :: ucd and inp :: ustr
  defines "ms \<equiv> scan inp 0"
  defines "ts \<equiv> map2 (mk_token U inp) [0..<length (non_ws ms)] (non_ws ms)"
  assumes fb: "fallback_token U inp (length ts) (last (0 # map (\<lambda>m. snd (snd m)) ms)) = (fts, fks)"
  shows "map tok_idx (ts @ fts) = [0..<length (ts @ fts)] \<and> list_all (token_ok inp) (ts @ fts) \<and>
         tokens_sorted (ts @ fts)"
proof -
  let ?i = "last (0 # map (\<lambda>m. snd (snd m)) ms)"
  have ok: "\<forall>m \<in> set ms. fst (snd m) < snd (snd m) \<and> snd (snd m) \<le> length inp"
    using scan_spans_ok ms_def by blast
  have srt: "spans_sorted ms" by (simp add: ms_def scan_sorted)
  have F: "map tok_idx fts = [length ts..<length ts + length fts]" "list_all (token_ok inp) fts"
      "\<forall>t \<in> set fts. tok_start t = ?i"
    using fallback_token_ok [OF fb] by simp_all
  have idx: "map tok_idx ts = [0..<length ts]"
    by (rule nth_equalityI) (simp_all add: ts_def map2_upt0_nth)
  have mem: "\<exists>j m. m \<in> set ms \<and> t = mk_token U inp j m" if "t \<in> set ts" for t
    using that non_ws_subset [of ms] by (auto simp: ts_def dest!: set_zip_rightD) blast
  have tok: "list_all (token_ok inp) ts"
    unfolding list_all_iff using mem ok mk_token_ok by metis
  have ends: "\<forall>t \<in> set ts. tok_end t \<le> ?i"
    using mem last_end_ge [OF srt] ok by fastforce
  have "tokens_sorted ts"
    using tokens_sorted_mk [OF spans_sorted_non_ws [OF srt], of U inp 0] by (simp add: ts_def)
  moreover have "tokens_sorted fts"
    using fb by (auto simp: fallback_token_def tokens_sorted_def Let_def split: if_splits)
  ultimately show ?thesis
    using F idx tok ends by (simp add: tokens_sorted_append upt_add_eq_append [of 0 "length ts"])
qed

lemma sentence_cues_length [simp]: "length (sentence_cues ts ks) = length ts"
  by (simp add: sentence_cues_upto)

lemma shape_transfer:
  assumes "map (\<lambda>t. (tok_idx t, tok_text t, tok_start t, tok_end t)) xs =
           map (\<lambda>t. (tok_idx t, tok_text t, tok_start t, tok_end t)) ys"
  shows "map tok_idx xs = map tok_idx ys" "list_all (token_ok s) xs = list_all (token_ok s) ys"
    "tokens_sorted xs = tokens_sorted ys"
proof -
  have len: "length xs = length ys" using map_eq_imp_length_eq [OF assms] .
  have nth: "tok_idx (xs ! k) = tok_idx (ys ! k) \<and> tok_text (xs ! k) = tok_text (ys ! k) \<and>
      tok_start (xs ! k) = tok_start (ys ! k) \<and> tok_end (xs ! k) = tok_end (ys ! k)"
    if "k < length xs" for k
    using nth_map [OF that, of "\<lambda>t. (tok_idx t, tok_text t, tok_start t, tok_end t)"] that len
      arg_cong [OF assms, of "\<lambda>l. l ! k"] by simp
  show "map tok_idx xs = map tok_idx ys"
    by (rule nth_equalityI) (simp_all add: len nth)
  show "list_all (token_ok s) xs = list_all (token_ok s) ys"
    by (simp add: list_all_length len nth token_ok_def)
  show "tokens_sorted xs = tokens_sorted ys"
    by (simp add: tokens_sorted_def sorted_wrt_iff_nth_less len nth)
qed

lemma add_token_nodes_eq:
  "add_token_nodes gb ts =
     (gb\<lparr>gb_nodes := gb_nodes gb @ map2 token_node [length (gb_nodes gb)..<length (gb_nodes gb) + length ts] ts\<rparr>,
      map int [length (gb_nodes gb)..<length (gb_nodes gb) + length ts])"
proof (induction ts arbitrary: gb)
  case (Cons t ts)
  have "[length (gb_nodes gb)..<length (gb_nodes gb) + length (t # ts)] =
        length (gb_nodes gb) # [Suc (length (gb_nodes gb))..<Suc (length (gb_nodes gb)) + length ts]"
    by (simp add: upt_rec)
  then show ?case
    by (simp add: Cons add_node_def token_node_def Let_def)
qed simp

lemma add_next_edges_eq:
  "add_next_edges gb ps = gb\<lparr>gb_edges := gb_edges gb @ map next_edge ps\<rparr>"
  by (induction gb ps rule: add_next_edges.induct) (simp_all add: add_edge_def next_edge_def)

lemma zip_ids_next:
  "zip (map int [0..<n]) (drop (Suc 0) (map int [0..<n])) = map (\<lambda>j. (int j, 1 + int j)) [0..<n - Suc 0]"
  by (rule nth_equalityI) (auto simp: nth_Cons')

lemma token_node_flags_bound: "0 \<le> token_node_flags tf \<and> token_node_flags tf < 256"
  by (simp add: token_node_flags_def Let_def token_flag_defs node_flag_defs)

lemma tokens_length_le_from:
  "list_all (token_ok s) ts \<Longrightarrow> tokens_sorted ts \<Longrightarrow> \<forall>t \<in> set ts. b \<le> tok_start t \<Longrightarrow>
   length ts \<le> length s - b"
proof (induction ts arbitrary: b)
  case (Cons t ts)
  have t: "b \<le> tok_start t" "tok_start t < tok_end t" "tok_end t \<le> length s"
    using Cons.prems by (auto simp: token_ok_def)
  have "length ts \<le> length s - tok_end t"
    using Cons.prems by (intro Cons.IH) (auto simp: tokens_sorted_def)
  with t show ?case by simp
qed simp

lemma tokens_length_le:
  "list_all (token_ok s) ts \<Longrightarrow> tokens_sorted ts \<Longrightarrow> length ts \<le> length s"
  using tokens_length_le_from [of s ts 0] by simp

lemma tokens_to_graph_eq:
  "tokens_to_graph U text gid src ver =
     (let toks = tokenize U text; n = length toks in
      \<lparr>graph_id = gid, graph_type = GraphType_code HETERO, num_nodes = int n, num_edges = int (n - 1),
       g_features = None, source_id = src, version = ver, schema_id = SchemaID_code WRITING,
       nodes = map2 token_node [0..<n] toks,
       edges = map (\<lambda>j. next_edge (int j, int (Suc j))) [0..<n - 1]\<rparr>)"
  by (simp add: tokens_to_graph_def add_token_nodes_eq add_next_edges_eq zip_ids_next
      GraphBuilder_init_def finalize_def Let_def)

lemma dense_ids_token_nodes: "dense_ids (map2 token_node [0..<length ts] ts)"
  by (simp add: dense_ids_def token_node_def)

lemma tokenize_wf:
  "map tok_idx (tokenize U text) = [0..<length (tokenize U text)] \<and>
   list_all (token_ok text) (tokenize U text) \<and> tokens_sorted (tokenize U text)"
proof -
  let ?ms = "scan text 0"
  let ?ts = "map2 (mk_token U text) [0..<length (non_ws ?ms)] (non_ws ?ms)"
  obtain fts fks where fb:
    "fallback_token U text (length ?ts) (last (0 # map (\<lambda>m. snd (snd m)) ?ms)) = (fts, fks)"
    by fastforce
  have tk: "tokenize U text = sentence_cues (?ts @ fts) (map fst (non_ws ?ms) @ fks)"
    using fb by (simp add: tokenize_def build_tokens_eq)
  note sh = shape_transfer [OF sentence_cues_shape [of "?ts @ fts" "map fst (non_ws ?ms) @ fks"]]
  show ?thesis
    unfolding tk sh using tokens_before_cues [OF fb] by simp
qed

lemmas tokenizer_match_defs = master_match_def url_match_def prefix_nonspace_def email_match_def
  handle_match_def ellipsis_match_def word_match_def punct_match_def ws_match_def run_len_def
  email_local_char_def email_domain_char_def handle_char_def word_joiner_def punct_char_def
  py_isspace_def ascii_class_defs ascii_def

lemmas tokenizer_eval = tokenizer_match_defs word_tail.simps tokenize_def sentence_cues_def
  cue_step_def bubble_weak.simps set_flag_def TERMINATORS_STRONG_def TERMINATORS_WEAK_def
  CLOSERS_def piece_flags_def fallback_token_def token_flag_defs ascii_ucd_def Let_def upt_rec

section \<open>Properties\<close>

text \<open>
  C11. Whatever the text and the character database, \<open>tokenize\<close> numbers its tokens
  \<open>0, 1, ...\<close> in order, every token is a non-empty slice \<open>text[start:end]\<close> of the
  text, and the tokens do not overlap and appear in text order.
\<close>

theorem tokenize_spans:
  "map tok_idx (tokenize U text) = [0..<length (tokenize U text)] \<and>
   list_all (token_ok text) (tokenize U text) \<and> tokens_sorted (tokenize U text)"
  by (rule tokenize_wf)

text \<open>
  C12. The sentence-cue post-pass of \<open>tokenize\<close> (the \<open>for k in range(n)\<close> loop
  that mutates the flags and bubbles the weak flag through closers) computes the
  declarative specification \<open>cue_spec\<close>: a punctuation or ellipsis token whose text
  is a strong terminator gets the strong flag; a token gets the weak flag when it is a
  punctuation or ellipsis token whose text is a weak terminator, or when it and every
  token back to an earlier strong terminator are closers. Nothing else changes.
\<close>

theorem sentence_cues_refines: "sentence_cues ts ks = cue_spec ts ks"
  by (rule nth_equalityI) (simp_all add: sentence_cues_upto cue_spec_def cue_tok_def)


text \<open>
  The specification's first example: \<open>"Are you okay?"\<close> gives the four tokens
  \<open>Are\<close>, \<open>you\<close>, \<open>okay\<close>, \<open>?\<close> with their offsets; \<open>Are\<close> is capitalised and \<open>?\<close>
  is punctuation with the strong sentence-end flag (\<open>2 OR 8 = 10\<close>).
\<close>

theorem tokenize_example_question:
  "map (\<lambda>t. (tok_text t, tok_start t, tok_end t, tok_flags t)) (tokenize ascii_ucd (ascii ''Are you okay?'')) =
   [(ascii ''Are'', 0, 3, 1), (ascii ''you'', 4, 7, 0), (ascii ''okay'', 8, 12, 0), (ascii ''?'', 12, 13, 10)]"
  by (simp add: tokenizer_eval cong: option.case_cong_weak list.case_cong_weak prod.case_cong_weak)

text \<open>
  The specification's curly-quote example \<open>He said, \u201CDon\u2019t move.\u201D\<close> (\<open>\u\<close> escapes as in Python):
  the contraction with U+2019 is one token, the full stop is a strong end and the closing
  quotation mark U+201D after it receives the weak flag (\<open>2 OR 16 = 18\<close>).
\<close>

theorem tokenize_example_quotes:
  "map (\<lambda>t. (tok_text t, tok_start t, tok_end t, tok_flags t))
     (tokenize ascii_ucd (ascii ''He said, '' @ [0x201C] @ ascii ''Don'' @ [0x2019] @ ascii ''t move.'' @ [0x201D])) =
   [(ascii ''He'', 0, 2, 1), (ascii ''said'', 3, 7, 0), (ascii '','', 7, 8, 2), ([0x201C], 9, 10, 2),
    (ascii ''Don'' @ [0x2019] @ ascii ''t'', 10, 15, 1), (ascii ''move'', 16, 20, 0), (ascii ''.'', 20, 21, 10),
    ([0x201D], 21, 22, 18)]"
  by (simp add: tokenizer_eval cong: option.case_cong_weak list.case_cong_weak prod.case_cong_weak)

text \<open>
  The tokenizer is not lossless: a character that no alternative of the master
  pattern matches is skipped by \<open>finditer\<close> when a later match follows, so
  \<open>"a $ b"\<close> yields only \<open>a\<close> and \<open>b\<close>; the fallback token covers only an unmatched
  rest after the last match.
\<close>

theorem tokenize_drops_unmatched:
  "map tok_text (tokenize ascii_ucd (ascii ''a $ b'')) = [ascii ''a'', ascii ''b'']"
  by (simp add: tokenizer_eval cong: option.case_cong_weak list.case_cong_weak prod.case_cong_weak)

text \<open>
  C15. \<open>tokens_to_graph\<close> builds one \<open>TOKEN\<close> node per token, with the token's span,
  node id equal to its index, and flags derived from the token's flags, and one \<open>NEXT\<close>
  edge from each token to the next, with \<open>add_edge\<close>'s default attributes; the graph's
  counts match its lists.
\<close>

theorem tokens_to_graph_shape:
  "nodes (tokens_to_graph U text gid src ver) =
     map2 token_node [0..<length (tokenize U text)] (tokenize U text) \<and>
   edges (tokens_to_graph U text gid src ver) =
     map (\<lambda>j. next_edge (int j, int (Suc j))) [0..<length (tokenize U text) - 1] \<and>
   counts_match (tokens_to_graph U text gid src ver)"
  by (simp add: tokens_to_graph_eq Let_def counts_match_def)

text \<open>
  C16. The node flags of a token node carry exactly the token's punctuation,
  capitalisation, strong-end and weak-end bits, at the node-flag positions 3, 2, 6 and
  7, and no other bit: the value fits the low byte of the 16-bit field and bits 0, 1, 4,
  5 (\<open>0x33\<close>) stay clear.
\<close>

theorem token_node_flags_bits:
  "(token_node_flags tf AND NF_IS_PUNCT \<noteq> 0 \<longleftrightarrow> tf AND TF_PUNCT \<noteq> 0) \<and>
   (token_node_flags tf AND NF_IS_CAPITALIZED \<noteq> 0 \<longleftrightarrow> tf AND TF_CAP \<noteq> 0) \<and>
   (token_node_flags tf AND NF_SENT_END_STRONG \<noteq> 0 \<longleftrightarrow> tf AND TF_SENT_END_STRONG \<noteq> 0) \<and>
   (token_node_flags tf AND NF_SENT_END_WEAK \<noteq> 0 \<longleftrightarrow> tf AND TF_SENT_END_WEAK \<noteq> 0) \<and>
   token_node_flags tf AND 0x33 = 0 \<and> 0 \<le> token_node_flags tf \<and> token_node_flags tf < 256"
  by (simp add: token_node_flags_def Let_def token_flag_defs node_flag_defs)

end
