(* ===== verification/Sentences.thy ===== *)
theory Sentences
  imports Tokenizer
begin

text \<open>
  \<open>src/brain/language/sentences.py\<close>: \<open>segment_tokens\<close> is one forward pass over the
  flagged tokens with two bounded look-ahead loops: after a strong end it extends the
  sentence over the following weak-flagged tokens; at a weak-flagged ellipsis it skips
  weak and punctuation tokens and closes the sentence at the ellipsis when the text ends
  there or the next token is capitalised. Each \<open>while\<close> loop is a function with a
  measure; the outer loop's state is \<open>(s, k)\<close> and its output the list of spans.
  \<open>segment\<close> maps token spans to character spans.
\<close>

unbundle bit_operations_syntax

section \<open>The segmenter\<close>

definition has_flag :: "Token \<Rightarrow> int \<Rightarrow> bool" where
  "has_flag t f \<longleftrightarrow> tok_flags t AND f \<noteq> 0"

text \<open>\<open>while j < n and (tokens[j].flags & TF_SENT_END_WEAK): end = j; j += 1\<close>; the
  result is the final \<open>j\<close>, which is \<open>end + 1\<close>.\<close>

function weak_run :: "Token list \<Rightarrow> nat \<Rightarrow> nat" where
  "weak_run ts j =
     (if j < length ts \<and> has_flag (ts ! j) TF_SENT_END_WEAK then weak_run ts (j + 1) else j)"
  by pat_completeness auto
termination
  by (relation "measure (\<lambda>(ts, j). length ts - j)") auto

text \<open>\<open>while j < n and ((tokens[j].flags & TF_SENT_END_WEAK) or (tokens[j].flags & TF_PUNCT)): j += 1\<close>.\<close>

function skip_punct :: "Token list \<Rightarrow> nat \<Rightarrow> nat" where
  "skip_punct ts j =
     (if j < length ts \<and> (has_flag (ts ! j) TF_SENT_END_WEAK \<or> has_flag (ts ! j) TF_PUNCT)
      then skip_punct ts (j + 1) else j)"
  by pat_completeness auto
termination
  by (relation "measure (\<lambda>(ts, j). length ts - j)") auto

declare weak_run.simps [simp del] skip_punct.simps [simp del]

lemma weak_run_ge: "j \<le> weak_run ts j"
  by (induction ts j rule: weak_run.induct) (subst weak_run.simps; auto dest: Suc_leD)

lemma skip_punct_ge: "j \<le> skip_punct ts j"
  by (induction ts j rule: skip_punct.induct) (subst skip_punct.simps; auto dest: Suc_leD)

text \<open>The ellipsis texts \<open>("\u2026", "...")\<close> of the second test.\<close>

definition ELLIPSES :: "ustr list" where
  "ELLIPSES = [[0x2026], [46, 46, 46]]"

text \<open>
  Whether the ellipsis at \<open>k\<close> closes its sentence: \<open>j >= n or (tokens[j].flags & TF_CAP)\<close>
  after the look-ahead.
\<close>

definition ellipsis_closes :: "Token list \<Rightarrow> nat \<Rightarrow> bool" where
  "ellipsis_closes ts k \<longleftrightarrow>
     has_flag (ts ! k) TF_SENT_END_WEAK \<and> tok_text (ts ! k) \<in> set ELLIPSES \<and>
     (let j = skip_punct ts (k + 1) in length ts \<le> j \<or> has_flag (ts ! j) TF_CAP)"

text \<open>The \<open>while k < n\<close> loop with the sentence start \<open>s\<close>, then the trailing span.\<close>

function seg_loop :: "Token list \<Rightarrow> nat \<Rightarrow> nat \<Rightarrow> (nat \<times> nat) list" where
  "seg_loop ts s k =
     (if k < length ts then
        (if has_flag (ts ! k) TF_SENT_END_STRONG then
           (let e = weak_run ts (k + 1) in (s, e) # seg_loop ts e e)
         else if ellipsis_closes ts k then (s, k + 1) # seg_loop ts (k + 1) (k + 1)
         else seg_loop ts s (k + 1))
      else if s < length ts then [(s, length ts)] else [])"
  by pat_completeness auto
termination
  by (relation "measure (\<lambda>(ts, s, k). length ts - k)")
     (auto simp: Let_def dest: order.strict_trans2 [OF _ weak_run_ge] intro: diff_less_mono2
       less_le_trans [OF _ weak_run_ge])

declare seg_loop.simps [simp del]

definition segment_tokens :: "Token list \<Rightarrow> (nat \<times> nat) list" where
  "segment_tokens ts = (if length ts = 0 then [] else seg_loop ts 0 0)"


text \<open>\<open>segment\<close>: the character span of each non-empty token span.\<close>

definition segment :: "ucd \<Rightarrow> ustr \<Rightarrow> (nat \<times> nat) list" where
  "segment U text =
     (let toks = tokenize U text;
          spans_tok = segment_tokens toks
      in concat (map (\<lambda>(a, b). if b \<le> a then [] else [(tok_start (toks ! a), tok_end (toks ! (b - 1)))])
                  spans_tok))"

definition segment_to_graph :: "ucd \<Rightarrow> ustr \<Rightarrow> Graph \<times> (nat \<times> nat) list" where
  "segment_to_graph U text = (tokens_to_graph U text 0 0 1, segment_tokens (tokenize U text))"

section \<open>Lemmas\<close>

lemma weak_run_le: "j \<le> length ts \<Longrightarrow> weak_run ts j \<le> length ts"
  by (induction ts j rule: weak_run.induct) (subst weak_run.simps; auto)

lemma upt_split: "i \<le> j \<Longrightarrow> j \<le> k \<Longrightarrow> [i..<j] @ [j..<k] = [i..<k]"
  using upt_add_eq_append [of i j "k - j"] by simp

lemma seg_loop_partition:
  "s \<le> k \<Longrightarrow> k \<le> length ts \<Longrightarrow>
   concat (map (\<lambda>(a, b). [a..<b]) (seg_loop ts s k)) = [s..<length ts] \<and>
   list_all (\<lambda>(a, b). a < b) (seg_loop ts s k)"
proof (induction ts s k rule: seg_loop.induct)
  case (1 ts s k)
  show ?case
  proof (cases "k < length ts")
    case k: True
    show ?thesis
    proof (cases "has_flag (ts ! k) TF_SENT_END_STRONG")
      case True
      define e where "e = weak_run ts (k + 1)"
      have e: "k + 1 \<le> e" "e \<le> length ts"
        using weak_run_ge [of "k + 1" ts] weak_run_le [of "k + 1" ts] k by (simp_all add: e_def)
      have "seg_loop ts s k = (s, e) # seg_loop ts e e"
        using k True by (subst seg_loop.simps) (simp add: e_def Let_def)
      moreover have "[s..<e] @ [e..<length ts] = [s..<length ts]"
        using upt_split [of s e "length ts"] e 1(4) by simp
      ultimately show ?thesis
        using 1(1) [OF k True e_def] e 1(4) by simp
    next
      case ns: False
      show ?thesis
      proof (cases "ellipsis_closes ts k")
        case True
        have "seg_loop ts s k = (s, k + 1) # seg_loop ts (k + 1) (k + 1)"
          using k ns True by (subst seg_loop.simps) simp
        moreover have "[s..<k + 1] @ [k + 1..<length ts] = [s..<length ts]"
          using upt_split [of s "k + 1" "length ts"] k 1(4) by simp
        ultimately show ?thesis
          using 1(2) [OF k ns True] k 1(4) by simp
      next
        case False
        then have "seg_loop ts s k = seg_loop ts s (k + 1)"
          using k ns by (subst seg_loop.simps) simp
        then show ?thesis
          using 1(3) [OF k ns False] 1(4) k by simp
      qed
    qed
  next
    case False
    then have "seg_loop ts s k = (if s < length ts then [(s, length ts)] else [])"
      by (subst seg_loop.simps) simp
    then show ?thesis
      using False 1(4,5) by simp
  qed
qed


lemma weak_run_spec:
  "(\<forall>i. j \<le> i \<and> i < weak_run ts j \<longrightarrow> has_flag (ts ! i) TF_SENT_END_WEAK) \<and>
   (weak_run ts j < length ts \<longrightarrow> \<not> has_flag (ts ! weak_run ts j) TF_SENT_END_WEAK)"
proof (induction ts j rule: weak_run.induct)
  case (1 ts j)
  show ?case
  proof (cases "j < length ts \<and> has_flag (ts ! j) TF_SENT_END_WEAK")
    case True
    then have wr: "weak_run ts j = weak_run ts (j + 1)" by (subst weak_run.simps) simp
    have IH: "(\<forall>i. j + 1 \<le> i \<and> i < weak_run ts (j + 1) \<longrightarrow> has_flag (ts ! i) TF_SENT_END_WEAK) \<and>
        (weak_run ts (j + 1) < length ts \<longrightarrow> \<not> has_flag (ts ! weak_run ts (j + 1)) TF_SENT_END_WEAK)"
      using 1 True by blast
    show ?thesis
    proof (intro conjI allI impI)
      fix i assume "j \<le> i \<and> i < weak_run ts j"
      then show "has_flag (ts ! i) TF_SENT_END_WEAK" using IH wr True by (cases "i = j") auto
    next
      assume "weak_run ts j < length ts"
      then show "\<not> has_flag (ts ! weak_run ts j) TF_SENT_END_WEAK" using IH wr by simp
    qed
  next
    case False
    then have "weak_run ts j = j" by (subst weak_run.simps) (simp only: if_False if_not_P [OF False])
    with False show ?thesis by auto
  qed
qed

lemma seg_loop_strong:
  "s \<le> k \<Longrightarrow> \<forall>i. s \<le> i \<and> i < k \<longrightarrow> \<not> has_flag (ts ! i) TF_SENT_END_STRONG \<Longrightarrow>
   (a, b) \<in> set (seg_loop ts s k) \<Longrightarrow> a \<le> j \<Longrightarrow> j < b \<Longrightarrow> has_flag (ts ! j) TF_SENT_END_STRONG \<Longrightarrow>
   (\<forall>i. j < i \<and> i < b \<longrightarrow> has_flag (ts ! i) TF_SENT_END_WEAK) \<and>
   (b < length ts \<longrightarrow> \<not> has_flag (ts ! b) TF_SENT_END_WEAK)"
proof (induction ts s k rule: seg_loop.induct)
  case (1 ts s k)
  show ?case
  proof (cases "k < length ts")
    case k: True
    show ?thesis
    proof (cases "has_flag (ts ! k) TF_SENT_END_STRONG")
      case True
      define e where "e = weak_run ts (k + 1)"
      have "seg_loop ts s k = (s, e) # seg_loop ts e e"
        using k True by (subst seg_loop.simps) (simp add: e_def Let_def)
      then consider "(a, b) = (s, e)" | "(a, b) \<in> set (seg_loop ts e e)"
        using 1(6) by auto
      then show ?thesis
      proof cases
        case 1
        have "k \<le> j"
          using "1.prems"(2,4,6) 1 by (cases "j < k") auto
        then show ?thesis
          using weak_run_spec [of "k + 1" ts] "1.prems"(5) 1 by (auto simp: e_def)
      next
        case 2
        have vac: "\<forall>i. e \<le> i \<and> i < e \<longrightarrow> \<not> has_flag (ts ! i) TF_SENT_END_STRONG" by auto
        show ?thesis using "1.IH"(1) [OF k True e_def order.refl vac 2] "1.prems"(4-6) .
      qed
    next
      case ns: False
      show ?thesis
      proof (cases "ellipsis_closes ts k")
        case True
        have "seg_loop ts s k = (s, k + 1) # seg_loop ts (k + 1) (k + 1)"
          using k ns True by (subst seg_loop.simps) simp
        then consider "(a, b) = (s, k + 1)" | "(a, b) \<in> set (seg_loop ts (k + 1) (k + 1))"
          using 1(6) by auto
        then show ?thesis
        proof cases
          case 1
          then show ?thesis using "1.prems" ns by (auto simp: less_Suc_eq)
        next
          case 2
          have vac: "\<forall>i. k + 1 \<le> i \<and> i < k + 1 \<longrightarrow> \<not> has_flag (ts ! i) TF_SENT_END_STRONG"
            by auto
          show ?thesis using "1.IH"(2) [OF k ns True order.refl vac 2] "1.prems"(4-6) .
        qed
      next
        case False
        then have "seg_loop ts s k = seg_loop ts s (k + 1)"
          using k ns by (subst seg_loop.simps) simp
        then show ?thesis
          using "1.IH"(3) [OF k ns False] "1.prems" ns by (auto simp: less_Suc_eq)
      qed
    qed
  next
    case False
    then have "seg_loop ts s k = (if s < length ts then [(s, length ts)] else [])"
      by (subst seg_loop.simps) simp
    then show ?thesis
      using False "1.prems" by (auto split: if_splits)
  qed
qed


lemmas segmenter_eval = tokenizer_eval segment_tokens_def seg_loop.simps weak_run.simps
  skip_punct.simps ellipsis_closes_def ELLIPSES_def has_flag_def segment_def

section \<open>Properties\<close>

text \<open>
  C18. \<open>segment_tokens\<close> partitions the token indices: its spans, read as ranges
  \<open>[a, b)\<close>, are non-empty and concatenate to \<open>[0, n)\<close> in order, with no gap and no
  overlap, for every token list (with any flags).
\<close>

theorem segment_partition:
  "concat (map (\<lambda>(a, b). [a..<b]) (segment_tokens ts)) = [0..<length ts] \<and>
   list_all (\<lambda>(a, b). a < b) (segment_tokens ts)"
  using seg_loop_partition [of 0 0 ts] by (simp add: segment_tokens_def)

text \<open>
  C19. A sentence that contains a strong-end token ends right after the run of
  weak-flagged tokens that follows it: every token after the strong end inside the
  sentence is weak-flagged, and the token after the sentence, if any, is not.
\<close>

theorem segment_strong_closes:
  assumes "(a, b) \<in> set (segment_tokens ts)" "a \<le> j" "j < b"
    and "has_flag (ts ! j) TF_SENT_END_STRONG"
  shows "(\<forall>i. j < i \<and> i < b \<longrightarrow> has_flag (ts ! i) TF_SENT_END_WEAK) \<and>
         (b < length ts \<longrightarrow> \<not> has_flag (ts ! b) TF_SENT_END_WEAK)"
proof -
  have "length ts \<noteq> 0" using assms(1) by (auto simp: segment_tokens_def)
  then show ?thesis
    using seg_loop_strong [of 0 0 ts a b j] assms by (simp add: segment_tokens_def)
qed


theorem segment_strong_closes_witness:
  "has_flag (tokenize ascii_ucd (ascii ''Hi.'' @ [0x201D] @ ascii '' Ok'') ! 2) TF_SENT_END_WEAK \<and>
   \<not> has_flag (tokenize ascii_ucd (ascii ''Hi.'' @ [0x201D] @ ascii '' Ok'') ! 3) TF_SENT_END_WEAK"
  using segment_strong_closes [of 0 3 "tokenize ascii_ucd (ascii ''Hi.'' @ [0x201D] @ ascii '' Ok'')" 1]
  by (simp add: segmenter_eval cong: option.case_cong_weak list.case_cong_weak prod.case_cong_weak)

text \<open>
  The specification's example: \<open>"Are you okay?"\<close> is one sentence,
  \<open>segment_tokens\<close> returns \<open>[(0, 4)]\<close>.
\<close>

theorem segment_example_question:
  "segment_tokens (tokenize ascii_ucd (ascii ''Are you okay?'')) = [(0, 4)]"
  by (simp add: segmenter_eval cong: option.case_cong_weak list.case_cong_weak prod.case_cong_weak)

text \<open>
  The specification's example: in \<open>"Okay... I guess"\<close> the ellipsis is followed by
  the capitalised \<open>I\<close>, so the first sentence closes exactly at the ellipsis: token spans
  \<open>[(0, 2), (2, 4)]\<close>, character spans \<open>[(0, 7), (8, 15)]\<close>.
\<close>

theorem segment_example_ellipsis:
  "segment_tokens (tokenize ascii_ucd (ascii ''Okay... I guess'')) = [(0, 2), (2, 4)] \<and>
   segment ascii_ucd (ascii ''Okay... I guess'') = [(0, 7), (8, 15)]"
  by (simp add: segmenter_eval cong: option.case_cong_weak list.case_cong_weak prod.case_cong_weak)

text \<open>
  The deliberate asymmetry: in \<open>Wait\u2026 \u201CReally?\u201D Yes.\<close> the ellipsis
  closes the first sentence before the opening quote (it starts the next sentence),
  while the closing quote after \<open>?\<close> is absorbed into the sentence it ends.
\<close>

theorem segment_example_asymmetry:
  "segment_tokens (tokenize ascii_ucd (ascii ''Wait'' @ [0x2026, 32, 0x201C] @ ascii ''Really?'' @
     [0x201D] @ ascii '' Yes.'')) = [(0, 2), (2, 6), (6, 8)]"
  by (simp add: segmenter_eval cong: option.case_cong_weak list.case_cong_weak prod.case_cong_weak)

end
