(* ===== verification/Morph.thy ===== *)
theory Morph
  imports Tokenizer
begin

text \<open>
  \<open>src/brain/language/morph.py\<close>: a fixed-priority rule cascade gives each token a
  coarse part of speech, a lemma and a packed 16-bit morphology field; every lemma is
  interned in a \<open>Vocab\<close>, threaded through \<open>analyze_tokens\<close> as explicit state;
  \<open>annotate_graph\<close> writes the results into a token graph. Python's in-place update of
  the graph's nodes is a function returning the updated graph.
\<close>

unbundle bit_operations_syntax

section \<open>Part of speech and the morphology field\<close>

datatype POS = POS_X | POS_NOUN | POS_VERB | POS_ADJ | POS_ADV | POS_PRON | POS_DET | POS_ADP
  | POS_CCONJ | POS_SCONJ | POS_PUNCT | POS_NUM | POS_PROPN | POS_AUX

fun POS_code :: "POS \<Rightarrow> int" where
  "POS_code POS_X = 0"
| "POS_code POS_NOUN = 1"
| "POS_code POS_VERB = 2"
| "POS_code POS_ADJ = 3"
| "POS_code POS_ADV = 4"
| "POS_code POS_PRON = 5"
| "POS_code POS_DET = 6"
| "POS_code POS_ADP = 7"
| "POS_code POS_CCONJ = 8"
| "POS_code POS_SCONJ = 9"
| "POS_code POS_PUNCT = 10"
| "POS_code POS_NUM = 11"
| "POS_code POS_PROPN = 12"
| "POS_code POS_AUX = 13"

definition TENSE_PRES :: int where "TENSE_PRES = 1"
definition TENSE_PAST :: int where "TENSE_PAST = 2"
definition NUM_SING :: int where "NUM_SING = 1"
definition PER_1 :: int where "PER_1 = 1"
definition PER_3 :: int where "PER_3 = 3"

definition pack_bits :: "int \<Rightarrow> int \<Rightarrow> int \<Rightarrow> int \<Rightarrow> int" where
  "pack_bits pos tense num per =
     (pos AND 0xF) OR push_bit 4 (tense AND 0x3) OR push_bit 6 (num AND 0x3) OR push_bit 8 (per AND 0x3)"

section \<open>The vocabulary\<close>

text \<open>
  \<open>Vocab\<close>: the dictionary \<open>_tok2id\<close> as a map and the list \<open>_id2tok\<close>; ids start at 1,
  0 is "unknown".
\<close>

record Vocab =
  tok2id :: "ustr \<rightharpoonup> int"
  id2tok :: "ustr list"

definition Vocab_init :: Vocab where
  "Vocab_init = \<lparr>tok2id = Map.empty, id2tok = []\<rparr>"

definition get_id :: "Vocab \<Rightarrow> ustr \<Rightarrow> Vocab \<times> int" where
  "get_id v s =
     (case tok2id v s of
        Some i \<Rightarrow> (v, i)
      | None \<Rightarrow> (let idx = int (length (id2tok v)) + 1 in
                 (v\<lparr>tok2id := (tok2id v)(s \<mapsto> idx), id2tok := id2tok v @ [s]\<rparr>, idx)))"

definition get_str :: "Vocab \<Rightarrow> int \<Rightarrow> ustr" where
  "get_str v i = (if i \<le> 0 \<or> int (length (id2tok v)) < i then [] else id2tok v ! nat (i - 1))"


section \<open>The closed-class tables\<close>

text \<open>The Python sets as lists of their members (membership is all that is used).\<close>

definition STOP_WORDS :: "ustr list" where
  "STOP_WORDS = map ascii
    [''the'', ''a'', ''an'', ''and'', ''or'', ''but'', ''if'', ''because'', ''that'',
     ''which'', ''who'', ''whom'', ''whose'', ''to'', ''of'', ''in'', ''on'', ''at'',
     ''by'', ''for'', ''with'', ''from'', ''as'', ''than'', ''then'', ''so'', ''yet'',
     ''is'', ''are'', ''was'', ''were'', ''be'', ''been'', ''being'', ''do'', ''does'',
     ''did'', ''have'', ''has'', ''had'', ''not'', ''no'', ''yes'', ''it'', ''i'',
     ''you'', ''he'', ''she'', ''we'', ''they'', ''me'', ''him'', ''her'', ''us'',
     ''them'', ''this'', ''that'', ''these'', ''those'']"

definition PRON_WORDS :: "ustr list" where
  "PRON_WORDS = map ascii
    [''i'', ''you'', ''he'', ''she'', ''it'', ''we'', ''they'', ''me'', ''him'',
     ''her'', ''us'', ''them'', ''my'', ''your'', ''his'', ''her'', ''our'', ''their'']"

definition DET_WORDS :: "ustr list" where
  "DET_WORDS = map ascii
    [''the'', ''a'', ''an'', ''this'', ''that'', ''these'', ''those'']"

definition ADP_WORDS :: "ustr list" where
  "ADP_WORDS = map ascii
    [''of'', ''to'', ''in'', ''on'', ''at'', ''by'', ''for'', ''with'', ''from'',
     ''as'', ''into'', ''onto'', ''over'', ''under'', ''between'', ''through'']"

definition CCONJ_WORDS :: "ustr list" where
  "CCONJ_WORDS = map ascii
    [''and'', ''or'', ''but'', ''nor'', ''yet'', ''so'']"

definition SCONJ_WORDS :: "ustr list" where
  "SCONJ_WORDS = map ascii
    [''because'', ''if'', ''that'', ''although'', ''though'', ''when'', ''while'',
     ''since'', ''unless'']"

text \<open>\<open>_AUX_MAP\<close>: surface form to lemma, tense, number and person.\<close>

definition AUX_MAP :: "(ustr \<times> ustr \<times> int \<times> int \<times> int) list" where
  "AUX_MAP = map (\<lambda>(k, l, t, n, p). (ascii k, ascii l, t, n, p))
    [(''am'', ''be'', TENSE_PRES, NUM_SING, PER_1),
     (''are'', ''be'', TENSE_PRES, 0, 0),
     (''is'', ''be'', TENSE_PRES, NUM_SING, PER_3),
     (''was'', ''be'', TENSE_PAST, NUM_SING, PER_1),
     (''were'', ''be'', TENSE_PAST, 0, 0),
     (''be'', ''be'', 0, 0, 0),
     (''been'', ''be'', 0, 0, 0),
     (''being'', ''be'', 0, 0, 0),
     (''have'', ''have'', TENSE_PRES, 0, 0),
     (''has'', ''have'', TENSE_PRES, NUM_SING, PER_3),
     (''had'', ''have'', TENSE_PAST, 0, 0),
     (''do'', ''do'', TENSE_PRES, 0, 0),
     (''does'', ''do'', TENSE_PRES, NUM_SING, PER_3),
     (''did'', ''do'', TENSE_PAST, 0, 0),
     (''can'', ''can'', 0, 0, 0),
     (''could'', ''could'', 0, 0, 0),
     (''may'', ''may'', 0, 0, 0),
     (''might'', ''might'', 0, 0, 0),
     (''must'', ''must'', 0, 0, 0),
     (''should'', ''should'', 0, 0, 0),
     (''would'', ''would'', 0, 0, 0),
     (''will'', ''will'', 0, 0, 0),
     (''shall'', ''shall'', 0, 0, 0)]"

section \<open>String helpers\<close>

text \<open>\<open>s.replace("\u2019", "'").replace("\u2018", "'")\<close>.\<close>

definition norm_apostrophes :: "ustr \<Rightarrow> ustr" where
  "norm_apostrophes s = map (\<lambda>c. if c = 0x2019 then 39 else c) (map (\<lambda>c. if c = 0x2018 then 39 else c) s)"

text \<open>Python's \<open>str.endswith\<close>.\<close>

definition endswith :: "ustr \<Rightarrow> ustr \<Rightarrow> bool" where
  "endswith s suf \<longleftrightarrow> length suf \<le> length s \<and> drop (length s - length suf) s = suf"

definition strip_possessive :: "ustr \<Rightarrow> ustr" where
  "strip_possessive s =
     (let s2 = norm_apostrophes s in
      if endswith s2 [39, 115] then take (length s2 - 2) s2
      else if endswith s2 [39] then take (length s2 - 1) s2
      else s2)"

definition lemma_guess :: "ustr \<Rightarrow> ustr" where
  "lemma_guess lower =
     (if endswith lower (ascii ''ing'') \<and> 4 < length lower then take (length lower - 3) lower
      else if endswith lower (ascii ''ed'') \<and> 3 < length lower then take (length lower - 2) lower
      else if endswith lower (ascii ''s'') \<and> 3 < length lower \<and> \<not> endswith lower (ascii ''ss'')
      then take (length lower - 1) lower
      else lower)"

text \<open>
  \<open>_RE_INITIAL_CAP.match(raw)\<close> with \<open>^[A-Z][A-Za-z]+$\<close>: an upper-case ASCII letter
  and at least one more ASCII letter to the end; \<open>$\<close> also matches before a final
  newline.
\<close>

definition initial_cap_core :: "ustr \<Rightarrow> bool" where
  "initial_cap_core s \<longleftrightarrow> (case s of [] \<Rightarrow> False
     | c # rest \<Rightarrow> is_ascii_upper c \<and> rest \<noteq> [] \<and> list_all is_ascii_alpha rest)"

definition initial_cap :: "ustr \<Rightarrow> bool" where
  "initial_cap s \<longleftrightarrow> initial_cap_core s \<or> (s \<noteq> [] \<and> last s = 10 \<and> initial_cap_core (butlast s))"

text \<open>\<open>str.lower\<close> maps each code point to its lower-case expansion.\<close>

definition str_lower :: "ucd \<Rightarrow> ustr \<Rightarrow> ustr" where
  "str_lower U s = concat (map (u_lower U) s)"


section \<open>The analyser\<close>

record MorphInfo =
  mi_lemma :: ustr
  mi_lemma_id :: int
  mi_pos :: POS
  mi_bits :: int
  mi_is_stop :: bool

text \<open>
  The cascade of \<open>analyze_tokens\<close> for one token: the lemma, the part of speech, the
  packed field and the stop-word mark of the branch that fires. Every branch then
  appends \<open>MorphInfo(lemma, vocab.get_id(lemma), pos, bits, is_stop)\<close>.
\<close>

definition classify :: "ucd \<Rightarrow> Token \<Rightarrow> ustr \<times> POS \<times> int \<times> bool" where
  "classify U t =
     (let raw = tok_text t;
          norm = strip_possessive (norm_apostrophes raw);
          lower = str_lower U norm
      in if tok_flags t AND TF_PUNCT \<noteq> 0 then (norm, POS_PUNCT, pack_bits (POS_code POS_PUNCT) 0 0 0, False)
      else if tok_flags t AND TF_NUM \<noteq> 0 then (lower, POS_NUM, pack_bits (POS_code POS_NUM) 0 0 0, False)
      else if lower \<in> set PRON_WORDS then (lower, POS_PRON, pack_bits (POS_code POS_PRON) 0 0 0, True)
      else if lower \<in> set DET_WORDS then (lower, POS_DET, pack_bits (POS_code POS_DET) 0 0 0, True)
      else if lower \<in> set ADP_WORDS then (lower, POS_ADP, pack_bits (POS_code POS_ADP) 0 0 0, True)
      else if lower \<in> set CCONJ_WORDS then (lower, POS_CCONJ, pack_bits (POS_code POS_CCONJ) 0 0 0, True)
      else if lower \<in> set SCONJ_WORDS then (lower, POS_SCONJ, pack_bits (POS_code POS_SCONJ) 0 0 0, True)
      else (case map_of AUX_MAP lower of
              Some (lemma, tense, num, per) \<Rightarrow>
                (lemma, POS_AUX, pack_bits (POS_code POS_AUX) tense num per, lower \<in> set STOP_WORDS)
            | None \<Rightarrow>
                if initial_cap raw then (raw, POS_PROPN, pack_bits (POS_code POS_PROPN) 0 0 0, False)
                else (lemma_guess lower, POS_NOUN, pack_bits (POS_code POS_NOUN) 0 0 0,
                      lower \<in> set STOP_WORDS)))"

definition analyze_token :: "ucd \<Rightarrow> Vocab \<Rightarrow> Token \<Rightarrow> Vocab \<times> MorphInfo" where
  "analyze_token U v t =
     (let (lemma, pos, bits, stop) = classify U t;
          (v', i) = get_id v lemma
      in (v', \<lparr>mi_lemma = lemma, mi_lemma_id = i, mi_pos = pos, mi_bits = bits, mi_is_stop = stop\<rparr>))"

fun analyze_tokens :: "ucd \<Rightarrow> Token list \<Rightarrow> Vocab \<Rightarrow> MorphInfo list \<times> Vocab" where
  "analyze_tokens U [] v = ([], v)"
| "analyze_tokens U (t # ts) v =
     (let (v1, mi) = analyze_token U v t;
          (out, v2) = analyze_tokens U ts v1
      in (mi # out, v2))"

section \<open>Graph annotation\<close>

definition annotate_node :: "Node \<Rightarrow> MorphInfo \<Rightarrow> Node" where
  "annotate_node node mi =
     (let node = node\<lparr>sub_type := POS_code (mi_pos mi), label_id := mi_lemma_id mi\<rparr>
      in if mi_is_stop mi then node\<lparr>n_flags := n_flags node OR NF_IS_STOP\<rparr> else node)"

text \<open>\<open>for i in range(min(len(g.nodes), len(tokens), len(morphs)))\<close>, updating the nodes.\<close>

definition annotate_graph :: "Graph \<Rightarrow> Token list \<Rightarrow> MorphInfo list \<Rightarrow> Graph" where
  "annotate_graph g tokens morphs =
     (let n = min (length (nodes g)) (min (length tokens) (length morphs))
      in g\<lparr>nodes := map2 annotate_node (take n (nodes g)) (take n morphs) @ drop n (nodes g)\<rparr>)"

section \<open>Specification of the vocabulary\<close>

text \<open>The map a well-formed vocabulary holds: the \<open>k\<close>-th string of \<open>_id2tok\<close> has id \<open>k + 1\<close>.\<close>

definition vocab_ids :: "ustr list \<Rightarrow> ustr \<rightharpoonup> int" where
  "vocab_ids xs = map_of (zip xs (map (\<lambda>j. int j + 1) [0..<length xs]))"

definition vocab_inv :: "Vocab \<Rightarrow> bool" where
  "vocab_inv v \<longleftrightarrow> distinct (id2tok v) \<and> tok2id v = vocab_ids (id2tok v)"

section \<open>Lemmas\<close>

lemma mask_consts: "(0xF::int) = mask 4" "(0x3::int) = mask 2"
  by (simp_all add: mask_eq_exp_minus_1)

lemma pack_bits_take:
  "pack_bits p t n r =
     take_bit 4 p OR push_bit 4 (take_bit 2 t) OR push_bit 6 (take_bit 2 n) OR push_bit 8 (take_bit 2 r)"
  by (simp add: pack_bits_def mask_consts take_bit_eq_mask)

lemma vocab_ids_None: "vocab_ids xs s = None \<longleftrightarrow> s \<notin> set xs"
  by (simp add: vocab_ids_def map_of_eq_None_iff image_set map_fst_zip)

lemma vocab_ids_snoc:
  assumes "s \<notin> set xs"
  shows "vocab_ids (xs @ [s]) = (vocab_ids xs)(s \<mapsto> int (length xs) + 1)"
proof -
  have "vocab_ids (xs @ [s]) = Map.empty(s \<mapsto> int (length xs) + 1) ++ vocab_ids xs"
    unfolding vocab_ids_def by (simp add: zip_append)
  moreover have "s \<notin> dom (vocab_ids xs)"
    using assms vocab_ids_None [of xs s] by auto
  ultimately show ?thesis by (simp add: map_add_upd_left)
qed

lemma vocab_ids_Some:
  "vocab_ids xs s = Some i \<Longrightarrow> 1 \<le> i \<and> i \<le> int (length xs) \<and> xs ! nat (i - 1) = s"
  by (auto simp: vocab_ids_def in_set_zip dest!: map_of_SomeD)

lemma vocab_init_inv: "vocab_inv Vocab_init"
  by (simp add: vocab_inv_def Vocab_init_def vocab_ids_def)

lemma get_id_new:
  "vocab_inv v \<Longrightarrow> s \<notin> set (id2tok v) \<Longrightarrow>
   get_id v s = (v\<lparr>tok2id := (tok2id v)(s \<mapsto> int (length (id2tok v)) + 1), id2tok := id2tok v @ [s]\<rparr>,
                 int (length (id2tok v)) + 1)"
  using vocab_ids_None [of "id2tok v" s] by (simp add: get_id_def vocab_inv_def Let_def)

lemma get_id_old:
  "vocab_inv v \<Longrightarrow> tok2id v s = Some i \<Longrightarrow> get_id v s = (v, i)"
  by (simp add: get_id_def)

lemma get_id_inv_step: "vocab_inv v \<Longrightarrow> vocab_inv (fst (get_id v s))"
  by (cases "s \<in> set (id2tok v)")
     (auto simp: get_id_def vocab_inv_def vocab_ids_snoc vocab_ids_None Let_def split: option.splits)

lemma get_id_ids:
  assumes "vocab_inv v" "get_id v s = (v1, i)"
  shows "1 \<le> i \<and> i \<le> int (length (id2tok v1)) \<and> id2tok v1 ! nat (i - 1) = s \<and>
         tok2id v1 s = Some i \<and> (\<exists>ys. id2tok v1 = id2tok v @ ys)"
proof (cases "tok2id v s")
  case None
  then show ?thesis using assms by (auto simp: get_id_def vocab_inv_def Let_def)
next
  case (Some j)
  then show ?thesis using assms vocab_ids_Some [of "id2tok v" s j] by (auto simp: get_id_def vocab_inv_def)
qed

lemma get_str_append:
  "1 \<le> i \<Longrightarrow> i \<le> int (length xs) \<Longrightarrow> id2tok v1 = xs @ ys \<Longrightarrow> id2tok v = xs \<Longrightarrow>
   get_str v1 i = get_str v i"
  by (auto simp: get_str_def nth_append)

lemma analyze_tokens_wf:
  "vocab_inv v \<Longrightarrow> analyze_tokens U ts v = (ms, v') \<Longrightarrow>
   vocab_inv v' \<and> length ms = length ts \<and> (\<exists>ys. id2tok v' = id2tok v @ ys) \<and>
   list_all (\<lambda>m. 1 \<le> mi_lemma_id m \<and> mi_lemma_id m \<le> int (length (id2tok v')) \<and>
                  get_str v' (mi_lemma_id m) = mi_lemma m) ms"
proof (induction ts arbitrary: v ms)
  case Nil
  then show ?case by simp
next
  case (Cons t ts)
  obtain lem pos bits stop where c: "classify U t = (lem, pos, bits, stop)"
    by (cases "classify U t") auto
  obtain v1 i where g: "get_id v lem = (v1, i)" by fastforce
  obtain out where a: "analyze_tokens U ts v1 = (out, v')" and
    ms: "ms = \<lparr>mi_lemma = lem, mi_lemma_id = i, mi_pos = pos, mi_bits = bits, mi_is_stop = stop\<rparr> # out"
    using Cons.prems(2) c g by (auto simp: analyze_token_def split: prod.splits)
  have inv1: "vocab_inv v1" using get_id_inv_step [OF Cons.prems(1), of lem] g by simp
  have ids: "1 \<le> i \<and> i \<le> int (length (id2tok v1)) \<and> id2tok v1 ! nat (i - 1) = lem \<and>
      (\<exists>ys. id2tok v1 = id2tok v @ ys)"
    using get_id_ids [OF Cons.prems(1) g] by blast
  have IH: "vocab_inv v' \<and> length out = length ts \<and> (\<exists>ys. id2tok v' = id2tok v1 @ ys) \<and>
      list_all (\<lambda>m. 1 \<le> mi_lemma_id m \<and> mi_lemma_id m \<le> int (length (id2tok v')) \<and>
                     get_str v' (mi_lemma_id m) = mi_lemma m) out"
    using Cons.IH [OF inv1 a] .
  then obtain ys where ys: "id2tok v' = id2tok v1 @ ys" by blast
  have "get_str v' i = lem"
    using ids ys by (auto simp: get_str_def nth_append)
  then show ?case
    using IH ids ys ms by auto
qed

lemma annotate_graph_nodes:
  "length (nodes (annotate_graph g toks ms)) = length (nodes g) \<and>
   (\<forall>i < length (nodes g). nodes (annotate_graph g toks ms) ! i =
      (if i < min (length toks) (length ms) then annotate_node (nodes g ! i) (ms ! i) else nodes g ! i))"
  by (auto simp: annotate_graph_def Let_def nth_append min_def)

lemma analyze_tokens_size:
  "analyze_tokens U ts v = (ms, v') \<Longrightarrow> length (id2tok v') \<le> length (id2tok v) + length ts"
proof (induction ts arbitrary: v ms)
  case (Cons t ts)
  obtain v1 mi where a1: "analyze_token U v t = (v1, mi)" by fastforce
  obtain out where a: "analyze_tokens U ts v1 = (out, v')"
    using Cons.prems a1 by (auto split: prod.splits)
  have "length (id2tok v1) \<le> length (id2tok v) + 1"
    using a1 by (auto simp: analyze_token_def get_id_def Let_def split: prod.splits option.splits)
  then show ?case using Cons.IH [OF a] by simp
qed simp

lemmas morph_eval = Vocab_init_def get_id_def get_str_def analyze_token_def classify_def
  strip_possessive_def norm_apostrophes_def endswith_def str_lower_def lemma_guess_def initial_cap_def
  initial_cap_core_def PRON_WORDS_def DET_WORDS_def ADP_WORDS_def CCONJ_WORDS_def SCONJ_WORDS_def
  STOP_WORDS_def AUX_MAP_def pack_bits_def TENSE_PRES_def TENSE_PAST_def NUM_SING_def PER_1_def PER_3_def

section \<open>Properties\<close>

text \<open>
  C23. \<open>pack_bits\<close> keeps each component in its field: bits 0-3 read back the part of
  speech, bits 4-5 the tense, 6-7 the number, 8-9 the person (each cut to its width),
  and the packed value lies in \<open>[0, 1024)\<close>, inside the 16-bit field.
\<close>

theorem pack_bits_fields:
  "pack_bits p t n r AND 0xF = p AND 0xF \<and>
   drop_bit 4 (pack_bits p t n r) AND 0x3 = t AND 0x3 \<and>
   drop_bit 6 (pack_bits p t n r) AND 0x3 = n AND 0x3 \<and>
   drop_bit 8 (pack_bits p t n r) AND 0x3 = r AND 0x3 \<and>
   0 \<le> pack_bits p t n r \<and> pack_bits p t n r < 1024"
proof -
  have tb: "take_bit 10 (pack_bits p t n r) = pack_bits p t n r"
    unfolding pack_bits_take by (rule bit_eqI) (auto simp: bit_simps)
  have "pack_bits p t n r AND mask 4 = p AND mask 4"
    unfolding pack_bits_take by (rule bit_eqI) (auto simp: bit_simps)
  moreover have "drop_bit 4 (pack_bits p t n r) AND mask 2 = t AND mask 2"
    unfolding pack_bits_take by (rule bit_eqI) (auto simp: bit_simps)
  moreover have "drop_bit 6 (pack_bits p t n r) AND mask 2 = n AND mask 2"
    unfolding pack_bits_take by (rule bit_eqI) (auto simp: bit_simps)
  moreover have "drop_bit 8 (pack_bits p t n r) AND mask 2 = r AND mask 2"
    unfolding pack_bits_take by (rule bit_eqI) (auto simp: bit_simps)
  moreover have "0 \<le> pack_bits p t n r \<and> pack_bits p t n r < 1024"
    using take_bit_int_less_exp [of 10 "pack_bits p t n r"] take_bit_nonnegative [of 10 "pack_bits p t n r"]
    by (simp add: tb)
  ultimately show ?thesis by (simp add: mask_consts)
qed

text \<open>
  C24. Interning preserves the vocabulary invariant: the strings of \<open>_id2tok\<close> stay
  distinct and \<open>_tok2id\<close> maps the \<open>k\<close>-th of them to \<open>k + 1\<close> and nothing else to
  anything.
\<close>

theorem get_id_preserves_inv:
  assumes "vocab_inv v"
  shows "vocab_inv (fst (get_id v s))"
  using assms by (rule get_id_inv_step)

theorem get_id_preserves_inv_witness: "vocab_inv (fst (get_id Vocab_init (ascii ''be'')))"
  using get_id_preserves_inv [OF vocab_init_inv] .

text \<open>
  Interning a string twice returns the same id and leaves the vocabulary as it
  was after the first call.
\<close>

theorem get_id_repeat:
  assumes "vocab_inv v" "get_id v s = (v1, i)"
  shows "get_id v1 s = (v1, i)"
  using get_id_ids [OF assms] by (simp add: get_id_def)

theorem get_id_repeat_witness:
  "get_id (fst (get_id Vocab_init (ascii ''be''))) (ascii ''be'') = (fst (get_id Vocab_init (ascii ''be'')), 1)"
  using get_id_repeat [OF vocab_init_inv, of "ascii ''be''" "fst (get_id Vocab_init (ascii ''be''))" 1]
  by (simp add: get_id_def Vocab_init_def)

text \<open>
  Two distinct strings interned one after the other never get the same id.
\<close>

theorem get_id_no_collision:
  assumes "vocab_inv v" "get_id v s = (v1, i)" "get_id v1 t = (v2, j)" "s \<noteq> t"
  shows "i \<noteq> j"
proof
  assume ij: "i = j"
  have inv1: "vocab_inv v1" using get_id_inv_step [OF assms(1), of s] assms(2) by simp
  have a: "1 \<le> i" "i \<le> int (length (id2tok v1))" "id2tok v1 ! nat (i - 1) = s"
    using get_id_ids [OF assms(1,2)] by auto
  obtain ys where ys: "id2tok v2 = id2tok v1 @ ys" and b: "id2tok v2 ! nat (j - 1) = t"
    using get_id_ids [OF inv1 assms(3)] by auto
  have "nat (i - 1) < length (id2tok v1)" using a by (auto simp: nat_less_iff)
  then have "id2tok v2 ! nat (i - 1) = s" using a ys by (simp add: nth_append)
  with b ij assms(4) show False by simp
qed

theorem get_id_no_collision_witness:
  "snd (get_id Vocab_init (ascii ''be'')) \<noteq> snd (get_id (fst (get_id Vocab_init (ascii ''be''))) (ascii ''do''))"
  using get_id_no_collision [OF vocab_init_inv, of "ascii ''be''" "fst (get_id Vocab_init (ascii ''be''))"
      "snd (get_id Vocab_init (ascii ''be''))" "ascii ''do''"
      "fst (get_id (fst (get_id Vocab_init (ascii ''be''))) (ascii ''do''))"
      "snd (get_id (fst (get_id Vocab_init (ascii ''be''))) (ascii ''do''))"]
  by (simp add: ascii_def)

text \<open>
  C27. \<open>get_str\<close> inverts \<open>get_id\<close>: the id of an interned string is at least 1 and
  \<open>get_str\<close> of it returns the string.
\<close>

theorem get_str_get_id:
  assumes "vocab_inv v" "get_id v s = (v1, i)"
  shows "1 \<le> i \<and> get_str v1 i = s"
  using get_id_ids [OF assms] by (simp add: get_str_def)

theorem get_str_get_id_witness:
  "1 \<le> snd (get_id Vocab_init (ascii ''be'')) \<and>
   get_str (fst (get_id Vocab_init (ascii ''be''))) (snd (get_id Vocab_init (ascii ''be''))) = ascii ''be''"
  using get_str_get_id [OF vocab_init_inv, of "ascii ''be''" "fst (get_id Vocab_init (ascii ''be''))"
      "snd (get_id Vocab_init (ascii ''be''))"]
  by simp


text \<open>
  C28. \<open>analyze_tokens\<close> returns one \<open>MorphInfo\<close> per token and leaves a well-formed
  vocabulary in which every returned lemma id is at least 1 and names its lemma.
\<close>

theorem analyze_tokens_vocab:
  assumes "vocab_inv v" "analyze_tokens U ts v = (ms, v')"
  shows "vocab_inv v' \<and> length ms = length ts \<and>
         list_all (\<lambda>m. 1 \<le> mi_lemma_id m \<and> get_str v' (mi_lemma_id m) = mi_lemma m) ms"
  using analyze_tokens_wf [OF assms] by (auto simp: list_all_iff)

theorem analyze_tokens_vocab_witness:
  "vocab_inv (snd (analyze_tokens ascii_ucd [\<lparr>tok_idx = 0, tok_text = ascii ''Is'', tok_start = 0,
      tok_end = 2, tok_flags = 1\<rparr>] Vocab_init)) \<and>
   length (fst (analyze_tokens ascii_ucd [\<lparr>tok_idx = 0, tok_text = ascii ''Is'', tok_start = 0,
      tok_end = 2, tok_flags = 1\<rparr>] Vocab_init)) = 1"
  using analyze_tokens_vocab [OF vocab_init_inv, of ascii_ucd
      "[\<lparr>tok_idx = 0, tok_text = ascii ''Is'', tok_start = 0, tok_end = 2, tok_flags = 1\<rparr>]"
      "fst (analyze_tokens ascii_ucd [\<lparr>tok_idx = 0, tok_text = ascii ''Is'', tok_start = 0,
         tok_end = 2, tok_flags = 1\<rparr>] Vocab_init)"
      "snd (analyze_tokens ascii_ucd [\<lparr>tok_idx = 0, tok_text = ascii ''Is'', tok_start = 0,
         tok_end = 2, tok_flags = 1\<rparr>] Vocab_init)"]
  by simp

lemma ed_not_ing: "\<not> endswith (s @ ascii ''ed'') (ascii ''ing'')"
  by (cases s rule: rev_cases) (simp_all add: endswith_def ascii_def)

lemma endswith_append: "endswith (s @ t) t"
  by (simp add: endswith_def)

text \<open>
  C29. The suffix stripper removes exactly the suffix: for every stem \<open>s\<close> of at least
  two characters, \<open>_lemma_guess(s + "ing")\<close> and \<open>_lemma_guess(s + "ed")\<close> are \<open>s\<close>. It
  guards only \<open>-ss\<close>, so a doubled final consonant stays: \<open>"running"\<close> gives \<open>"runn"\<close>.
\<close>

theorem lemma_guess_strips_suffix:
  "1 < length s \<Longrightarrow> lemma_guess (s @ ascii ''ing'') = s \<and> lemma_guess (s @ ascii ''ed'') = s"
proof -
  have l: "length (ascii ''ing'') = 3" "length (ascii ''ed'') = 2" by (simp_all add: ascii_def)
  assume "1 < length s"
  then show ?thesis using ed_not_ing[of s] by (simp add: lemma_guess_def endswith_append l)
qed

lemma lemma_guess_strips_suffix_witness:
  "1 < length (ascii ''runn'') \<and> lemma_guess (ascii ''running'') = ascii ''runn''
   \<and> lemma_guess (ascii ''runned'') = ascii ''runn''"
  using lemma_guess_strips_suffix[of "ascii ''runn''"] by (simp add: ascii_def)

text \<open>
  C30. \<open>annotate_graph\<close> changes only the first \<open>min(len(nodes), len(tokens),
  len(morphs))\<close> nodes, each by \<open>annotate_node\<close> (sub type := POS code, label id := lemma
  id, stop bit added for stop words); the other nodes, the edges and the header stay.
\<close>

theorem annotate_graph_spec:
  "length (nodes (annotate_graph g toks ms)) = length (nodes g) \<and>
   (\<forall>i < length (nodes g). nodes (annotate_graph g toks ms) ! i =
      (if i < min (length toks) (length ms) then annotate_node (nodes g ! i) (ms ! i) else nodes g ! i)) \<and>
   edges (annotate_graph g toks ms) = edges g \<and>
   annotate_graph g toks ms\<lparr>nodes := nodes g\<rparr> = g"
  using annotate_graph_nodes [of g toks ms] by (simp add: annotate_graph_def Let_def)

theorem annotate_graph_spec_witness:
  "nodes (annotate_graph (tokens_to_graph ascii_ucd (ascii ''Hi'') 0 0 1) []
      [\<lparr>mi_lemma = ascii ''hi'', mi_lemma_id = 1, mi_pos = POS_NOUN, mi_bits = 1, mi_is_stop = False\<rparr>]) =
   nodes (tokens_to_graph ascii_ucd (ascii ''Hi'') 0 0 1)"
  using annotate_graph_spec [of "tokens_to_graph ascii_ucd (ascii ''Hi'') 0 0 1" "[]"
      "[\<lparr>mi_lemma = ascii ''hi'', mi_lemma_id = 1, mi_pos = POS_NOUN, mi_bits = 1, mi_is_stop = False\<rparr>]"]
  by (simp add: list_eq_iff_nth_eq)

end
