(* ===== verification/Pipeline.thy ===== *)
theory Pipeline
  imports Codec Sentences Morph
begin

text \<open>
  Properties that span components: the token graph of \<open>tokens_to_graph\<close> is within the
  ranges of the \<open>.pgraph\<close> codec and survives an encode/decode round trip.
\<close>

lemma roundtrip_of_ok:
  "graph_ok g \<Longrightarrow> \<exists>bs. encode_pgraph g = Inr bs \<and> decode_pgraph bs = Inr g"
  using encode_pgraph_ok [of g] decode_pgraph_encoded [of g _ "[]"] by fastforce

lemma tokenize_count_le: "length (tokenize U text) \<le> length text"
  using tokenize_wf [of U "text"] tokens_length_le by blast

lemma tokenize_end_le: "t \<in> set (tokenize U text) \<Longrightarrow> tok_end t \<le> length text"
  using tokenize_wf [of U "text"] by (auto simp: list_all_iff token_ok_def)

lemma tokens_to_graph_ok:
  assumes "length text < 2 ^ 70" "varint_ok gid" "varint_ok src" "varint_ok ver"
  shows "graph_ok (tokens_to_graph U text gid src ver)"
proof -
  let ?toks = "tokenize U text"
  have "length ?toks < 2 ^ 70"
    using tokenize_count_le [of U "text"] assms(1) by linarith
  then have n: "int (length ?toks) < 2 ^ 70"
    by (metis of_nat_less_iff of_nat_numeral of_nat_power)
  have nodes: "list_all node_ok (map2 token_node [0..<length ?toks] ?toks)"
  proof -
    have "node_ok (token_node j t)" if "j < length ?toks" "t \<in> set ?toks" for j t
    proof -
      have "tok_start t < tok_end t" "tok_end t \<le> length text"
        using that(2) tokenize_wf [of U "text"] by (auto simp: list_all_iff token_ok_def)
      then show ?thesis
        using that(1) n assms(1) token_node_flags_bound [of "tok_flags t"]
        by (simp add: node_ok_def token_node_def varint_ok_def u8_ok_def u16_ok_def)
    qed
    then show ?thesis
      using nth_mem [of _ ?toks] by (auto simp: map2_upt0_nth list_all_iff)
  qed
  have edges: "list_all edge_ok (map (\<lambda>j. next_edge (int j, int (Suc j))) [0..<length ?toks - 1])"
    using n by (auto simp: list_all_iff edge_ok_def next_edge_def varint_ok_def u8_ok_def u16_ok_def
        edge_flag_defs)
  show ?thesis
    using assms n nodes edges
    by (simp add: graph_ok_def tokens_to_graph_eq Let_def counts_match_def varint_ok_def u8_ok_def)
qed


text \<open>
  C17. The token graph of any text shorter than \<open>2^70\<close> code points, with graph id,
  source id and version in the varint range, is encoded by \<open>encode_pgraph\<close> without
  error and \<open>decode_pgraph\<close> gives it back field for field: tokenizer, builder and
  codec compose.
\<close>

theorem tokens_to_graph_roundtrip:
  assumes "length text < 2 ^ 70" "varint_ok gid" "varint_ok src" "varint_ok ver"
  shows "\<exists>bs. encode_pgraph (tokens_to_graph U text gid src ver) = Inr bs \<and>
             decode_pgraph bs = Inr (tokens_to_graph U text gid src ver)"
  using tokens_to_graph_ok [OF assms] by (rule roundtrip_of_ok)

theorem tokens_to_graph_roundtrip_witness:
  "\<exists>bs. encode_pgraph (tokens_to_graph ascii_ucd (ascii ''Hi.'') 0 0 1) = Inr bs \<and>
        decode_pgraph bs = Inr (tokens_to_graph ascii_ucd (ascii ''Hi.'') 0 0 1)"
  using tokens_to_graph_roundtrip [of "ascii ''Hi.''" 0 0 1 ascii_ucd]
  by (simp add: varint_ok_def ascii_def)


text \<open>
  \<open>src/brain/language/tester.py\<close>: tokenize, build the token graph, analyse the tokens
  with a fresh vocabulary and annotate the graph.
\<close>

definition tester :: "ucd \<Rightarrow> ustr \<Rightarrow> Graph" where
  "tester U text =
     (let toks = tokenize U text;
          g = tokens_to_graph U text 0 0 1;
          v = Vocab_init;
          (m, v) = analyze_tokens U toks v
      in annotate_graph g toks m)"

lemma annotate_node_ok:
  "node_ok n \<Longrightarrow> varint_ok (mi_lemma_id mi) \<Longrightarrow> node_ok (annotate_node n mi)"
proof -
  assume n: "node_ok n" and l: "varint_ok (mi_lemma_id mi)"
  have "0 \<le> POS_code p \<and> POS_code p < 256" for p by (cases p) simp_all
  moreover have "n_flags n OR NF_IS_STOP < 2 ^ 16" "0 \<le> n_flags n OR NF_IS_STOP"
    using n OR_upper [of "n_flags n" 16 NF_IS_STOP]
    by (simp_all add: node_ok_def u16_ok_def NF_IS_STOP_def)
  ultimately show ?thesis
    using n l by (simp add: annotate_node_def Let_def node_ok_def u8_ok_def u16_ok_def)
qed

lemma annotate_graph_ok:
  "graph_ok g \<Longrightarrow> list_all (\<lambda>m. varint_ok (mi_lemma_id m)) ms \<Longrightarrow> graph_ok (annotate_graph g toks ms)"
  by (auto simp: graph_ok_def annotate_graph_def Let_def counts_match_def list_all_iff
      intro!: annotate_node_ok dest!: set_zip_leftD set_zip_rightD set_take_subset [THEN subsetD]
      elim!: in_set_zipE dest: in_set_takeD in_set_dropD)


lemma tester_ok:
  assumes "length text < 2 ^ 70"
  shows "graph_ok (tester U text)"
proof -
  obtain ms v' where a: "analyze_tokens U (tokenize U text) Vocab_init = (ms, v')" by fastforce
  have g: "graph_ok (tokens_to_graph U text 0 0 1)"
    using assms by (intro tokens_to_graph_ok) (simp_all add: varint_ok_def)
  have wf: "list_all (\<lambda>m. 1 \<le> mi_lemma_id m \<and> mi_lemma_id m \<le> int (length (id2tok v'))) ms"
    using analyze_tokens_wf [OF vocab_init_inv a] by (auto simp: list_all_iff)
  have "length (id2tok v') < 2 ^ 70"
    using analyze_tokens_size [OF a] tokenize_count_le [of U "text"] assms
    by (simp add: Vocab_init_def)
  then have "int (length (id2tok v')) < 2 ^ 70"
    by (metis of_nat_less_iff of_nat_numeral of_nat_power)
  with wf have "list_all (\<lambda>m. varint_ok (mi_lemma_id m)) ms"
    by (auto simp: list_all_iff varint_ok_def)
  with g a show ?thesis
    by (simp add: tester_def Let_def annotate_graph_ok)
qed

text \<open>
  \<open>tester.py\<close> on \<open>"Are you okay?"\<close>: the annotated token graph has label ids
  1-4 (\<open>be\<close>, \<open>you\<close>, \<open>okay\<close>, \<open>?\<close> interned in order), sub types AUX, PRON, NOUN,
  PUNCT (13, 5, 1, 10), and node flags capitalised+stop (6), stop (2), none (0),
  punctuation+strong end (72).
\<close>

theorem tester_example:
  "map (\<lambda>n. (label_id n, sub_type n, n_flags n)) (nodes (tester ascii_ucd (ascii ''Are you okay?''))) =
   [(1, 13, 6), (2, 5, 2), (3, 1, 0), (4, 10, 72)]"
  by (simp add: tester_def tokens_to_graph_eq token_node_def token_node_flags_def annotate_graph_def
      annotate_node_def node_flag_defs morph_eval tokenizer_eval
      cong: option.case_cong_weak list.case_cong_weak prod.case_cong_weak)

text \<open>
  C32. The whole pipeline of \<open>tester.py\<close> (tokenize, token graph, analysis, annotation)
  yields, for every text shorter than \<open>2^70\<close> code points, a graph that the codec
  encodes without error and decodes back unchanged.
\<close>

theorem tester_roundtrip:
  assumes "length text < 2 ^ 70"
  shows "\<exists>bs. encode_pgraph (tester U text) = Inr bs \<and> decode_pgraph bs = Inr (tester U text)"
  using tester_ok [OF assms] by (rule roundtrip_of_ok)

theorem tester_roundtrip_witness:
  "\<exists>bs. encode_pgraph (tester ascii_ucd (ascii ''Are you okay?'')) = Inr bs \<and>
        decode_pgraph bs = Inr (tester ascii_ucd (ascii ''Are you okay?''))"
  using tester_roundtrip [of "ascii ''Are you okay?''" ascii_ucd] by (simp add: ascii_def)

end
