(* ===== verification/Json.thy ===== *)
theory Json
  imports Morph "HOL-Library.List_Lexorder"
begin

text \<open>
  The Python values the dictionary tools of \<open>src/memory/adapters\<close> pass around: a JSON
  document as \<open>json.load\<close> returns it (\<open>dict\<close> as an association list in insertion order,
  \<open>list\<close>, \<open>str\<close>, \<open>int\<close>, \<open>bool\<close>, \<open>None\<close>), its truth value, \<open>dict.get\<close> and item
  assignment, the comparison of two documents through \<open>json.dumps(..., sort_keys=True)\<close>,
  the exceptions those tools can raise, and the \<open>str.strip\<close> family over Python's
  whitespace class.
\<close>

datatype json = JNull | JBool bool | JInt int | JStr ustr | JList "json list"
  | JDict "(ustr \<times> json) list"

datatype py_exc = AttributeError | TypeError | NameError | KeyError | OperationalError
  | ProgrammingError | JSONDecodeError | OSError | ValueError

text \<open>Truth value of a JSON value (\<open>bool(v)\<close>).\<close>

fun py_truthy :: "json \<Rightarrow> bool" where
  "py_truthy JNull = False"
| "py_truthy (JBool b) = b"
| "py_truthy (JInt i) = (i \<noteq> 0)"
| "py_truthy (JStr s) = (s \<noteq> [])"
| "py_truthy (JList xs) = (xs \<noteq> [])"
| "py_truthy (JDict kv) = (kv \<noteq> [])"

text \<open>\<open>d.get(k)\<close> and \<open>d[k] = v\<close>: an existing key keeps its position, a new key is appended.\<close>

definition dict_get :: "('k \<times> 'v) list \<Rightarrow> 'k \<Rightarrow> 'v option" where
  "dict_get kv k = map_of kv k"

definition dict_set :: "('k \<times> 'v) list \<Rightarrow> 'k \<Rightarrow> 'v \<Rightarrow> ('k \<times> 'v) list" where
  "dict_set kv k v =
     (if k \<in> fst ` set kv then map (\<lambda>(k', v'). if k' = k then (k', v) else (k', v')) kv
      else kv @ [(k, v)])"

text \<open>\<open>d.get(k) or default\<close>.\<close>

definition get_or :: "(ustr \<times> json) list \<Rightarrow> ustr \<Rightarrow> json \<Rightarrow> json" where
  "get_or kv k dflt = (case dict_get kv k of Some v \<Rightarrow> if py_truthy v then v else dflt | None \<Rightarrow> dflt)"

text \<open>
  \<open>json.dumps(v, sort_keys=True)\<close> is injective on the values above once every
  dictionary has its keys sorted, so comparing two dumps compares the normal forms.
\<close>

fun json_norm :: "json \<Rightarrow> json" where
  "json_norm (JList xs) = JList (map json_norm xs)"
| "json_norm (JDict kv) = JDict (sort_key fst (map (\<lambda>p. (fst p, json_norm (snd p))) kv))"
| "json_norm v = v"

definition same_dump :: "json \<Rightarrow> json \<Rightarrow> bool" where
  "same_dump a b \<longleftrightarrow> json_norm a = json_norm b"

text \<open>\<open>str.strip\<close>, \<open>str.lstrip\<close>, \<open>str.rstrip\<close> without arguments.\<close>

definition py_lstrip :: "ustr \<Rightarrow> ustr" where
  "py_lstrip s = dropWhile py_isspace s"

definition py_rstrip :: "ustr \<Rightarrow> ustr" where
  "py_rstrip s = rev (dropWhile py_isspace (rev s))"

definition py_strip :: "ustr \<Rightarrow> ustr" where
  "py_strip s = py_rstrip (py_lstrip s)"

text \<open>Python's \<open>dict\<close> used as an ordered map: \<open>d.setdefault(k, v)\<close>.\<close>

definition setdefault :: "('k \<times> 'v) list \<Rightarrow> 'k \<Rightarrow> 'v \<Rightarrow> ('k \<times> 'v) list" where
  "setdefault d k v = (if k \<in> fst ` set d then d else d @ [(k, v)])"

lemmas json_eval = dict_get_def dict_set_def get_or_def same_dump_def py_lstrip_def py_rstrip_def
  py_strip_def setdefault_def

lemma map_of_replace:
  "map_of (map (\<lambda>(k', v'). if k' = k then (k', v) else (k', v')) kv) k' =
   (if k' = k then map_option (\<lambda>_. v) (map_of kv k) else map_of kv k')"
  by (induction kv) auto

lemma dict_get_set [simp]:
  "dict_get (dict_set kv k v) k' = (if k' = k then Some v else dict_get kv k')"
proof (cases "k \<in> fst ` set kv")
  case True
  then obtain w where "map_of kv k = Some w"
    by (metis map_of_eq_None_iff not_Some_eq)
  with True show ?thesis by (simp add: dict_get_def dict_set_def map_of_replace)
next
  case False
  then have "map_of kv k = None" by (simp add: map_of_eq_None_iff)
  with False show ?thesis by (auto simp: dict_get_def dict_set_def map_add_def split: option.split)
qed

lemma dict_set_keys [simp]:
  "map fst (dict_set kv k v) = (if k \<in> fst ` set kv then map fst kv else map fst kv @ [k])"
  by (induction kv) (auto simp: dict_set_def split: prod.splits)

lemma setdefault_keys [simp]:
  "map fst (setdefault d k v) = (if k \<in> fst ` set d then map fst d else map fst d @ [k])"
  by (simp add: setdefault_def)

lemma setdefault_distinct [intro]: "distinct (map fst d) \<Longrightarrow> distinct (map fst (setdefault d k v))"
  by (auto simp: setdefault_def)

text \<open>
  Iteration over a value (\<open>for x in v\<close>): a list yields its items, a dict its keys, a
  string its one-character strings; any other value raises \<open>TypeError\<close>.
\<close>

fun py_iter :: "json \<Rightarrow> py_exc + json list" where
  "py_iter (JList xs) = Inr xs"
| "py_iter (JDict kv) = Inr (map (\<lambda>p. JStr (fst p)) kv)"
| "py_iter (JStr s) = Inr (map (\<lambda>c. JStr [c]) s)"
| "py_iter _ = Inl TypeError"

text \<open>A list comprehension over results: the first exception propagates.\<close>

fun seq_sum :: "('e + 'a) list \<Rightarrow> 'e + 'a list" where
  "seq_sum [] = Inr []"
| "seq_sum (Inl e # _) = Inl e"
| "seq_sum (Inr a # xs) = (case seq_sum xs of Inl e \<Rightarrow> Inl e | Inr as \<Rightarrow> Inr (a # as))"

lemma seq_sum_map_Inr [simp]: "seq_sum (map (\<lambda>x. Inr (f x)) xs) = Inr (map f xs)"
  by (induction xs) auto

lemma py_iter_size: "py_iter v = Inr ys \<Longrightarrow> x \<in> set ys \<Longrightarrow> size x \<le> size v"
proof (cases v)
  case (JList xs)
  moreover assume "py_iter v = Inr ys" "x \<in> set ys"
  ultimately show ?thesis by (auto intro: size_list_estimation' order.refl le_SucI)
next
  case (JDict kv)
  moreover assume "py_iter v = Inr ys" "x \<in> set ys"
  ultimately obtain p where "p \<in> set kv" "x = JStr (fst p)" by auto
  then show ?thesis using JDict
    by (cases p) (auto intro!: size_list_estimation')
next
  case (JStr s)
  moreover assume "py_iter v = Inr ys" "x \<in> set ys"
  ultimately obtain c where "c \<in> set s" "x = JStr [c]" by auto
  then show ?thesis using JStr by (auto intro!: size_list_estimation')
qed auto

lemma dict_get_size: "dict_get kv k = Some v \<Longrightarrow> size v < size (JDict kv)"
  unfolding dict_get_def
  by (induction kv) (auto split: if_splits)

lemma size_dict_value: "(k, v) \<in> set kv \<Longrightarrow> size v < size (JDict kv)"
  by (induction kv) auto

lemma size_list_item: "x \<in> set xs \<Longrightarrow> size x < size (JList xs)"
  by (induction xs) auto

lemma size_dict_list_item: "(k, JList xs) \<in> set kv \<Longrightarrow> x \<in> set xs \<Longrightarrow> size x < size (JDict kv)"
  by (meson less_trans size_dict_value size_list_item)

lemma size_dict_dict: "(k, JDict kv') \<in> set kv \<Longrightarrow> size (JDict kv') < size (JDict kv)"
  by (rule size_dict_value)

lemma size_dict_jlist: "(k, JList xs) \<in> set kv \<Longrightarrow> size (JList xs) < size (JDict kv)"
  by (rule size_dict_value)

lemmas json_size_rules = size_dict_value[simplified] size_list_item[simplified]
  size_dict_list_item[simplified] size_dict_dict[simplified] size_dict_jlist[simplified]

text \<open>A \<open>for\<close> loop whose body may raise: the first exception ends it.\<close>

fun foldM :: "('a \<Rightarrow> 'b \<Rightarrow> 'e + 'a) \<Rightarrow> 'b list \<Rightarrow> 'a \<Rightarrow> 'e + 'a" where
  "foldM f [] a = Inr a"
| "foldM f (x # xs) a = (case f a x of Inl e \<Rightarrow> Inl e | Inr a' \<Rightarrow> foldM f xs a')"

lemma foldM_Cons_Inr [simp]: "f a x = Inr a' \<Longrightarrow> foldM f (x # xs) a = foldM f xs a'"
  by simp

lemma foldM_append: "foldM f (xs @ ys) a = sum_bind (foldM f xs a) (foldM f ys)"
  by (induction xs arbitrary: a) (auto split: sum.splits)

lemma foldM_invariant:
  assumes step: "\<And>a x a'. P a \<Longrightarrow> x \<in> set xs \<Longrightarrow> f a x = Inr a' \<Longrightarrow> P a'"
    and "P a" and "foldM f xs a = Inr b"
  shows "P b"
  using assms(2,3) step
proof (induction xs arbitrary: a)
  case Nil
  then show ?case by simp
next
  case (Cons x xs)
  from Cons.prems(2) obtain a' where fa: "f a x = Inr a'" and rest: "foldM f xs a' = Inr b"
    by (auto split: sum.splits)
  have "P a'" using Cons.prems(3)[OF Cons.prems(1) _ fa] by simp
  then show ?case using Cons.IH rest Cons.prems(3) by (meson list.set_intros(2))
qed

text \<open>Lookups after updates, appends and removals, and one-step loops.\<close>

lemma dict_get_in_keys: "dict_get kv k = Some v \<Longrightarrow> k \<in> set (map fst kv)"
  by (auto simp: dict_get_def dest: map_of_SomeD intro: rev_image_eqI)

lemma dict_set_twice [simp]: "dict_set (dict_set kv k v) k v = dict_set kv k v"
proof (cases "k \<in> fst ` set kv")
  case True
  have "k \<in> set (map fst (dict_set kv k v))"
    by (rule dict_get_in_keys[where v = v]) simp
  then have m: "k \<in> fst ` set (dict_set kv k v)" by (simp only: set_map)
  have "map (\<lambda>(k', v'). if k' = k then (k', v) else (k', v'))
          (map (\<lambda>(k', v'). if k' = k then (k', v) else (k', v')) kv)
        = map (\<lambda>(k', v'). if k' = k then (k', v) else (k', v')) kv"
    by (induction kv) auto
  then show ?thesis using True m unfolding dict_set_def by simp
next
  case False
  then have "map (\<lambda>(k', v'). if k' = k then (k', v) else (k', v')) kv = kv"
    by (induction kv) auto
  with False show ?thesis by (simp add: dict_set_def)
qed

lemma dict_get_snoc: "dict_get (kv @ [(k, v)]) k' = (case dict_get kv k' of None \<Rightarrow> if k' = k then Some v else None | Some w \<Rightarrow> Some w)"
  by (simp add: dict_get_def map_of_append map_add_def split: option.split)

lemma dict_get_snoc_new:
  "dict_get kv k = None \<Longrightarrow> dict_get (kv @ [(k, v)]) r = (if r = k then Some v else dict_get kv r)"
  by (simp add: dict_get_snoc split: option.split)

lemma dict_get_filter_neq: "dict_get (filter (\<lambda>e. fst e \<noteq> p) kv) q = (if q = p then None else dict_get kv q)"
  by (induction kv) (auto simp: dict_get_def)

lemma foldM_single: "foldM f [x] a = f a x"
  by (cases "f a x") auto

lemma seq_sum_snoc:
  "seq_sum xs = Inr as \<Longrightarrow> seq_sum (xs @ [Inr b]) = Inr (as @ [b])"
  by (induction xs arbitrary: as rule: seq_sum.induct) (auto split: sum.splits)

lemma dict_get_single: "dict_get [(k, v)] k' = (if k' = k then Some v else None)"
  by (simp add: dict_get_def)

end
