(* ===== verification/Labels.thy ===== *)
theory Labels
  imports Json
begin

text \<open>
  The offline label enricher \<open>src/memory/adapters/language/dictionary_label_enricher.py\<close>
  and the inline copies of its per-definition step in \<open>wiktionary_to_db.py\<close> and
  \<open>wiktionary_scraper.py\<close>. The three regular expressions are modelled as the matchers
  Python's engine makes of them (leftmost match, greedy and lazy repetition as written);
  a definition object is a \<open>json\<close> value and every \<open>AttributeError\<close> or \<open>TypeError\<close> the
  code can raise on a malformed one is a value of \<open>py_exc\<close>.
\<close>

section \<open>Label extraction\<close>

text \<open>
  \<open>_LEAD_PAREN_RE = ^\(\s*([^)]*?)\s*\)\s*\<close>, matched at the start: the group is the
  text up to the first \<open>)\<close> without its surrounding whitespace (the greedy \<open>\s*\<close> takes the
  leading run, the lazy group stops where only whitespace is left before \<open>)\<close>); the match
  ends after the whitespace that follows \<open>)\<close>. Returns the group and the match end.
\<close>

definition lead_paren_match :: "ustr \<Rightarrow> (ustr \<times> nat) option" where
  "lead_paren_match s =
     (case s of
        [] \<Rightarrow> None
      | c # r \<Rightarrow>
          if c \<noteq> 40 then None
          else (let body = takeWhile (\<lambda>x. x \<noteq> 41) r
                in if length body < length r
                   then Some (py_strip body,
                              length body + 2 + run_len py_isspace (drop (Suc (length body)) r))
                   else None))"

lemma lead_paren_match_end: "lead_paren_match s = Some (g, e) \<Longrightarrow> 0 < e \<and> e \<le> length s"
proof -
  assume m: "lead_paren_match s = Some (g, e)"
  then obtain r where s: "s = 40 # r"
    by (auto simp: lead_paren_match_def split: list.splits if_splits)
  define n where "n = length (takeWhile (\<lambda>x. x \<noteq> 41) r)"
  have tw: "length (takeWhile py_isspace (drop (Suc n) r)) \<le> length r - Suc n"
    using length_takeWhile_le[of py_isspace "drop (Suc n) r"] by simp
  from m s have "n < length r" "e = n + 2 + length (takeWhile py_isspace (drop (Suc n) r))"
    by (auto simp: lead_paren_match_def run_len_def Let_def n_def split: if_splits)
  with tw s show ?thesis by simp
qed

function extract_groups_loop :: "ustr \<Rightarrow> ustr \<times> ustr list" where
  "extract_groups_loop rest =
     (case lead_paren_match rest of
        None \<Rightarrow> (rest, [])
      | Some (g, e) \<Rightarrow> (let (r, gs) = extract_groups_loop (drop e rest) in (r, g # gs)))"
  by pat_completeness auto
termination
  by (relation "measure length") (auto dest: lead_paren_match_end)

declare extract_groups_loop.simps [simp del]

lemma extract_groups_loop_None: "lead_paren_match rest = None \<Longrightarrow> extract_groups_loop rest = (rest, [])"
  by (simp add: extract_groups_loop.simps)

lemma extract_groups_loop_Some:
  "lead_paren_match rest = Some (g, e) \<Longrightarrow>
   extract_groups_loop rest = (fst (extract_groups_loop (drop e rest)), g # snd (extract_groups_loop (drop e rest)))"
  by (simp add: extract_groups_loop.simps split: prod.split)

definition extract_leading_groups :: "ustr \<Rightarrow> ustr \<times> ustr list" where
  "extract_leading_groups text = extract_groups_loop (py_strip text)"

text \<open>
  \<open>_TRAIL_BRACKET_RE = \s*\[([^\]]+)\]\s*$\<close>, searched: the closing bracket is the last
  non-space character; the opening one is the first \<open>[\<close> after the \<open>]\<close> before it, with
  at least one character between; the match starts at the whitespace run before \<open>[\<close>.
  Returns the start of the match and the raw group.
\<close>

definition trail_bracket_search :: "ustr \<Rightarrow> (nat \<times> ustr) option" where
  "trail_bracket_search text =
     (let t = py_rstrip text in
      if t = [] \<or> last t \<noteq> 93 then None
      else (let body = butlast t;
                pre = length body - length (takeWhile (\<lambda>x. x \<noteq> 93) (rev body));
                region = drop pre body;
                k = length (takeWhile (\<lambda>x. x \<noteq> 91) region)
            in if length region \<le> Suc k then None
               else Some (length (py_rstrip (take (pre + k) text)), drop (Suc k) region)))"

definition extract_trailing_bracket :: "ustr \<Rightarrow> ustr \<times> ustr option" where
  "extract_trailing_bracket text =
     (case trail_bracket_search text of
        None \<Rightarrow> (text, None)
      | Some (st, g) \<Rightarrow> (py_rstrip (take st text), Some (py_strip g)))"

text \<open>
  \<open>_SPLIT_RE = \s*(?:,|;|/|\band\b)\s*\<close> with \<open>IGNORECASE\<close>: a separator is one of
  \<open>, ; /\<close> or the word \<open>and\<close> in any case between word boundaries (\<open>\w\<close> is
  \<open>str.isalnum\<close> or \<open>_\<close>), with the whitespace around it.
\<close>

definition is_word_char :: "ucd \<Rightarrow> uchar \<Rightarrow> bool" where
  "is_word_char U c \<longleftrightarrow> u_isalnum U c \<or> c = 95"

definition sep_core :: "ucd \<Rightarrow> ustr \<Rightarrow> nat \<Rightarrow> nat option" where
  "sep_core U g j =
     (if j < length g \<and> g ! j \<in> {44, 59, 47} then Some 1
      else if j + 3 \<le> length g \<and> g ! j \<in> {97, 65} \<and> g ! (j + 1) \<in> {110, 78}
              \<and> g ! (j + 2) \<in> {100, 68}
              \<and> (j = 0 \<or> \<not> is_word_char U (g ! (j - 1)))
              \<and> (j + 3 = length g \<or> \<not> is_word_char U (g ! (j + 3)))
           then Some 3
      else None)"

definition split_match :: "ucd \<Rightarrow> ustr \<Rightarrow> nat \<Rightarrow> nat option" where
  "split_match U g i =
     (let j = i + run_len py_isspace (drop i g) in
      case sep_core U g j of
        None \<Rightarrow> None
      | Some l \<Rightarrow> Some (j + l + run_len py_isspace (drop (j + l) g) - i))"

lemma split_match_pos: "split_match U g i = Some l \<Longrightarrow> 0 < l"
  by (auto simp: split_match_def sep_core_def Let_def split: option.splits if_splits)

text \<open>\<open>re.split\<close>: the pieces between the leftmost non-overlapping matches.\<close>

function re_split :: "ucd \<Rightarrow> ustr \<Rightarrow> nat \<Rightarrow> nat \<Rightarrow> ustr list" where
  "re_split U g start i =
     (if length g \<le> i then [drop start g]
      else case split_match U g i of
             None \<Rightarrow> re_split U g start (Suc i)
           | Some l \<Rightarrow> take (i - start) (drop start g) # re_split U g (i + l) (i + l))"
  by pat_completeness auto
termination
  by (relation "measure (\<lambda>(U, g, start, i). length g - i)") (auto dest: split_match_pos)

declare re_split.simps [simp del]

lemma re_split_end: "length g \<le> i \<Longrightarrow> re_split U g start i = [drop start g]"
  by (simp add: re_split.simps)

lemma re_split_skip:
  "i < length g \<Longrightarrow> split_match U g i = None \<Longrightarrow> re_split U g start i = re_split U g start (Suc i)"
  by (simp add: re_split.simps)

lemma re_split_cut:
  "i < length g \<Longrightarrow> split_match U g i = Some l \<Longrightarrow>
   re_split U g start i = take (i - start) (drop start g) # re_split U g (i + l) (i + l)"
  by (simp add: re_split.simps)

definition tokenize_groups :: "ucd \<Rightarrow> ustr list \<Rightarrow> ustr list" where
  "tokenize_groups U groups =
     concat (map (\<lambda>g. let parts = filter (\<lambda>p. p \<noteq> []) (map py_strip (re_split U g 0 0))
                      in if parts \<noteq> [] then parts else [py_strip g]) groups)"

section \<open>Enriching one definition object\<close>

text \<open>\<open>(d.get("definition") or "").strip()\<close>: a non-string value has no \<open>strip\<close>.\<close>

definition definition_raw :: "(ustr \<times> json) list \<Rightarrow> py_exc + ustr" where
  "definition_raw kv =
     (case get_or kv (ascii ''definition'') (JStr []) of
        JStr s \<Rightarrow> Inr (py_strip s)
      | _ \<Rightarrow> Inl AttributeError)"

fun is_jlist :: "json option \<Rightarrow> bool" where
  "is_jlist (Some (JList _)) = True"
| "is_jlist _ = False"

text \<open>
  \<open>if d.get("subdefinitions"): d["subdefinitions"] = [f(sd) for sd in d["subdefinitions"]]\<close>,
  for a per-definition step \<open>f\<close>. The value is read from the dictionary as it was on entry:
  the assignments before it touch only the keys \<open>labels\<close>, \<open>label_groups\<close>,
  \<open>dating_raw\<close> and \<open>definition\<close>.
\<close>

definition recurse_subdefs ::
  "(json \<Rightarrow> py_exc + json) \<Rightarrow> json option \<Rightarrow> (ustr \<times> json) list \<Rightarrow> py_exc + json" where
  "recurse_subdefs f subs kv =
     (case subs of
        Some v \<Rightarrow>
          if py_truthy v then
            (case py_iter v of
               Inl e \<Rightarrow> Inl e
             | Inr xs \<Rightarrow>
                 (case seq_sum (map f xs) of
                    Inl e \<Rightarrow> Inl e
                  | Inr ys \<Rightarrow> Inr (JDict (dict_set kv (ascii ''subdefinitions'') (JList ys)))))
          else Inr (JDict kv)
      | None \<Rightarrow> Inr (JDict kv))"

lemma recurse_subdefs_cong [fundef_cong]:
  "\<lbrakk>subs = subs'; kv = kv';
    \<And>v xs x. subs' = Some v \<Longrightarrow> py_iter v = Inr xs \<Longrightarrow> x \<in> set xs \<Longrightarrow> f x = f' x\<rbrakk>
   \<Longrightarrow> recurse_subdefs f subs kv = recurse_subdefs f' subs' kv'"
proof (cases subs')
  case (Some v)
  assume eq: "subs = subs'" "kv = kv'"
    and f: "\<And>v xs x. subs' = Some v \<Longrightarrow> py_iter v = Inr xs \<Longrightarrow> x \<in> set xs \<Longrightarrow> f x = f' x"
  show ?thesis
  proof (cases "py_iter v")
    case (Inr xs)
    then have "map f xs = map f' xs" using f[OF Some] by simp
    with Some Inr eq show ?thesis by (simp add: recurse_subdefs_def del: map_eq_conv)
  qed (simp add: recurse_subdefs_def Some eq)
qed (simp add: recurse_subdefs_def)

lemma subdef_size:
  "Some v = dict_get kv k \<Longrightarrow> py_iter v = Inr xs \<Longrightarrow> x \<in> set xs \<Longrightarrow> size x < size (JDict kv)"
  by (metis dict_get_size le_less_trans py_iter_size)

text \<open>The fields the enricher writes when it found labels or a dating note.\<close>

definition label_groups_value :: "ustr list \<Rightarrow> json" where
  "label_groups_value groups =
     (if 1 < length groups then JList (map JStr groups)
      else if groups \<noteq> [] then JStr (hd groups) else JNull)"

definition assign_fields ::
  "ucd \<Rightarrow> bool \<Rightarrow> ustr \<Rightarrow> (ustr \<times> json) list \<Rightarrow> (ustr \<times> json) list" where
  "assign_fields U remove raw kv =
     (let (after_groups, groups) = extract_leading_groups raw;
          (after_bracket, dating_raw) = extract_trailing_bracket after_groups;
          tokens = tokenize_groups U groups;
          kv1 = (if tokens \<noteq> []
                 then dict_set (dict_set kv (ascii ''labels'') (JList (map JStr tokens)))
                        (ascii ''label_groups'') (label_groups_value groups)
                 else kv);
          dated = (case dating_raw of Some s \<Rightarrow> s \<noteq> [] | None \<Rightarrow> False);
          kv2 = (if dated then dict_set kv1 (ascii ''dating_raw'') (JStr (the dating_raw)) else kv1)
      in if remove \<and> (groups \<noteq> [] \<or> dated)
         then dict_set kv2 (ascii ''definition'') (JStr after_bracket) else kv2)"

text \<open>\<open>_enrich_def_obj_in_place(d, remove_from_gloss, overwrite)\<close>.\<close>

function enrich_def_obj :: "ucd \<Rightarrow> bool \<Rightarrow> bool \<Rightarrow> json \<Rightarrow> py_exc + json" where
  "enrich_def_obj U remove overwrite d =
     (case d of
        JDict kv \<Rightarrow>
          (let subs = dict_get kv (ascii ''subdefinitions'')
           in if is_jlist (dict_get kv (ascii ''labels'')) \<and> \<not> overwrite
              then recurse_subdefs (enrich_def_obj U remove overwrite) subs kv
              else (case definition_raw kv of
                      Inl e \<Rightarrow> Inl e
                    | Inr raw \<Rightarrow>
                        if raw = [] then recurse_subdefs (enrich_def_obj U remove overwrite) subs kv
                        else recurse_subdefs (enrich_def_obj U remove overwrite) subs
                               (assign_fields U remove raw kv)))
      | _ \<Rightarrow> Inl AttributeError)"
  by pat_completeness auto
termination
  by (relation "measure (\<lambda>(U, r, ow, d). size d)")
     (auto simp: Let_def dest: subdef_size)

declare enrich_def_obj.simps [simp del]

section \<open>The inline copies in the Wiktionary importers\<close>

text \<open>
  \<open>wiktionary_to_db.py\<close> and \<open>wiktionary_scraper.py\<close> assign the fields differently:
  \<open>label_groups\<close> is always the list of groups and is set whenever there are groups.
  The assignments are the same text in both files.
\<close>

definition assign_fields_db ::
  "ucd \<Rightarrow> bool \<Rightarrow> ustr \<Rightarrow> (ustr \<times> json) list \<Rightarrow> (ustr \<times> json) list" where
  "assign_fields_db U remove raw kv =
     (let (after_groups, groups) = extract_leading_groups raw;
          (after_bracket, dating_raw) = extract_trailing_bracket after_groups;
          tokens = tokenize_groups U groups;
          kv1 = (if tokens \<noteq> [] then dict_set kv (ascii ''labels'') (JList (map JStr tokens)) else kv);
          kv2 = (if groups \<noteq> [] then dict_set kv1 (ascii ''label_groups'') (JList (map JStr groups))
                 else kv1);
          dated = (case dating_raw of Some s \<Rightarrow> s \<noteq> [] | None \<Rightarrow> False);
          kv3 = (if dated then dict_set kv2 (ascii ''dating_raw'') (JStr (the dating_raw)) else kv2)
      in if remove \<and> (groups \<noteq> [] \<or> dated)
         then dict_set kv3 (ascii ''definition'') (JStr after_bracket) else kv3)"

text \<open>\<open>_enrich_def_inplace\<close> of \<open>wiktionary_to_db.py\<close>: a non-dict is returned as it is.\<close>

function enrich_def_inplace_db :: "ucd \<Rightarrow> bool \<Rightarrow> json \<Rightarrow> py_exc + json" where
  "enrich_def_inplace_db U remove d =
     (case d of
        JDict kv \<Rightarrow>
          (let subs = dict_get kv (ascii ''subdefinitions'')
           in case definition_raw kv of
                Inl e \<Rightarrow> Inl e
              | Inr raw \<Rightarrow>
                  if raw = [] then recurse_subdefs (enrich_def_inplace_db U remove) subs kv
                  else recurse_subdefs (enrich_def_inplace_db U remove) subs
                         (assign_fields_db U remove raw kv))
      | _ \<Rightarrow> Inr d)"
  by pat_completeness auto
termination
  by (relation "measure (\<lambda>(U, r, d). size d)") (auto simp: Let_def dest: subdef_size)

declare enrich_def_inplace_db.simps [simp del]

text \<open>
  \<open>_enrich_def_inplace\<close> of \<open>wiktionary_scraper.py\<close>: the same steps with the field
  assignment under \<open>if raw:\<close> and one recursion into the subdefinitions after it.
\<close>

function enrich_def_inplace_scr :: "ucd \<Rightarrow> bool \<Rightarrow> json \<Rightarrow> py_exc + json" where
  "enrich_def_inplace_scr U remove d =
     (case d of
        JDict kv \<Rightarrow>
          (let subs = dict_get kv (ascii ''subdefinitions'')
           in case definition_raw kv of
                Inl e \<Rightarrow> Inl e
              | Inr raw \<Rightarrow>
                  recurse_subdefs (enrich_def_inplace_scr U remove) subs
                    (if raw \<noteq> [] then assign_fields_db U remove raw kv else kv))
      | _ \<Rightarrow> Inr d)"
  by pat_completeness auto
termination
  by (relation "measure (\<lambda>(U, r, d). size d)") (auto simp: Let_def dest: subdef_size)

declare enrich_def_inplace_scr.simps [simp del]

text \<open>
  \<open>_enrich_lemma_inplace(lemma_obj)\<close>, for a per-definition step \<open>f\<close>: every block list
  under \<open>entries[*]["pos"]\<close> has its \<open>definitions\<close> replaced by their enrichment. Values
  that are not lists are skipped; a non-dict where the code calls \<open>.get\<close> or
  \<open>.values\<close> raises \<open>AttributeError\<close>.
\<close>

definition enrich_block :: "(json \<Rightarrow> py_exc + json) \<Rightarrow> json \<Rightarrow> py_exc + json" where
  "enrich_block f b =
     (case b of
        JDict kv \<Rightarrow>
          (case py_iter (get_or kv (ascii ''definitions'') (JList [])) of
             Inl e \<Rightarrow> Inl e
           | Inr ds \<Rightarrow>
               (case seq_sum (map f ds) of
                  Inl e \<Rightarrow> Inl e
                | Inr ys \<Rightarrow> Inr (JDict (dict_set kv (ascii ''definitions'') (JList ys)))))
      | _ \<Rightarrow> Inl AttributeError)"

definition enrich_pos_value :: "(json \<Rightarrow> py_exc + json) \<Rightarrow> json \<Rightarrow> py_exc + json" where
  "enrich_pos_value f blocks =
     (case blocks of
        JList bs \<Rightarrow> (case seq_sum (map (enrich_block f) bs) of Inl e \<Rightarrow> Inl e | Inr bs' \<Rightarrow> Inr (JList bs'))
      | _ \<Rightarrow> Inr blocks)"

definition enrich_entry :: "(json \<Rightarrow> py_exc + json) \<Rightarrow> json \<Rightarrow> py_exc + json" where
  "enrich_entry f ent =
     (case ent of
        JDict kv \<Rightarrow>
          (case get_or kv (ascii ''pos'') (JDict []) of
             JDict pm \<Rightarrow>
               if pm = [] then Inr ent
               else (case seq_sum (map (\<lambda>p. case enrich_pos_value f (snd p) of
                                              Inl e \<Rightarrow> Inl e | Inr v \<Rightarrow> Inr (fst p, v)) pm) of
                       Inl e \<Rightarrow> Inl e
                     | Inr pm' \<Rightarrow> Inr (JDict (dict_set kv (ascii ''pos'') (JDict pm'))))
           | _ \<Rightarrow> Inl AttributeError)
      | _ \<Rightarrow> Inl AttributeError)"

definition enrich_lemma_with :: "(json \<Rightarrow> py_exc + json) \<Rightarrow> json \<Rightarrow> py_exc + json" where
  "enrich_lemma_with f obj =
     (case obj of
        JDict kv \<Rightarrow>
          (let es = get_or kv (ascii ''entries'') (JList [])
           in case py_iter es of
                Inl e \<Rightarrow> Inl e
              | Inr ents \<Rightarrow>
                  (case seq_sum (map (enrich_entry f) ents) of
                     Inl e \<Rightarrow> Inl e
                   | Inr ents' \<Rightarrow>
                       (case es of
                          JList (_ # _) \<Rightarrow> Inr (JDict (dict_set kv (ascii ''entries'') (JList ents')))
                        | _ \<Rightarrow> Inr obj)))
      | _ \<Rightarrow> Inl AttributeError)"

definition enrich_lemma_inplace_db :: "ucd \<Rightarrow> json \<Rightarrow> py_exc + json" where
  "enrich_lemma_inplace_db U = enrich_lemma_with (enrich_def_inplace_db U True)"

definition enrich_lemma_inplace_scr :: "ucd \<Rightarrow> json \<Rightarrow> py_exc + json" where
  "enrich_lemma_inplace_scr U = enrich_lemma_with (enrich_def_inplace_scr U True)"

section \<open>The enricher's file loop\<close>

text \<open>
  \<open>_normalize_payload\<close>: the entries of a file and how to put them back
  (\<open>rehydrate\<close>): a bare list, a single entry, or a wrapper dictionary whose
  \<open>entries\<close> or \<open>variants\<close> list is replaced.
\<close>

datatype shape = ShList | ShSingle json | ShWrap "(ustr \<times> json) list" ustr

definition normalize_payload :: "json \<Rightarrow> (json list \<times> shape) option" where
  "normalize_payload obj =
     (case obj of
        JList xs \<Rightarrow> Some (xs, ShList)
      | JDict kv \<Rightarrow>
          if ascii ''definitions'' \<in> fst ` set kv \<and> ascii ''pos'' \<in> fst ` set kv
          then Some ([obj], ShSingle obj)
          else (case dict_get kv (ascii ''entries'') of
                  Some (JList xs) \<Rightarrow> Some (xs, ShWrap kv (ascii ''entries''))
                | _ \<Rightarrow> (case dict_get kv (ascii ''variants'') of
                          Some (JList xs) \<Rightarrow> Some (xs, ShWrap kv (ascii ''variants''))
                        | _ \<Rightarrow> None))
      | _ \<Rightarrow> None)"

fun rehydrate :: "shape \<Rightarrow> json list \<Rightarrow> json" where
  "rehydrate ShList lst = JList lst"
| "rehydrate (ShSingle obj) lst = (if lst \<noteq> [] then hd lst else obj)"
| "rehydrate (ShWrap kv k) lst = JDict (dict_set kv k (JList lst))"

text \<open>
  \<open>_collect_lemmas\<close> and \<open>_find_start_index\<close> over the \<open>(stem, file)\<close> pairs the
  directory walk yields: filter by \<open>--word\<close> (case-insensitive), sort by the lower-cased
  stem (Python's sort is stable, so is \<open>sort_key\<close>), and start at \<open>--from\<close> (inclusive) or
  after \<open>--after\<close>. \<open>bisect_left\<close> on the sorted keys is the number of keys below the
  probe. An empty option string counts as absent, as \<open>if word:\<close> does.
\<close>

definition collect_lemmas :: "ucd \<Rightarrow> (ustr \<times> 'a) list \<Rightarrow> ustr \<Rightarrow> (ustr \<times> 'a) list" where
  "collect_lemmas U files word =
     (let items = (if word \<noteq> [] then filter (\<lambda>it. str_lower U (fst it) = str_lower U word) files
                   else files)
      in sort_key (\<lambda>it. str_lower U (fst it)) items)"

definition bisect_left :: "ustr list \<Rightarrow> ustr \<Rightarrow> nat" where
  "bisect_left keys key = length (takeWhile (\<lambda>k. k < key) keys)"

definition find_start_index :: "ucd \<Rightarrow> (ustr \<times> 'a) list \<Rightarrow> ustr \<Rightarrow> ustr \<Rightarrow> nat" where
  "find_start_index U items from_lemma after_lemma =
     (if items = [] then 0
      else (let keys = map (\<lambda>x. str_lower U (fst x)) items
            in if from_lemma \<noteq> []
               then (let key = str_lower U from_lemma
                     in if key \<in> set keys then length (takeWhile (\<lambda>k. k \<noteq> key) keys)
                        else bisect_left keys key)
               else if after_lemma \<noteq> []
               then (let key = str_lower U after_lemma
                     in if key \<in> set keys then length (takeWhile (\<lambda>k. k \<noteq> key) keys) + 1
                        else bisect_left keys key)
               else 0))"

record Stats =
  files_seen :: nat
  files_changed :: nat
  defs_changed :: nat

text \<open>
  The loop variables of \<open>enrich_dictionary\<close> that outlive one iteration: Python's
  \<open>for\<close> does not scope them, so \<open>defs\<close> (the last entry's definitions), \<open>before\<close> and
  \<open>new_defs\<close> (the last entry that had definitions) carry over from entry to entry and
  from file to file. \<open>None\<close> is a variable not yet bound.
\<close>

record EnrichVars =
  ev_defs :: "json option"
  ev_snap :: "(json \<times> json list) option"

definition EnrichVars_init :: EnrichVars where
  "EnrichVars_init = \<lparr>ev_defs = None, ev_snap = None\<rparr>"

text \<open>Lines 228-240: the loop over the entries of one file.\<close>

fun enrich_entries_loop ::
  "ucd \<Rightarrow> bool \<Rightarrow> bool \<Rightarrow> json list \<Rightarrow> EnrichVars \<Rightarrow> py_exc + EnrichVars" where
  "enrich_entries_loop U remove ow [] vs = Inr vs"
| "enrich_entries_loop U remove ow (entry # es) vs =
     (case entry of
        JDict kv \<Rightarrow>
          (let defs = get_or kv (ascii ''definitions'') (JList [])
           in if \<not> py_truthy defs then enrich_entries_loop U remove ow es (vs\<lparr>ev_defs := Some defs\<rparr>)
              else (case py_iter defs of
                      Inl e \<Rightarrow> Inl e
                    | Inr ds \<Rightarrow>
                        (case seq_sum (map (enrich_def_obj U remove ow) ds) of
                           Inl e \<Rightarrow> Inl e
                         | Inr nd \<Rightarrow> enrich_entries_loop U remove ow es
                                       \<lparr>ev_defs = Some defs, ev_snap = Some (defs, nd)\<rparr>)))
      | _ \<Rightarrow> Inl AttributeError)"

fun set_definitions :: "json \<Rightarrow> json list \<Rightarrow> json" where
  "set_definitions (JDict kv) nd = JDict (dict_set kv (ascii ''definitions'') (JList nd))"
| "set_definitions v nd = v"

text \<open>
  Lines 225-253 for one file, the code as it is indented: the comparison and the
  assignment run once, after the loop, with \<open>entry\<close> the file's last entry (when the file
  has entries; otherwise an object of an earlier file, which is no longer written) and
  \<open>defs\<close>, \<open>before\<close>, \<open>new_defs\<close> as the loop left them. An unbound \<open>new_defs\<close> raises
  \<open>UnboundLocalError\<close>, a \<open>NameError\<close>. Returns the variables, \<open>changed\<close>,
  \<open>local_defs_changed\<close> and the entries.
\<close>

definition enrich_file ::
  "ucd \<Rightarrow> bool \<Rightarrow> bool \<Rightarrow> json list \<Rightarrow> EnrichVars
   \<Rightarrow> py_exc + (EnrichVars \<times> bool \<times> nat \<times> json list)" where
  "enrich_file U keep_in_gloss ow entries vs =
     (case enrich_entries_loop U (\<not> keep_in_gloss) ow entries vs of
        Inl e \<Rightarrow> Inl e
      | Inr vs' \<Rightarrow>
          (case ev_snap vs' of
             None \<Rightarrow> Inl NameError
           | Some (before, new_defs) \<Rightarrow>
               if same_dump (JList new_defs) before then Inr (vs', False, 0, entries)
               else (let entries' = (if entries = [] then entries
                                     else entries[length entries - 1 :=
                                            set_definitions (last entries) new_defs]);
                         olds = (case ev_defs vs' of Some (JList xs) \<Rightarrow> xs | _ \<Rightarrow> []);
                         n = length (filter (\<lambda>(a, b). \<not> same_dump a b) (zip olds new_defs))
                     in Inr (vs', True, (if n = 0 then 1 else n), entries'))))"

text \<open>
  Lines 212-257 over the loaded files (\<open>None\<close> for a file \<open>_load\<close> could not read):
  the statistics and the files written with \<open>--write\<close>, in order. An exception ends the
  run; the files written before it stay written.
\<close>

fun enrich_files ::
  "ucd \<Rightarrow> bool \<Rightarrow> bool \<Rightarrow> bool \<Rightarrow> (ustr \<times> json option) list \<Rightarrow> EnrichVars \<Rightarrow> Stats
   \<Rightarrow> (ustr \<times> json) list \<times> (py_exc + Stats)" where
  "enrich_files U keep ow write [] vs st = ([], Inr st)"
| "enrich_files U keep ow write ((name, loaded) # fs) vs st =
     (let st1 = st\<lparr>files_seen := files_seen st + 1\<rparr>
      in case loaded of
           None \<Rightarrow> enrich_files U keep ow write fs vs st1
         | Some data \<Rightarrow>
             (case normalize_payload data of
                None \<Rightarrow> enrich_files U keep ow write fs vs st1
              | Some (entries, sh) \<Rightarrow>
                  (case enrich_file U keep ow entries vs of
                     Inl e \<Rightarrow> ([], Inl e)
                   | Inr (vs', changed, local_changed, entries') \<Rightarrow>
                       if changed
                       then (let st2 = st1\<lparr>files_changed := files_changed st1 + 1,
                                          defs_changed := defs_changed st1 +
                                            (if local_changed = 0 then 1 else local_changed)\<rparr>;
                                 (ws, r) = enrich_files U keep ow write fs vs' st2
                             in ((if write then [(name, rehydrate sh entries')] else []) @ ws, r))
                       else enrich_files U keep ow write fs vs' st1)))"

definition Stats_init :: Stats where
  "Stats_init = \<lparr>files_seen = 0, files_changed = 0, defs_changed = 0\<rparr>"

definition enrich_dictionary ::
  "ucd \<Rightarrow> (ustr \<times> json option) list \<Rightarrow> ustr \<Rightarrow> ustr \<Rightarrow> ustr \<Rightarrow> bool \<Rightarrow> bool \<Rightarrow> bool
   \<Rightarrow> (ustr \<times> json) list \<times> (py_exc + Stats)" where
  "enrich_dictionary U files word from_lemma after_lemma write keep_in_gloss overwrite =
     (let items = collect_lemmas U files word;
          start = find_start_index U items from_lemma after_lemma
      in enrich_files U keep_in_gloss overwrite write (drop start items) EnrichVars_init Stats_init)"

section \<open>Lemmas\<close>

lemmas labels_eval = lead_paren_match_def extract_groups_loop_None extract_groups_loop_Some
  extract_leading_groups_def trail_bracket_search_def extract_trailing_bracket_def is_word_char_def
  sep_core_def split_match_def re_split_end re_split_skip re_split_cut tokenize_groups_def json_eval
  run_len_def py_isspace_def ascii_def ascii_class_defs ascii_ucd_def Let_def
  enrich_def_obj.simps recurse_subdefs_def assign_fields_def assign_fields_db_def
  label_groups_value_def definition_raw_def enrich_file_def normalize_payload_def
  EnrichVars_init_def Stats_init_def

lemma recurse_subdefs_eqI:
  "(\<And>v xs x. subs = Some v \<Longrightarrow> py_iter v = Inr xs \<Longrightarrow> x \<in> set xs \<Longrightarrow> f x = g x) \<Longrightarrow>
   recurse_subdefs f subs kv = recurse_subdefs g subs kv"
  by (rule recurse_subdefs_cong) auto

text \<open>The two inline copies compute the same function on every value.\<close>

lemma enrich_def_inplace_scr_db: "enrich_def_inplace_scr U r d = enrich_def_inplace_db U r d"
proof (induction U r d rule: enrich_def_inplace_db.induct)
  case (1 U remove d)
  show ?case
  proof (cases d)
    case (JDict kv)
    show ?thesis
    proof (cases "definition_raw kv")
      case (Inr raw)
      show ?thesis
        using 1[OF JDict refl, of raw] Inr JDict
        by (auto simp: enrich_def_inplace_scr.simps enrich_def_inplace_db.simps Let_def
                 intro!: recurse_subdefs_eqI)
    qed (simp add: JDict enrich_def_inplace_scr.simps enrich_def_inplace_db.simps)
  qed (simp_all add: enrich_def_inplace_scr.simps enrich_def_inplace_db.simps)
qed

text \<open>
  The first file whose entries have no definitions, before any file that has some,
  ends the run with \<open>UnboundLocalError\<close> (a \<open>NameError\<close>): \<open>new_defs\<close> is read after the
  loop that never bound it.
\<close>

lemma enrich_files_unbound:
  "enrich_files ascii_ucd False False True
     [(ascii ''b'', Some (JList [JDict [(ascii ''pos'', JStr (ascii ''N'')),
                                        (ascii ''definitions'', JList [])]]))]
     EnrichVars_init Stats_init = ([], Inl NameError)"
  by (simp add: labels_eval cong: option.case_cong_weak)

text \<open>
  The importers' copy is not the enricher's logic, as its comment says: for one label
  group the enricher stores the string, the importers a one-element list.
\<close>

lemma enrich_label_groups_shapes:
  "enrich_def_obj ascii_ucd True False (JDict [(ascii ''definition'', JStr (ascii ''(rare) go''))]) =
     Inr (JDict [(ascii ''definition'', JStr (ascii ''go'')), (ascii ''labels'', JList [JStr (ascii ''rare'')]),
                 (ascii ''label_groups'', JStr (ascii ''rare''))]) \<and>
   enrich_def_inplace_db ascii_ucd True (JDict [(ascii ''definition'', JStr (ascii ''(rare) go''))]) =
     Inr (JDict [(ascii ''definition'', JStr (ascii ''go'')), (ascii ''labels'', JList [JStr (ascii ''rare'')]),
                 (ascii ''label_groups'', JList [JStr (ascii ''rare'')])])"
  by (simp add: labels_eval enrich_def_inplace_db.simps cong: option.case_cong_weak)

section \<open>Properties\<close>

text \<open>
  The enricher on a definition with two label groups in one parenthesis, a dating
  note and a labelled subdefinition: the labels are split at the comma, the single group
  is kept as a string, the bracket goes to \<open>dating_raw\<close>, both are removed from the gloss,
  and the subdefinition is enriched the same way; existing keys keep their place.
\<close>

theorem enrich_def_example:
  "enrich_def_obj ascii_ucd True False
     (JDict [(ascii ''definition'', JStr (ascii ''(rare, US) to go [1890s]'')),
             (ascii ''subdefinitions'',
                JList [JDict [(ascii ''definition'', JStr (ascii ''(slang) to leave''))]])]) =
   Inr (JDict [(ascii ''definition'', JStr (ascii ''to go'')),
               (ascii ''subdefinitions'',
                  JList [JDict [(ascii ''definition'', JStr (ascii ''to leave'')),
                                (ascii ''labels'', JList [JStr (ascii ''slang'')]),
                                (ascii ''label_groups'', JStr (ascii ''slang''))]]),
               (ascii ''labels'', JList [JStr (ascii ''rare''), JStr (ascii ''US'')]),
               (ascii ''label_groups'', JStr (ascii ''rare, US'')),
               (ascii ''dating_raw'', JStr (ascii ''1890s''))])"
  by (simp add: labels_eval cong: option.case_cong_weak)

text \<open>
  The module docstring calls the enricher idempotent, but only \<open>labels\<close> guards a
  second run: a definition with two trailing brackets and no label loses one bracket
  per run, and \<open>dating_raw\<close> is overwritten with the earlier note.
\<close>

theorem enrich_not_idempotent:
  "enrich_def_obj ascii_ucd True False (JDict [(ascii ''definition'', JStr (ascii ''x [a] [b]''))]) =
     Inr (JDict [(ascii ''definition'', JStr (ascii ''x [a]'')), (ascii ''dating_raw'', JStr (ascii ''b''))]) \<and>
   enrich_def_obj ascii_ucd True False
     (JDict [(ascii ''definition'', JStr (ascii ''x [a]'')), (ascii ''dating_raw'', JStr (ascii ''b''))]) =
     Inr (JDict [(ascii ''definition'', JStr (ascii ''x'')), (ascii ''dating_raw'', JStr (ascii ''a''))])"
  by (simp add: labels_eval cong: option.case_cong_weak)

text \<open>
  Because the comparison after the entry loop is not indented into it, a file whose
  entries have no definitions is compared with the previous file's snapshot: the
  enriched definitions of file \<open>a\<close> are written into the entry of file \<open>b\<close>, and both
  files are counted as changed.
\<close>

theorem enrich_files_cross_file:
  "enrich_files ascii_ucd False False True
     [(ascii ''a'', Some (JList [JDict [(ascii ''pos'', JStr (ascii ''V'')),
         (ascii ''definitions'', JList [JDict [(ascii ''definition'', JStr (ascii ''(rare) go''))]])]])),
      (ascii ''b'', Some (JList [JDict [(ascii ''pos'', JStr (ascii ''N'')),
         (ascii ''definitions'', JList [])]]))]
     EnrichVars_init Stats_init =
   ([(ascii ''a'', JList [JDict [(ascii ''pos'', JStr (ascii ''V'')),
         (ascii ''definitions'', JList [JDict [(ascii ''definition'', JStr (ascii ''go'')),
             (ascii ''labels'', JList [JStr (ascii ''rare'')]),
             (ascii ''label_groups'', JStr (ascii ''rare''))]])]]),
     (ascii ''b'', JList [JDict [(ascii ''pos'', JStr (ascii ''N'')),
         (ascii ''definitions'', JList [JDict [(ascii ''definition'', JStr (ascii ''go'')),
             (ascii ''labels'', JList [JStr (ascii ''rare'')]),
             (ascii ''label_groups'', JStr (ascii ''rare''))]])]])],
    Inr \<lparr>files_seen = 2, files_changed = 2, defs_changed = 2\<rparr>)"
  by (simp add: labels_eval cong: option.case_cong_weak)

text \<open>
  C34. The two inline copies of \<open>_enrich_lemma_inplace\<close>, in \<open>wiktionary_to_db.py\<close> and in
  \<open>wiktionary_scraper.py\<close>, give the same result (the same enriched object or the same
  exception) on every lemma object, though their per-definition steps are structured
  differently.
\<close>

theorem enrich_lemma_variants_agree:
  "enrich_lemma_inplace_scr U obj = enrich_lemma_inplace_db U obj"
proof -
  have "enrich_def_inplace_scr U True = enrich_def_inplace_db U True"
    by (rule ext) (rule enrich_def_inplace_scr_db)
  then show ?thesis by (simp add: enrich_lemma_inplace_scr_def enrich_lemma_inplace_db_def)
qed

end
