(* ===== verification/Sync.thy ===== *)
theory Sync
  imports Json
begin

text \<open>
  The incremental word sync \<open>src/memory/adapters/sync_json_words_to_db.py\<close>: the word
  collectors over a JSON document, the resumable scan over the file list that gathers
  at most \<open>--target-new\<close> new lemmas, the batched scrape with retries, and the merge of
  the failure list. Files, the database and the scraper are parameters: a file is the
  value \<open>load_json_any\<close> returned (\<open>None\<close> when it raised), the database and the lists
  are the sets of lower-cased lemmas read from them, and \<open>attempt w k\<close> says whether
  the \<open>k\<close>-th attempt to scrape, enrich and upsert \<open>w\<close> succeeded. A Python \<open>dict\<close> is an
  association list in insertion order.
\<close>

section \<open>Collectors\<close>

text \<open>\<open>WORD_RE = [A-Za-z][A-Za-z'-]{0,63}\<close> and \<open>findall\<close>: leftmost, greedy, non-overlapping.\<close>

definition word_re_head :: "uchar \<Rightarrow> bool" where
  "word_re_head c \<longleftrightarrow> is_ascii_alpha c"

definition word_re_tail :: "uchar \<Rightarrow> bool" where
  "word_re_tail c \<longleftrightarrow> is_ascii_alpha c \<or> c = 39 \<or> c = 45"

fun word_findall :: "ustr \<Rightarrow> ustr list" where
  "word_findall [] = []"
| "word_findall (c # cs) =
     (if word_re_head c
      then (let n = min 63 (run_len word_re_tail cs) in (c # take n cs) # word_findall (drop n cs))
      else word_findall cs)"

definition STOPWORDS :: "ustr list" where
  "STOPWORDS = map ascii
     [''the'',''and'',''of'',''to'',''in'',''that'',''it'',''for'',''on'',''as'',''with'',''was'',
      ''is'',''are'',''be'',''by'',''an'',''at'',''from'',''or'',''this'',''which'',''but'',''not'',
      ''have'',''has'',''had'',''were'',''their'',''its'',''they'',''you'',''we'',''he'',''she'',
      ''them'',''his'',''her'',''my'',''your'',''our'',''me'',''us'']"

text \<open>The collector's options: \<open>--min-len\<close>, \<open>--max-len\<close>, the stopword set and its switch.\<close>

record collect_cfg =
  min_len :: int
  max_len :: int
  stopwords :: "ustr list"
  use_stopwords :: bool

definition is_word_candidate :: "ucd \<Rightarrow> collect_cfg \<Rightarrow> ustr \<Rightarrow> bool" where
  "is_word_candidate U c s0 =
     (let s = py_strip s0 in
      if s = [] then False
      else if \<not> (1 \<le> int (length s) \<and> int (length s) \<le> max_len c) then False
      else if int (length s) < min_len c then False
      else \<not> (use_stopwords c \<and> str_lower U s \<in> set (stopwords c)
               \<and> s \<notin> {ascii ''a'', ascii ''I''}))"

definition add_token :: "ucd \<Rightarrow> collect_cfg \<Rightarrow> (ustr \<times> ustr) list \<Rightarrow> ustr \<Rightarrow> (ustr \<times> ustr) list" where
  "add_token U c out tok =
     (if is_word_candidate U c tok then setdefault out (str_lower U tok) tok else out)"

definition collect_from_string ::
  "ucd \<Rightarrow> collect_cfg \<Rightarrow> ustr \<Rightarrow> (ustr \<times> ustr) list \<Rightarrow> (ustr \<times> ustr) list" where
  "collect_from_string U c s out = foldl (add_token U c) out (word_findall s)"

text \<open>\<open>collect_words_from_obj\<close>: keys and string values of dicts, items of lists, strings.\<close>

function collect_words_from_obj ::
  "ucd \<Rightarrow> collect_cfg \<Rightarrow> json \<Rightarrow> (ustr \<times> ustr) list \<Rightarrow> (ustr \<times> ustr) list" where
  "collect_words_from_obj U c (JDict kv) out =
     foldl (\<lambda>acc p. let o1 = foldl (add_token U c) acc (word_findall (fst p))
                 in case snd p of
                      JStr s \<Rightarrow> collect_from_string U c s o1
                    | JList xs \<Rightarrow> foldl (\<lambda>o2 it. collect_words_from_obj U c it o2) o1 xs
                    | JDict _ \<Rightarrow> collect_words_from_obj U c (snd p) o1
                    | _ \<Rightarrow> o1) out kv"
| "collect_words_from_obj U c (JList xs) out =
     foldl (\<lambda>acc it. collect_words_from_obj U c it acc) out xs"
| "collect_words_from_obj U c (JStr s) out = collect_from_string U c s out"
| "collect_words_from_obj U c JNull out = out"
| "collect_words_from_obj U c (JBool b) out = out"
| "collect_words_from_obj U c (JInt i) out = out"
  by pat_completeness auto
termination
  by (relation "measure (\<lambda>(U, c, obj, out). size obj)")
     (auto intro: json_size_rules)

text \<open>
  \<open>collect_words_from_obj_fast\<close>: the \<open>lemma\<close>/\<open>word\<close> fields, the string items of the
  \<open>variants\<close>/\<open>forms\<close>/\<open>alternatives\<close>/\<open>alt\<close> lists, and every key, recursing into
  dict and list values only.
\<close>

definition add_nonblank :: "ucd \<Rightarrow> (ustr \<times> ustr) list \<Rightarrow> json option \<Rightarrow> (ustr \<times> ustr) list" where
  "add_nonblank U out v =
     (case v of Some (JStr s) \<Rightarrow> if py_strip s \<noteq> [] then setdefault out (str_lower U s) s else out
      | _ \<Rightarrow> out)"

definition add_variant_list :: "ucd \<Rightarrow> (ustr \<times> ustr) list \<Rightarrow> json option \<Rightarrow> (ustr \<times> ustr) list" where
  "add_variant_list U out v =
     (case v of Some (JList items) \<Rightarrow> foldl (\<lambda>acc it. add_nonblank U acc (Some it)) out items
      | _ \<Rightarrow> out)"

function collect_words_from_obj_fast :: "ucd \<Rightarrow> json \<Rightarrow> (ustr \<times> ustr) list \<Rightarrow> (ustr \<times> ustr) list" where
  "collect_words_from_obj_fast U (JDict kv) out =
     (let o1 = foldl (\<lambda>acc k. add_nonblank U acc (dict_get kv k)) out [ascii ''lemma'', ascii ''word''];
          o2 = foldl (\<lambda>acc k. add_variant_list U acc (dict_get kv k)) o1
                 [ascii ''variants'', ascii ''forms'', ascii ''alternatives'', ascii ''alt'']
      in foldl (\<lambda>acc p. let o3 = (if py_strip (fst p) \<noteq> [] then setdefault acc (str_lower U (fst p)) (fst p)
                                   else acc)
                       in case snd p of
                            JDict _ \<Rightarrow> collect_words_from_obj_fast U (snd p) o3
                          | JList _ \<Rightarrow> collect_words_from_obj_fast U (snd p) o3
                          | _ \<Rightarrow> o3) o2 kv)"
| "collect_words_from_obj_fast U (JList xs) out =
     foldl (\<lambda>acc it. collect_words_from_obj_fast U it acc) out xs"
| "collect_words_from_obj_fast U (JStr s) out = out"
| "collect_words_from_obj_fast U JNull out = out"
| "collect_words_from_obj_fast U (JBool b) out = out"
| "collect_words_from_obj_fast U (JInt i) out = out"
  by pat_completeness auto
termination
  by (relation "measure (\<lambda>(U, obj, out). size obj)") (auto intro: json_size_rules)

section \<open>The scan\<close>

text \<open>
  The scan's inputs: the collector options, \<open>--fast-keys-only\<close>, \<open>--target-new\<close>,
  \<open>--limit-scan-files\<close>, and the lower-cased lemmas already in the database, on the
  blacklist and on the list of earlier failures.
\<close>

record scan_cfg =
  sc_collect :: collect_cfg
  sc_fast :: bool
  target_new :: int
  limit_scan_files :: int
  have_words :: "ustr set"
  blacklist :: "ustr set"
  failed_prev :: "ustr set"

record ScanState =
  sc_idx :: nat
  sc_visited :: nat
  sc_found :: "(ustr \<times> ustr) list"

definition is_new :: "scan_cfg \<Rightarrow> ustr \<times> ustr \<Rightarrow> bool" where
  "is_new P c \<longleftrightarrow> fst c \<notin> have_words P \<and> fst c \<notin> blacklist P \<and> fst c \<notin> failed_prev P"

text \<open>Lines 258-262: add the candidates not yet found, up to the target.\<close>

fun add_found :: "int \<Rightarrow> (ustr \<times> ustr) list \<Rightarrow> (ustr \<times> ustr) list \<Rightarrow> (ustr \<times> ustr) list" where
  "add_found target [] found = found"
| "add_found target ((low, orig) # cs) found =
     (if low \<in> fst ` set found then add_found target cs found
      else (let f' = found @ [(low, orig)]
            in if target \<le> int (length f') then f' else add_found target cs f'))"

definition file_candidates :: "ucd \<Rightarrow> scan_cfg \<Rightarrow> json \<Rightarrow> (ustr \<times> ustr) list" where
  "file_candidates U P data =
     filter (is_new P)
       (if sc_fast P then collect_words_from_obj_fast U data []
        else collect_words_from_obj U (sc_collect P) data [])"

text \<open>Lines 235-270: the \<open>while\<close> loop over the file list from \<open>idx\<close>.\<close>

function scan_files :: "ucd \<Rightarrow> scan_cfg \<Rightarrow> json option list \<Rightarrow> ScanState \<Rightarrow> ScanState" where
  "scan_files U P files st =
     (if sc_idx st < length files \<and> int (length (sc_found st)) < target_new P
      then (case files ! sc_idx st of
              None \<Rightarrow> scan_files U P files (st\<lparr>sc_idx := sc_idx st + 1, sc_visited := sc_visited st + 1\<rparr>)
            | Some data \<Rightarrow>
                (let st' = \<lparr>sc_idx = sc_idx st + 1, sc_visited = sc_visited st + 1,
                            sc_found = add_found (target_new P) (file_candidates U P data) (sc_found st)\<rparr>
                 in if limit_scan_files P \<noteq> 0 \<and> limit_scan_files P \<le> int (sc_visited st')
                    then st' else scan_files U P files st'))
      else st)"
  by pat_completeness auto
termination
  by (relation "measure (\<lambda>(U, P, files, st). length files - sc_idx st)") auto

declare scan_files.simps [simp del]

lemma scan_files_done:
  "\<not> (sc_idx st < length files \<and> int (length (sc_found st)) < target_new P) \<Longrightarrow>
   scan_files U P files st = st"
  by (subst scan_files.simps) (erule if_not_P)

lemma scan_files_unreadable:
  "sc_idx st < length files \<Longrightarrow> int (length (sc_found st)) < target_new P \<Longrightarrow>
   files ! sc_idx st = None \<Longrightarrow>
   scan_files U P files st =
   scan_files U P files (st\<lparr>sc_idx := sc_idx st + 1, sc_visited := sc_visited st + 1\<rparr>)"
  by (subst scan_files.simps) simp

lemma scan_files_file:
  "sc_idx st < length files \<Longrightarrow> int (length (sc_found st)) < target_new P \<Longrightarrow>
   files ! sc_idx st = Some data \<Longrightarrow>
   scan_files U P files st =
   (let st' = \<lparr>sc_idx = sc_idx st + 1, sc_visited = sc_visited st + 1,
               sc_found = add_found (target_new P) (file_candidates U P data) (sc_found st)\<rparr>
    in if limit_scan_files P \<noteq> 0 \<and> limit_scan_files P \<le> int (sc_visited st')
       then st' else scan_files U P files st')"
  by (subst scan_files.simps) simp

text \<open>
  Lines 202-216 and 272-279: a run resumes at the saved index, or rebuilds the list and
  starts at 0 when the index is at the end; it returns the new lemmas (the values of
  \<open>found_map\<close>, in order), the index saved for the next run and the list it used.
\<close>

definition sync_scan ::
  "ucd \<Rightarrow> scan_cfg \<Rightarrow> json option list \<Rightarrow> json option list \<Rightarrow> nat
   \<Rightarrow> ustr list \<times> nat \<times> json option list" where
  "sync_scan U P files rebuilt idx =
     (let (fs, i) = (if length files \<le> idx then (rebuilt, 0) else (files, idx));
          st = scan_files U P fs \<lparr>sc_idx = i, sc_visited = 0, sc_found = []\<rparr>
      in (map snd (sc_found st), sc_idx st, fs))"

section \<open>Scraping and the failure list\<close>

text \<open>
  \<open>scrape_one(w)\<close>: attempts \<open>1 .. retries + 1\<close>, stopping at the first that succeeds;
  with a negative \<open>--retries\<close> the range is empty and the function returns \<open>None\<close>,
  which the caller counts as a failure.
\<close>

definition scrape_one :: "(ustr \<Rightarrow> nat \<Rightarrow> bool) \<Rightarrow> int \<Rightarrow> ustr \<Rightarrow> bool" where
  "scrape_one attempt retries w = list_ex (attempt w) (map nat [1..retries + 1])"

text \<open>\<open>chunks(seq, n)\<close>: the whole list when \<open>n <= 0\<close>, else the slices \<open>seq[i:i+n]\<close>.\<close>

function chunks :: "'a list \<Rightarrow> int \<Rightarrow> 'a list list" where
  "chunks seq n =
     (if n \<le> 0 then [seq]
      else if seq = [] then []
      else take (nat n) seq # chunks (drop (nat n) seq) n)"
  by pat_completeness auto
termination
  by (relation "measure (\<lambda>(seq, n). length seq)") auto

declare chunks.simps [simp del]

text \<open>Lines 311-320: the words that failed, batch by batch (\<open>--batch-size\<close> 0 is one batch).\<close>

definition scrape_all :: "(ustr \<Rightarrow> nat \<Rightarrow> bool) \<Rightarrow> int \<Rightarrow> int \<Rightarrow> ustr list \<Rightarrow> ustr list" where
  "scrape_all attempt retries batch_size new_list =
     concat (map (filter (\<lambda>w. \<not> scrape_one attempt retries w))
       (chunks new_list (if batch_size = 0 then int (length new_list) else batch_size)))"

text \<open>
  Lines 325-330: the earlier failures keyed by their lower case (a later spelling of the
  same key replaces the value in place), then this run's failures not already present.
\<close>

definition merge_failed :: "ucd \<Rightarrow> ustr list \<Rightarrow> ustr list \<Rightarrow> ustr list" where
  "merge_failed U prev_failed failed =
     (let m0 = foldl (\<lambda>m w. dict_set m (str_lower U w) w) [] prev_failed;
          m1 = foldl (\<lambda>m w. setdefault m (str_lower U w) w) m0 failed
      in map snd m1)"

text \<open>Lines 336-337: the missing list without this run's failures.\<close>

definition successes :: "ucd \<Rightarrow> ustr list \<Rightarrow> ustr list \<Rightarrow> ustr list" where
  "successes U new_list failed =
     filter (\<lambda>w. str_lower U w \<notin> set (map (str_lower U) failed)) new_list"

text \<open>
  One run of \<open>main\<close>: the scan with the earlier failures skipped, then, unless it is a
  dry run or nothing new was found, the scrape. Returns the final content of
  \<open>missing_words.json\<close>, the saved index, and the rewritten \<open>failed_words.json\<close> if any.
\<close>

definition sync_run ::
  "ucd \<Rightarrow> scan_cfg \<Rightarrow> json option list \<Rightarrow> json option list \<Rightarrow> nat \<Rightarrow> ustr list
   \<Rightarrow> (ustr \<Rightarrow> nat \<Rightarrow> bool) \<Rightarrow> int \<Rightarrow> int \<Rightarrow> bool \<Rightarrow> ustr list \<times> nat \<times> ustr list option" where
  "sync_run U P files rebuilt idx prev_failed attempt retries batch_size dry_run =
     (let P' = P\<lparr>failed_prev := str_lower U ` set prev_failed\<rparr>;
          (new_list, idx', _) = sync_scan U P' files rebuilt idx
      in if dry_run \<or> new_list = [] then (new_list, idx', None)
         else (let failed = scrape_all attempt retries batch_size new_list
               in (successes U new_list failed, idx', Some (merge_failed U prev_failed failed))))"

section \<open>Lemmas\<close>

lemma foldl_invariant:
  "P a \<Longrightarrow> (\<And>acc x. x \<in> set xs \<Longrightarrow> P acc \<Longrightarrow> P (f acc x)) \<Longrightarrow> P (foldl f a xs)"
  by (induction xs arbitrary: a) auto

text \<open>A collector's output: distinct keys, each the lower case of its value.\<close>

definition lower_keyed :: "ucd \<Rightarrow> (ustr \<times> ustr) list \<Rightarrow> bool" where
  "lower_keyed U out \<longleftrightarrow> distinct (map fst out) \<and> (\<forall>(l, w) \<in> set out. l = str_lower U w)"

lemma lower_keyed_setdefault [intro]:
  "lower_keyed U out \<Longrightarrow> lower_keyed U (setdefault out (str_lower U s) s)"
  by (auto simp: lower_keyed_def setdefault_def)

lemma lower_keyed_add_token [intro]: "lower_keyed U out \<Longrightarrow> lower_keyed U (add_token U c out tok)"
  by (auto simp: add_token_def)

lemma lower_keyed_from_string [intro]:
  "lower_keyed U out \<Longrightarrow> lower_keyed U (collect_from_string U c s out)"
  unfolding collect_from_string_def by (rule foldl_invariant) auto

lemma lower_keyed_add_tokens [intro]:
  "lower_keyed U acc \<Longrightarrow> lower_keyed U (foldl (add_token U c) acc ws)"
  by (rule foldl_invariant[where P = "lower_keyed U"]) auto

lemma lower_keyed_collect:
  "lower_keyed U out \<Longrightarrow> lower_keyed U (collect_words_from_obj U c obj out)"
proof (induction U c obj out rule: collect_words_from_obj.induct)
  case (1 U c kv out)
  have step: "lower_keyed U (case snd p of
                JStr s \<Rightarrow> collect_from_string U c s o1
              | JList xs \<Rightarrow> foldl (\<lambda>o2 it. collect_words_from_obj U c it o2) o1 xs
              | JDict _ \<Rightarrow> collect_words_from_obj U c (snd p) o1
              | _ \<Rightarrow> o1)"
    if p: "p \<in> set kv" and o1: "o1 = foldl (add_token U c) acc (word_findall (fst p))"
      and acc: "lower_keyed U acc" for p acc o1
  proof -
    have k: "lower_keyed U o1" using o1 acc by blast
    show ?thesis
    proof (cases "snd p")
      case (JList xs)
      then show ?thesis
        using 1(1)[OF p o1 JList] k by (auto intro: foldl_invariant[where P = "lower_keyed U"])
    next
      case (JDict x6)
      then show ?thesis using 1(2)[OF p o1 JDict] k by auto
    qed (use k in auto)
  qed
  show ?case
    unfolding collect_words_from_obj.simps Let_def
    by (rule foldl_invariant[where P = "lower_keyed U", OF 1(3)]) (rule step[OF _ refl])
next
  case (2 U c xs out)
  then show ?case by (auto intro: foldl_invariant[where P = "lower_keyed U"])
qed auto

lemma lower_keyed_add_nonblank [intro]: "lower_keyed U out \<Longrightarrow> lower_keyed U (add_nonblank U out v)"
  by (auto simp: add_nonblank_def split: option.split json.split)

lemma lower_keyed_add_variant_list [intro]:
  "lower_keyed U out \<Longrightarrow> lower_keyed U (add_variant_list U out v)"
  by (auto simp: add_variant_list_def split: option.split json.split
           intro: foldl_invariant[where P = "lower_keyed U"])

lemma lower_keyed_fast:
  "lower_keyed U out \<Longrightarrow> lower_keyed U (collect_words_from_obj_fast U obj out)"
proof (induction U obj out rule: collect_words_from_obj_fast.induct)
  case (1 U kv out)
  define x where "x = foldl (\<lambda>acc k. add_nonblank U acc (dict_get kv k)) out [ascii ''lemma'', ascii ''word'']"
  define xa where "xa = foldl (\<lambda>acc k. add_variant_list U acc (dict_get kv k)) x
                          [ascii ''variants'', ascii ''forms'', ascii ''alternatives'', ascii ''alt'']"
  have x: "lower_keyed U x" using 1(3) by (simp add: x_def lower_keyed_add_nonblank)
  then have xa: "lower_keyed U xa" by (simp add: xa_def lower_keyed_add_variant_list)
  have step: "lower_keyed U (case snd p of
                JDict _ \<Rightarrow> collect_words_from_obj_fast U (snd p) o3
              | JList _ \<Rightarrow> collect_words_from_obj_fast U (snd p) o3
              | _ \<Rightarrow> o3)"
    if p: "p \<in> set kv"
      and o3: "o3 = (if py_strip (fst p) \<noteq> [] then setdefault a (str_lower U (fst p)) (fst p) else a)"
      and a: "lower_keyed U a" for p a o3
  proof -
    have k: "lower_keyed U o3" using o3 a by auto
    show ?thesis
    proof (cases "snd p")
      case (JList xs)
      then show ?thesis using 1(1)[OF x_def xa_def p o3 JList] k by auto
    next
      case (JDict x6)
      then show ?thesis using 1(2)[OF x_def xa_def p o3 JDict] k by auto
    qed (use k in auto)
  qed
  show ?case
    unfolding collect_words_from_obj_fast.simps Let_def x_def[symmetric] xa_def[symmetric]
    by (rule foldl_invariant[where P = "lower_keyed U", OF xa]) (rule step[OF _ refl])
next
  case (2 U xs out)
  then show ?case by (auto intro: foldl_invariant[where P = "lower_keyed U"])
qed auto

text \<open>What the scan promises of \<open>found_map\<close>: distinct keys, each the lower case of its
  value and none in the database, on the blacklist or among the earlier failures.\<close>

definition found_ok :: "ucd \<Rightarrow> scan_cfg \<Rightarrow> (ustr \<times> ustr) list \<Rightarrow> bool" where
  "found_ok U P found \<longleftrightarrow>
     distinct (map fst found) \<and> list_all (\<lambda>(l, w). l = str_lower U w \<and> is_new P (l, w)) found"

lemma found_ok_Nil [simp]: "found_ok U P []"
  by (simp add: found_ok_def)

lemma file_candidates_ok: "found_ok U P (file_candidates U P data)"
proof -
  have nil: "lower_keyed U []" by (simp add: lower_keyed_def)
  have "lower_keyed U (if sc_fast P then collect_words_from_obj_fast U data []
                       else collect_words_from_obj U (sc_collect P) data [])"
    using lower_keyed_fast[OF nil] lower_keyed_collect[OF nil] by simp
  then show ?thesis
    by (auto simp: found_ok_def file_candidates_def lower_keyed_def distinct_map_filter list_all_iff)
qed

lemma add_found_ok:
  "found_ok U P found \<Longrightarrow> found_ok U P cs \<Longrightarrow> found_ok U P (add_found t cs found)"
proof (induction t cs found rule: add_found.induct)
  case (2 target low orig cs found)
  then have "found_ok U P cs" "low = str_lower U orig \<and> is_new P (low, orig)"
    by (auto simp: found_ok_def)
  moreover have "low \<notin> fst ` set found \<Longrightarrow> found_ok U P (found @ [(low, orig)])"
    using 2(3) calculation(2) by (auto simp: found_ok_def)
  ultimately show ?case using 2 by (auto simp: Let_def)
qed simp

lemma add_found_length:
  "int (length found) < t \<Longrightarrow> int (length (add_found t cs found)) \<le> t"
  by (induction t cs found rule: add_found.induct) (auto simp: Let_def)

lemma scan_files_inv:
  "found_ok U P (sc_found st) \<Longrightarrow> int (length (sc_found st)) \<le> max 0 (target_new P) \<Longrightarrow>
   found_ok U P (sc_found (scan_files U P files st)) \<and>
   int (length (sc_found (scan_files U P files st))) \<le> max 0 (target_new P) \<and>
   sc_idx st \<le> sc_idx (scan_files U P files st) \<and>
   sc_idx (scan_files U P files st) \<le> max (sc_idx st) (length files)"
proof (induction U P files st rule: scan_files.induct)
  case (1 U P files st)
  show ?case
  proof (cases "sc_idx st < length files \<and> int (length (sc_found st)) < target_new P")
    case go: True
    show ?thesis
    proof (cases "files ! sc_idx st")
      case None
      then show ?thesis using 1(1)[OF go None] 1(3,4) go
        by (subst (1 2 3 4) scan_files.simps) simp
    next
      case (Some data)
      define st' where "st' = \<lparr>sc_idx = sc_idx st + 1, sc_visited = sc_visited st + 1,
          sc_found = add_found (target_new P) (file_candidates U P data) (sc_found st)\<rparr>"
      have ok: "found_ok U P (sc_found st')"
        using add_found_ok[OF 1(3) file_candidates_ok] by (simp add: st'_def)
      have len: "int (length (sc_found st')) \<le> max 0 (target_new P)"
        using add_found_length[of "sc_found st" "target_new P"] go by (simp add: st'_def)
      have eq: "scan_files U P files st =
                (if limit_scan_files P \<noteq> 0 \<and> limit_scan_files P \<le> int (sc_visited st')
                 then st' else scan_files U P files st')"
        using go Some by (subst scan_files.simps) (simp add: st'_def Let_def)
      show ?thesis
        using 1(2)[OF go Some st'_def] ok len go
        by (simp add: eq st'_def split: if_split_asm) (auto simp: st'_def)
    qed
  next
    case False
    then have "scan_files U P files st = st"
      by (subst scan_files.simps) (rule if_not_P[OF False])
    then show ?thesis using 1(3,4) by simp
  qed
qed

lemma scan_files_stop:
  "sc_idx (scan_files U P files st) < length files \<Longrightarrow>
   target_new P \<le> int (length (sc_found (scan_files U P files st))) \<or>
   (limit_scan_files P \<noteq> 0 \<and> limit_scan_files P \<le> int (sc_visited (scan_files U P files st)))"
proof (induction U P files st rule: scan_files.induct)
  case (1 U P files st)
  show ?case
  proof (cases "sc_idx st < length files \<and> int (length (sc_found st)) < target_new P")
    case go: True
    show ?thesis
    proof (cases "files ! sc_idx st")
      case None
      have eq: "scan_files U P files st =
                scan_files U P files (st\<lparr>sc_idx := sc_idx st + 1, sc_visited := sc_visited st + 1\<rparr>)"
        using go None by (subst scan_files.simps) simp
      show ?thesis using 1(1)[OF go None] 1(3) unfolding eq by blast
    next
      case (Some data)
      define st' where "st' = \<lparr>sc_idx = sc_idx st + 1, sc_visited = sc_visited st + 1,
          sc_found = add_found (target_new P) (file_candidates U P data) (sc_found st)\<rparr>"
      have eq: "scan_files U P files st =
                (if limit_scan_files P \<noteq> 0 \<and> limit_scan_files P \<le> int (sc_visited st')
                 then st' else scan_files U P files st')"
        using go Some by (subst scan_files.simps) (simp add: st'_def Let_def)
      show ?thesis
        using 1(2)[OF go Some st'_def] 1(3) unfolding eq by (auto split: if_splits)
    qed
  next
    case False
    then have "scan_files U P files st = st"
      by (subst scan_files.simps) (rule if_not_P[OF False])
    then show ?thesis using 1(3) False by auto
  qed
qed

lemma concat_chunks: "concat (chunks xs n) = xs"
  by (induction xs n rule: chunks.induct) (subst chunks.simps, auto)

lemmas sync_eval = sync_scan_def scan_files_done scan_files_unreadable scan_files_file
  file_candidates_def is_new_def add_token_def is_word_candidate_def collect_from_string_def
  word_re_head_def word_re_tail_def run_len_def py_strip_def py_lstrip_def py_rstrip_def
  py_isspace_def setdefault_def str_lower_def ascii_def ascii_class_defs ascii_ucd_def STOPWORDS_def
  Let_def

text \<open>The options of the examples below: the defaults of \<open>main\<close> with \<open>--target-new 1\<close>.\<close>

definition example_cfg :: scan_cfg where
  "example_cfg =
     \<lparr>sc_collect = \<lparr>min_len = 1, max_len = 64, stopwords = STOPWORDS, use_stopwords = True\<rparr>,
      sc_fast = False, target_new = 1, limit_scan_files = 0,
      have_words = {}, blacklist = {}, failed_prev = {}\<rparr>"

text \<open>
  A run stops as soon as the target is reached, in the middle of a file, and saves the
  index after that file: the next run starts at the following file, so the other new
  words of that file are not seen again until the list wraps around.
\<close>

lemma sync_resume_skips_rest:
  "sync_scan ascii_ucd example_cfg [Some (JList [JStr (ascii ''alpha beta'')]), Some (JList [])]
     [Some (JList [JStr (ascii ''alpha beta'')]), Some (JList [])] 0 =
   ([ascii ''alpha''], 1, [Some (JList [JStr (ascii ''alpha beta'')]), Some (JList [])]) \<and>
   sync_scan ascii_ucd example_cfg [Some (JList [JStr (ascii ''alpha beta'')]), Some (JList [])]
     [Some (JList [JStr (ascii ''alpha beta'')]), Some (JList [])] 1 =
   ([], 2, [Some (JList [JStr (ascii ''alpha beta'')]), Some (JList [])])"
  by (simp add: sync_eval example_cfg_def)

section \<open>Properties\<close>

text \<open>
  C35. Whatever the files and options, the lemmas a scan collects from a fresh
  \<open>found_map\<close> have distinct keys, each key is the lower case of its lemma and is not in
  the database, on the blacklist or among the earlier failures, there are at most
  \<open>--target-new\<close> of them, and the saved index lies between the start and the end of the
  list.
\<close>

theorem scan_files_found_new:
  "found_ok U P (sc_found (scan_files U P files \<lparr>sc_idx = i, sc_visited = 0, sc_found = []\<rparr>)) \<and>
   int (length (sc_found (scan_files U P files \<lparr>sc_idx = i, sc_visited = 0, sc_found = []\<rparr>)))
     \<le> max 0 (target_new P) \<and>
   i \<le> sc_idx (scan_files U P files \<lparr>sc_idx = i, sc_visited = 0, sc_found = []\<rparr>) \<and>
   sc_idx (scan_files U P files \<lparr>sc_idx = i, sc_visited = 0, sc_found = []\<rparr>) \<le> max i (length files)"
  using scan_files_inv[of U P "\<lparr>sc_idx = i, sc_visited = 0, sc_found = []\<rparr>" files] by simp

text \<open>
  C36. The scan leaves files unvisited only for one of its two reasons: the target was
  reached, or \<open>--limit-scan-files\<close> is set and that many files were visited.
\<close>

theorem scan_files_stops_early_only_at_limits:
  "sc_idx (scan_files U P files st) < length files \<Longrightarrow>
   target_new P \<le> int (length (sc_found (scan_files U P files st))) \<or>
   (limit_scan_files P \<noteq> 0 \<and> limit_scan_files P \<le> int (sc_visited (scan_files U P files st)))"
  by (rule scan_files_stop)

theorem scan_files_stops_early_only_at_limits_witness:
  "sc_idx (scan_files ascii_ucd example_cfg [Some (JList [JStr (ascii ''alpha beta'')]), Some (JList [])]
      \<lparr>sc_idx = 0, sc_visited = 0, sc_found = []\<rparr>) < 2 \<and>
   1 \<le> int (length (sc_found (scan_files ascii_ucd example_cfg
      [Some (JList [JStr (ascii ''alpha beta'')]), Some (JList [])]
      \<lparr>sc_idx = 0, sc_visited = 0, sc_found = []\<rparr>)))"
proof -
  have r: "scan_files ascii_ucd example_cfg [Some (JList [JStr (ascii ''alpha beta'')]), Some (JList [])]
      \<lparr>sc_idx = 0, sc_visited = 0, sc_found = []\<rparr> =
      \<lparr>sc_idx = 1, sc_visited = 1, sc_found = [(ascii ''alpha'', ascii ''alpha'')]\<rparr>"
    by (simp add: sync_eval example_cfg_def)
  show ?thesis
    using scan_files_stops_early_only_at_limits[of ascii_ucd example_cfg
        "[Some (JList [JStr (ascii ''alpha beta'')]), Some (JList [])]"
        "\<lparr>sc_idx = 0, sc_visited = 0, sc_found = []\<rparr>"]
    unfolding r by (simp add: example_cfg_def)
qed

text \<open>
  C37. Batching does not change which words fail or their order: for every
  \<open>--batch-size\<close> (zero or negative included) the failed list is the new list filtered by
  the outcome of \<open>scrape_one\<close>.
\<close>

theorem scrape_all_batching:
  "scrape_all attempt retries batch_size new_list =
   filter (\<lambda>w. \<not> scrape_one attempt retries w) new_list"
  by (simp add: scrape_all_def concat_chunks flip: filter_concat)

end
