(* ===== verification/Store.thy ===== *)
theory Store
  imports Json
begin

text \<open>
  The L0 SQLite store: \<open>connect\<close> and \<open>upsert_lemma\<close> of \<open>src/memory/adapters/l0_db.py\<close>
  and their copies \<open>db_connect\<close> and \<open>upsert_lemma\<close> in \<open>wiktionary_scraper.py\<close>.
  \<open>upsert_stmts\<close> is the Python code: the SQL statements it issues, in order, with
  their parameters, and the exception that ends it early, if any. \<open>exec_stmt\<close> is the
  part of SQLite these statements rely on: a statement on a table that does not exist
  fails, \<open>BEGIN\<close> inside an open transaction fails, parameters must be scalars, and only
  \<open>COMMIT\<close> makes the work durable. The repository creates only \<open>l0_entry\<close>; the keys
  of the other tables are not in it, so their rows are kept as inserted.
\<close>

section \<open>Statements\<close>

text \<open>A statement parameter: a Python value, or the text \<open>json.dumps\<close> made of one.\<close>

datatype sqlp = PVal json | PDump json

datatype sql_stmt =
    SBegin
  | SUpsertEntry sqlp json
  | SDelete ustr sqlp
  | SInsert ustr "sqlp list"
  | SInsertMany ustr "sqlp list list"
  | SCommit

definition T_entry :: ustr where "T_entry = ascii ''l0_entry''"
definition T_variant :: ustr where "T_variant = ascii ''l0_variant''"
definition T_def :: ustr where "T_def = ascii ''l0_def''"
definition T_def_label :: ustr where "T_def_label = ascii ''l0_def_label''"
definition T_example :: ustr where "T_example = ascii ''l0_example''"
definition T_forms_noun :: ustr where "T_forms_noun = ascii ''l0_forms_noun''"
definition T_forms_adjadv :: ustr where "T_forms_adjadv = ascii ''l0_forms_adjadv''"
definition T_forms_verb :: ustr where "T_forms_verb = ascii ''l0_forms_verb''"

text \<open>\<open>VERB_CONCEPTS\<close>, the columns of \<open>l0_forms_verb\<close> in order.\<close>

definition VERB_CONCEPTS :: "ustr list" where
  "VERB_CONCEPTS = map ascii [''1PSP'', ''2PSP'', ''3PSP'', ''PLSP'', ''1PST'', ''2PST'', ''3PST'',
                              ''PLPT'', ''SIMPLE'', ''PAP'', ''PRP'', ''INF'', ''GER'']"

section \<open>The harvest loop\<close>

text \<open>
  The accumulators of the loop over \<open>entries[*]["pos"][*][*]\<close>: the first noun plural,
  the merged degree forms of \<open>ADJ\<close> and \<open>ADV\<close> (\<open>JNull\<close> for \<open>None\<close>), the merged verb
  forms in \<open>VERB_CONCEPTS\<close> order, and the rows of \<open>l0_def\<close>, \<open>l0_def_label\<close>,
  \<open>l0_example\<close>.
\<close>

record Harvest =
  hv_noun :: "json option"
  hv_adj :: "json \<times> json"
  hv_adv :: "json \<times> json"
  hv_verb :: "json list"
  hv_senses :: "sqlp list list"
  hv_labels :: "sqlp list list"
  hv_examples :: "sqlp list list"

definition Harvest_init :: Harvest where
  "Harvest_init = \<lparr>hv_noun = None, hv_adj = (JNull, JNull), hv_adv = (JNull, JNull),
                   hv_verb = map (\<lambda>_. JNull) VERB_CONCEPTS, hv_senses = [], hv_labels = [],
                   hv_examples = []\<rparr>"

text \<open>\<open>_merge(a, b)\<close> and \<open>d.get(k)\<close> on a value that must be a dict.\<close>

definition py_merge :: "json \<Rightarrow> json \<Rightarrow> json" where
  "py_merge a b = (if py_truthy a then a else b)"

fun obj_get :: "json \<Rightarrow> ustr \<Rightarrow> py_exc + json" where
  "obj_get (JDict kv) k = Inr (case dict_get kv k of Some v \<Rightarrow> v | None \<Rightarrow> JNull)"
| "obj_get _ k = Inl AttributeError"

definition obj_get_or :: "json \<Rightarrow> ustr \<Rightarrow> json \<Rightarrow> py_exc + json" where
  "obj_get_or d k dflt = sum_bind (obj_get d k) (\<lambda>v. Inr (if py_truthy v then v else dflt))"

text \<open>\<open>(d.get("definition") or "").strip()\<close>.\<close>

definition gloss_of :: "json \<Rightarrow> py_exc + ustr" where
  "gloss_of d = sum_bind (obj_get_or d (ascii ''definition'') (JStr []))
                  (\<lambda>v. case v of JStr s \<Rightarrow> Inr (py_strip s) | _ \<Rightarrow> Inl AttributeError)"

text \<open>\<open>for lb in labels: if isinstance(lb, str) and lb.strip(): ...\<close>\<close>

definition nonblank_strs :: "json list \<Rightarrow> ustr list" where
  "nonblank_strs xs = concat (map (\<lambda>x. case x of JStr s \<Rightarrow> if py_strip s \<noteq> [] then [py_strip s] else []
                                               | _ \<Rightarrow> []) xs)"

definition dump_or_null :: "json \<Rightarrow> sqlp" where
  "dump_or_null v = (if py_truthy v then PDump v else PVal JNull)"

text \<open>
  The rows of one sense (\<open>k = None\<close>) or subsense: the \<open>l0_def\<close> row, one label row per
  non-blank label, one example row per non-blank example with its 1-based index.
  Returns \<open>None\<close> for a blank gloss (\<open>continue\<close>).
\<close>

definition sense_rows ::
  "json \<Rightarrow> ustr \<Rightarrow> nat \<Rightarrow> nat option \<Rightarrow> json
   \<Rightarrow> py_exc + (sqlp list \<times> sqlp list list \<times> sqlp list list) option" where
  "sense_rows lem pos i k d =
     sum_bind (gloss_of d) (\<lambda>gloss.
       if gloss = [] then Inr None
       else sum_bind (obj_get_or d (ascii ''labels'') (JList [])) (\<lambda>labels.
            sum_bind (obj_get d (ascii ''label_groups'')) (\<lambda>lgroups.
            sum_bind (py_iter labels) (\<lambda>lbs.
            sum_bind (obj_get_or d (ascii ''examples'') (JList [])) (\<lambda>exs.
            sum_bind (py_iter exs) (\<lambda>exl.
              let key = [PVal lem, PVal (JStr pos), PVal (JInt (int i)),
                         PVal (case k of Some k' \<Rightarrow> JInt (int k') | None \<Rightarrow> JNull)]
              in Inr (Some (key @ [PVal (JStr gloss), dump_or_null labels, dump_or_null lgroups],
                            map (\<lambda>lb. key @ [PVal (JStr lb)]) (nonblank_strs lbs),
                            concat (map (\<lambda>(j, ex). case ex of
                                           JStr s \<Rightarrow> if py_strip s \<noteq> []
                                                     then [key @ [PVal (JInt (int j)), PVal (JStr (py_strip s))]]
                                                     else []
                                         | _ \<Rightarrow> []) (zip [1..<Suc (length exl)] exl))))))))))"

definition add_rows ::
  "Harvest \<Rightarrow> (sqlp list \<times> sqlp list list \<times> sqlp list list) option \<Rightarrow> Harvest" where
  "add_rows h r =
     (case r of None \<Rightarrow> h
      | Some (s, ls, es) \<Rightarrow> h\<lparr>hv_senses := hv_senses h @ [s], hv_labels := hv_labels h @ ls,
                               hv_examples := hv_examples h @ es\<rparr>)"

text \<open>One definition with its subdefinitions (lines 116-151 of \<open>l0_db.py\<close>).\<close>

definition harvest_def :: "json \<Rightarrow> ustr \<Rightarrow> Harvest \<Rightarrow> nat \<times> json \<Rightarrow> py_exc + Harvest" where
  "harvest_def lem pos h idd =
     (let (i, d) = idd in
      sum_bind (sense_rows lem pos i None d) (\<lambda>r.
        case r of
          None \<Rightarrow> Inr h
        | Some _ \<Rightarrow>
            sum_bind (obj_get_or d (ascii ''subdefinitions'') (JList [])) (\<lambda>sds.
            sum_bind (py_iter sds) (\<lambda>sdl.
              foldM (\<lambda>h' (k, sd). sum_bind (sense_rows lem pos i (Some k) sd) (\<lambda>r'. Inr (add_rows h' r')))
                (zip [1..<Suc (length sdl)] sdl) (add_rows h r)))))"

text \<open>The forms harvest of one block; \<open>forms.get\<close> is evaluated only where the code does.\<close>

definition harvest_forms :: "ustr \<Rightarrow> json \<Rightarrow> Harvest \<Rightarrow> py_exc + Harvest" where
  "harvest_forms pos forms h =
     (if pos \<in> set (map ascii [''N'', ''PROPN'', ''LETTER''])
      then (if hv_noun h = None
            then sum_bind (obj_get forms (ascii ''plural'')) (\<lambda>pl.
                   Inr (if py_truthy pl then h\<lparr>hv_noun := Some pl\<rparr> else h))
            else Inr h)
      else if pos \<in> set (map ascii [''ADJ'', ''ADV''])
      then sum_bind (obj_get forms (ascii ''comparative'')) (\<lambda>c.
           sum_bind (obj_get forms (ascii ''superlative'')) (\<lambda>s.
             Inr (if pos = ascii ''ADJ''
                  then h\<lparr>hv_adj := (py_merge (fst (hv_adj h)) c, py_merge (snd (hv_adj h)) s)\<rparr>
                  else h\<lparr>hv_adv := (py_merge (fst (hv_adv h)) c, py_merge (snd (hv_adv h)) s)\<rparr>)))
      else if pos = ascii ''V''
      then sum_bind (obj_get_or forms (ascii ''verb_inflections'') (JDict [])) (\<lambda>vi.
           sum_bind (foldM (\<lambda>acc k. sum_bind (obj_get vi k) (\<lambda>v. Inr (acc @ [v]))) VERB_CONCEPTS [])
             (\<lambda>vs. Inr (h\<lparr>hv_verb := map2 py_merge (hv_verb h) vs\<rparr>)))
      else Inr h)"

definition harvest_block :: "json \<Rightarrow> ustr \<Rightarrow> Harvest \<Rightarrow> json \<Rightarrow> py_exc + Harvest" where
  "harvest_block lem pos h block =
     sum_bind (obj_get_or block (ascii ''forms'') (JDict [])) (\<lambda>forms.
     sum_bind (harvest_forms pos forms h) (\<lambda>h1.
     sum_bind (obj_get_or block (ascii ''definitions'') (JList [])) (\<lambda>defs.
     sum_bind (py_iter defs) (\<lambda>dl.
       foldM (harvest_def lem pos) (zip [1..<Suc (length dl)] dl) h1))))"

definition harvest_entry :: "json \<Rightarrow> Harvest \<Rightarrow> json \<Rightarrow> py_exc + Harvest" where
  "harvest_entry lem h ent =
     sum_bind (obj_get_or ent (ascii ''pos'') (JDict [])) (\<lambda>pm.
       case pm of
         JDict items \<Rightarrow>
           foldM (\<lambda>h' (pos, blocks). case blocks of
                                       JList bs \<Rightarrow> foldM (harvest_block lem pos) bs h'
                                     | _ \<Rightarrow> Inr h') items h
       | _ \<Rightarrow> Inl AttributeError)"

section \<open>The statements of one upsert\<close>

definition final_stmts :: "json \<Rightarrow> Harvest \<Rightarrow> sql_stmt list" where
  "final_stmts lem h =
     (if hv_senses h \<noteq> [] then [SInsertMany T_def (hv_senses h)] else []) @
     (if hv_labels h \<noteq> [] then [SInsertMany T_def_label (hv_labels h)] else []) @
     (if hv_examples h \<noteq> [] then [SInsertMany T_example (hv_examples h)] else []) @
     (case hv_noun h of
        Some np \<Rightarrow> [SInsert T_forms_noun [PVal lem, case np of JList _ \<Rightarrow> PDump np | _ \<Rightarrow> PVal np]]
      | None \<Rightarrow> []) @
     concat (map (\<lambda>(pos, (c, s)). if py_truthy c \<or> py_truthy s
                                   then [SInsert T_forms_adjadv [PVal lem, PVal (JStr pos), PVal c, PVal s]]
                                   else [])
                 [(ascii ''ADJ'', hv_adj h), (ascii ''ADV'', hv_adv h)]) @
     (if list_ex py_truthy (hv_verb h) then [SInsert T_forms_verb (PVal lem # map PVal (hv_verb h))]
      else []) @
     [SCommit]"

text \<open>
  \<open>upsert_lemma(conn, lemma_obj)\<close>: the statements issued and the exception raised in
  Python code, if any. The statements themselves may still fail when executed.
\<close>

definition upsert_stmts :: "json \<Rightarrow> sql_stmt list \<times> py_exc option" where
  "upsert_stmts obj =
     (case obj of
        JDict kv \<Rightarrow>
          (case dict_get kv (ascii ''lemma'') of
             None \<Rightarrow> ([], Some KeyError)
           | Some lem \<Rightarrow>
               (let pre = [SBegin, SUpsertEntry (PVal lem) obj, SDelete T_variant (PVal lem)]
                in case py_iter (get_or kv (ascii ''variants'') (JList [])) of
                     Inl e \<Rightarrow> (pre, Some e)
                   | Inr vs \<Rightarrow>
                       (let stmts = pre @
                              map (\<lambda>v. SInsert T_variant [PVal lem, PVal (JStr v)]) (nonblank_strs vs) @
                              map (\<lambda>t. SDelete t (PVal lem))
                                [T_def_label, T_example, T_def, T_forms_noun, T_forms_adjadv, T_forms_verb]
                        in case py_iter (get_or kv (ascii ''entries'') (JList [])) of
                             Inl e \<Rightarrow> (stmts, Some e)
                           | Inr ents \<Rightarrow>
                               (case foldM (harvest_entry lem) ents Harvest_init of
                                  Inl e \<Rightarrow> (stmts, Some e)
                                | Inr h \<Rightarrow> (stmts @ final_stmts lem h, None)))))
      | _ \<Rightarrow> ([], Some TypeError))"

section \<open>Executing statements\<close>

text \<open>A bound SQL value; \<open>SJson\<close> is the text \<open>json.dumps\<close> made of a value.\<close>

datatype sqlv = SNull | SText ustr | SInt int | SJson json

fun bind_param :: "sqlp \<Rightarrow> py_exc + sqlv" where
  "bind_param (PDump v) = Inr (SJson v)"
| "bind_param (PVal JNull) = Inr SNull"
| "bind_param (PVal (JStr s)) = Inr (SText s)"
| "bind_param (PVal (JInt i)) = Inr (SInt i)"
| "bind_param (PVal (JBool b)) = Inr (SInt (if b then 1 else 0))"
| "bind_param (PVal _) = Inl ProgrammingError"

text \<open>
  The database behind one connection: the tables that exist, whether a transaction is
  open, the working contents and the committed contents (\<open>l0_entry\<close> keyed by lemma,
  the other tables as row lists).
\<close>

record L0Data =
  l0_entries :: "(sqlv \<times> json) list"
  l0_rows :: "(ustr \<times> sqlv list list) list"

record L0DB =
  db_tables :: "ustr list"
  db_in_tx :: bool
  db_work :: L0Data
  db_committed :: L0Data

definition table_rows :: "L0Data \<Rightarrow> ustr \<Rightarrow> sqlv list list" where
  "table_rows d t = (case dict_get (l0_rows d) t of Some rs \<Rightarrow> rs | None \<Rightarrow> [])"

definition with_table :: "L0DB \<Rightarrow> ustr \<Rightarrow> (L0DB \<Rightarrow> L0DB \<times> py_exc option) \<Rightarrow> L0DB \<times> py_exc option" where
  "with_table db t f = (if t \<in> set (db_tables db) then f (db\<lparr>db_in_tx := True\<rparr>) else (db, Some OperationalError))"

definition insert_row :: "L0DB \<Rightarrow> ustr \<Rightarrow> sqlp list \<Rightarrow> L0DB \<times> py_exc option" where
  "insert_row db t ps =
     (case foldM (\<lambda>acc p. sum_bind (bind_param p) (\<lambda>v. Inr (acc @ [v]))) ps [] of
        Inl e \<Rightarrow> (db, Some e)
      | Inr row \<Rightarrow> (db\<lparr>db_work := (db_work db)\<lparr>l0_rows := dict_set (l0_rows (db_work db)) t
                                                     (table_rows (db_work db) t @ [row])\<rparr>\<rparr>, None))"

fun insert_rows :: "L0DB \<Rightarrow> ustr \<Rightarrow> sqlp list list \<Rightarrow> L0DB \<times> py_exc option" where
  "insert_rows db t [] = (db, None)"
| "insert_rows db t (ps # pss) =
     (case insert_row db t ps of (db', Some e) \<Rightarrow> (db', Some e) | (db', None) \<Rightarrow> insert_rows db' t pss)"

fun exec_stmt :: "L0DB \<Rightarrow> sql_stmt \<Rightarrow> L0DB \<times> py_exc option" where
  "exec_stmt db SBegin =
     (if db_in_tx db then (db, Some OperationalError) else (db\<lparr>db_in_tx := True\<rparr>, None))"
| "exec_stmt db (SUpsertEntry l obj) =
     with_table db T_entry (\<lambda>db'.
       case bind_param l of
         Inl e \<Rightarrow> (db', Some e)
       | Inr k \<Rightarrow> (db'\<lparr>db_work := (db_work db')\<lparr>l0_entries := dict_set (l0_entries (db_work db')) k obj\<rparr>\<rparr>,
                   None))"
| "exec_stmt db (SDelete t l) =
     with_table db t (\<lambda>db'.
       case bind_param l of
         Inl e \<Rightarrow> (db', Some e)
       | Inr k \<Rightarrow> (db'\<lparr>db_work := (db_work db')\<lparr>l0_rows := dict_set (l0_rows (db_work db')) t
                     (filter (\<lambda>row. row = [] \<or> hd row \<noteq> k) (table_rows (db_work db') t))\<rparr>\<rparr>, None))"
| "exec_stmt db (SInsert t ps) = with_table db t (\<lambda>db'. insert_row db' t ps)"
| "exec_stmt db (SInsertMany t pss) = with_table db t (\<lambda>db'. insert_rows db' t pss)"
| "exec_stmt db SCommit = (db\<lparr>db_in_tx := False, db_committed := db_work db\<rparr>, None)"

fun exec_stmts :: "L0DB \<Rightarrow> sql_stmt list \<Rightarrow> L0DB \<times> py_exc option" where
  "exec_stmts db [] = (db, None)"
| "exec_stmts db (s # ss) = (case exec_stmt db s of (db', Some e) \<Rightarrow> (db', Some e) | (db', None) \<Rightarrow> exec_stmts db' ss)"

text \<open>
  \<open>connect\<close>/\<open>db_connect\<close>: a new connection sees the committed contents and creates
  \<open>l0_entry\<close> if it is missing; closing a connection drops uncommitted work.
\<close>

definition l0_connect :: "L0DB \<Rightarrow> L0DB" where
  "l0_connect db =
     db\<lparr>db_tables := (if T_entry \<in> set (db_tables db) then db_tables db else db_tables db @ [T_entry]),
        db_in_tx := False, db_work := db_committed db\<rparr>"

definition l0_close :: "L0DB \<Rightarrow> L0DB" where
  "l0_close db = db\<lparr>db_in_tx := False, db_work := db_committed db\<rparr>"

definition upsert_lemma :: "L0DB \<Rightarrow> json \<Rightarrow> L0DB \<times> py_exc option" where
  "upsert_lemma db obj =
     (let (stmts, perr) = upsert_stmts obj;
          (db', serr) = exec_stmts db stmts
      in (db', case serr of Some e \<Rightarrow> Some e | None \<Rightarrow> perr))"

definition L0DB_empty :: L0DB where
  "L0DB_empty = \<lparr>db_tables = [], db_in_tx = False, db_work = \<lparr>l0_entries = [], l0_rows = []\<rparr>,
                 db_committed = \<lparr>l0_entries = [], l0_rows = []\<rparr>\<rparr>"

section \<open>Lemmas\<close>

lemma exec_stmts_append:
  "exec_stmts db (xs @ ys) =
   (case exec_stmts db xs of (d, Some e) \<Rightarrow> (d, Some e) | (d, None) \<Rightarrow> exec_stmts d ys)"
  by (induction db xs rule: exec_stmts.induct) (auto split: prod.split option.split)

lemma upsert_stmts_prefix:
  "dict_get kv (ascii ''lemma'') = Some lem \<Longrightarrow>
   \<exists>rest. fst (upsert_stmts (JDict kv)) =
          [SBegin, SUpsertEntry (PVal lem) (JDict kv), SDelete T_variant (PVal lem)] @ rest"
  by (auto simp: upsert_stmts_def Let_def split: sum.split)

text \<open>The first three statements fail on a store without \<open>l0_variant\<close>; the transaction
  is left open and nothing is committed.\<close>

lemma exec_prefix_fails:
  "T_variant \<notin> set (db_tables db) \<Longrightarrow>
   exec_stmts db [SBegin, SUpsertEntry (PVal (JStr s)) obj, SDelete T_variant (PVal (JStr s))] = (db', e) \<Longrightarrow>
   e = Some OperationalError \<and> db_in_tx db' \<and> db_committed db' = db_committed db"
  by (auto simp: with_table_def split: if_splits)

lemma upsert_lemma_no_variant_table:
  assumes "T_variant \<notin> set (db_tables db)" and "dict_get kv (ascii ''lemma'') = Some (JStr s)"
    and "upsert_lemma db (JDict kv) = (db', e)"
  shows "e = Some OperationalError \<and> db_in_tx db' \<and> db_committed db' = db_committed db"
proof -
  obtain rest where st: "fst (upsert_stmts (JDict kv)) =
      [SBegin, SUpsertEntry (PVal (JStr s)) (JDict kv), SDelete T_variant (PVal (JStr s))] @ rest"
    using upsert_stmts_prefix[OF assms(2)] by blast
  obtain d1 e1 where p: "exec_stmts db [SBegin, SUpsertEntry (PVal (JStr s)) (JDict kv),
                                        SDelete T_variant (PVal (JStr s))] = (d1, e1)"
    by fastforce
  have f: "e1 = Some OperationalError \<and> db_in_tx d1 \<and> db_committed d1 = db_committed db"
    using exec_prefix_fails[OF assms(1) p] .
  have x: "exec_stmts db (fst (upsert_stmts (JDict kv))) = (d1, Some OperationalError)"
    using p f unfolding st exec_stmts_append by simp
  obtain stmts perr where u: "upsert_stmts (JDict kv) = (stmts, perr)" by fastforce
  have "upsert_lemma db (JDict kv) = (d1, Some OperationalError)"
    using x unfolding upsert_lemma_def u by simp
  then show ?thesis using assms(3) f by simp
qed

lemma upsert_lemma_in_tx:
  assumes "db_in_tx db" and "dict_get kv (ascii ''lemma'') = Some lem"
  shows "upsert_lemma db (JDict kv) = (db, Some OperationalError)"
proof -
  obtain rest where st: "fst (upsert_stmts (JDict kv)) =
      [SBegin, SUpsertEntry (PVal lem) (JDict kv), SDelete T_variant (PVal lem)] @ rest"
    using upsert_stmts_prefix[OF assms(2)] by blast
  obtain stmts perr where u: "upsert_stmts (JDict kv) = (stmts, perr)" by fastforce
  show ?thesis
    using st assms(1) unfolding upsert_lemma_def u by simp
qed

lemma l0_connect_empty_tables: "db_tables (l0_connect L0DB_empty) = [T_entry]"
  by (simp add: l0_connect_def L0DB_empty_def)

section \<open>Properties\<close>

text \<open>
  C20. The schema both \<open>connect\<close> functions create holds only \<open>l0_entry\<close>, although
  \<open>upsert_lemma\<close> writes six more tables. On a store opened on an empty database, every
  \<open>upsert_lemma\<close> of a lemma object with a string lemma fails with
  \<open>OperationalError\<close> and commits nothing, and because the failed call leaves its
  transaction open, the next \<open>upsert_lemma\<close> on the same connection fails at \<open>BEGIN\<close>.
\<close>

theorem upsert_on_fresh_store_fails:
  assumes "dict_get kv (ascii ''lemma'') = Some (JStr s)"
    and "dict_get kv2 (ascii ''lemma'') = Some lem2"
    and "upsert_lemma (l0_connect L0DB_empty) (JDict kv) = (db', e)"
  shows "e = Some OperationalError \<and> db_committed db' = db_committed L0DB_empty \<and>
         upsert_lemma db' (JDict kv2) = (db', Some OperationalError)"
proof -
  have "T_variant \<notin> set (db_tables (l0_connect L0DB_empty))"
    by (simp add: l0_connect_empty_tables T_variant_def T_entry_def ascii_def)
  from upsert_lemma_no_variant_table[OF this assms(1) assms(3)]
  have "e = Some OperationalError" "db_in_tx db'" "db_committed db' = db_committed L0DB_empty"
    by (simp_all add: l0_connect_def)
  then show ?thesis using upsert_lemma_in_tx[OF _ assms(2)] by simp
qed

theorem upsert_on_fresh_store_fails_witness:
  "snd (upsert_lemma (l0_connect L0DB_empty) (JDict [(ascii ''lemma'', JStr (ascii ''go''))])) =
     Some OperationalError \<and>
   db_committed (fst (upsert_lemma (l0_connect L0DB_empty) (JDict [(ascii ''lemma'', JStr (ascii ''go''))]))) =
     db_committed L0DB_empty \<and>
   snd (upsert_lemma (fst (upsert_lemma (l0_connect L0DB_empty) (JDict [(ascii ''lemma'', JStr (ascii ''go''))])))
          (JDict [(ascii ''lemma'', JStr (ascii ''run''))])) = Some OperationalError"
proof -
  obtain db' e where r: "upsert_lemma (l0_connect L0DB_empty) (JDict [(ascii ''lemma'', JStr (ascii ''go''))]) = (db', e)"
    by fastforce
  have "e = Some OperationalError \<and> db_committed db' = db_committed L0DB_empty \<and>
        upsert_lemma db' (JDict [(ascii ''lemma'', JStr (ascii ''run''))]) = (db', Some OperationalError)"
    by (rule upsert_on_fresh_store_fails[OF _ _ r]) (simp_all add: dict_get_def)
  then show ?thesis by (simp add: r)
qed

end
