(* ===== verification/Viewer.thy ===== *)
theory Viewer
  imports Json
begin

text \<open>
  The dictionary viewer \<open>src/dictionarytest/flask_viewer.py\<close>: the lemma tree built from
  the \<open>LEMMA\<close>, \<open>VARIANT\<close>, \<open>PRONUNCIATION\<close> and \<open>POS_ENTRY\<close> tables
  (\<open>build_lemma_tree\<close>, \<open>_fetch_lemma_json\<close>, the \<open>/api/lemma\<close> routes) and the paged
  lemma list (\<open>api_lemmas\<close>). The tables are lists of rows in storage order; a query
  without \<open>ORDER BY\<close> returns rows in that order, and \<open>ORDER BY\<close> sorts stably.
  SQLite's \<open>NOCASE\<close> folds ASCII letters only; \<open>LIKE\<close> is ASCII case-insensitive with
  \<open>%\<close> and \<open>_\<close> as wildcards. SQLite's \<open>json_valid\<close> and Python's \<open>json.loads\<close> on stored
  text are parameters, and so is Python's \<open>int()\<close> on a query-string value.
\<close>

section \<open>SQLite text comparison\<close>

definition nocase_fold :: "uchar \<Rightarrow> uchar" where
  "nocase_fold c = (if 65 \<le> c \<and> c \<le> 90 then c + 32 else c)"

definition nocase_key :: "ustr \<Rightarrow> ustr" where
  "nocase_key s = map nocase_fold s"

fun like_match :: "ustr \<Rightarrow> ustr \<Rightarrow> bool" where
  "like_match [] t = (t = [])"
| "like_match (p # ps) t =
     (if p = 37 then like_match ps t \<or> (case t of [] \<Rightarrow> False | _ # t' \<Rightarrow> like_match (p # ps) t')
      else case t of
             [] \<Rightarrow> False
           | c # t' \<Rightarrow> (p = 95 \<or> nocase_fold p = nocase_fold c) \<and> like_match ps t')"

section \<open>The viewer's tables\<close>

record lemma_row =
  lr_id :: int
  lr_lemma :: ustr

record variant_row =
  vr_id :: int
  vr_lemma_id :: int
  vr_variant :: ustr

record pron_row =
  pr_id :: int
  pr_variant_id :: int
  pr_ipa :: "ustr option"
  pr_audio_ref :: "ustr option"
  pr_dialect :: "ustr option"

record pos_row =
  ps_id :: int
  ps_variant_id :: int
  ps_tag :: ustr
  ps_meta_json :: ustr

record ViewerDB =
  t_lemma :: "lemma_row list"
  t_variant :: "variant_row list"
  t_pron :: "pron_row list"
  t_pos :: "pos_row list"

record json_text =
  json_valid :: "ustr \<Rightarrow> bool"
  json_loads :: "ustr \<Rightarrow> json option"

section \<open>\<open>build_lemma_tree\<close>\<close>

text \<open>A text column is truthy when it is neither NULL nor empty.\<close>

fun col_truthy :: "ustr option \<Rightarrow> bool" where
  "col_truthy (Some s) = (s \<noteq> [])"
| "col_truthy None = False"

text \<open>Prefer IPA, then the audio reference, then the dialect.\<close>

definition pron_text :: "pron_row \<Rightarrow> json list" where
  "pron_text p =
     (if col_truthy (pr_ipa p) then [JStr (the (pr_ipa p))]
      else if col_truthy (pr_audio_ref p) then [JStr (the (pr_audio_ref p))]
      else if col_truthy (pr_dialect p) then [JStr (the (pr_dialect p))]
      else [])"

text \<open>\<open>pos_map.setdefault(tag, []).append(obj)\<close>: groups in order of first appearance.\<close>

definition group_append :: "(ustr \<times> json list) list \<Rightarrow> ustr \<Rightarrow> json \<Rightarrow> (ustr \<times> json list) list" where
  "group_append m k v =
     (case dict_get m k of Some vs \<Rightarrow> dict_set m k (vs @ [v]) | None \<Rightarrow> m @ [(k, [v])])"

definition pos_blocks :: "json_text \<Rightarrow> pos_row list \<Rightarrow> (ustr \<times> json list) list" where
  "pos_blocks J rows =
     foldl (\<lambda>m r. case json_loads J (ps_meta_json r) of
                    Some obj \<Rightarrow> group_append m (ps_tag r) obj
                  | None \<Rightarrow> m) []
       (sort_key ps_id (filter (\<lambda>r. json_valid J (ps_meta_json r)) rows))"

definition variant_entry :: "json_text \<Rightarrow> ViewerDB \<Rightarrow> variant_row \<Rightarrow> json" where
  "variant_entry J db vr =
     (let prons = concat (map pron_text (sort_key pr_id (filter (\<lambda>p. pr_variant_id p = vr_id vr) (t_pron db))));
          pm = pos_blocks J (filter (\<lambda>r. ps_variant_id r = vr_id vr) (t_pos db))
      in JDict [(ascii ''word'', JStr (vr_variant vr)), (ascii ''pronunciation'', JList prons),
                (ascii ''pos'', JDict (map (\<lambda>(t, objs). (t, JList objs)) pm))])"

definition build_lemma_tree :: "json_text \<Rightarrow> ViewerDB \<Rightarrow> ustr \<Rightarrow> json option" where
  "build_lemma_tree J db lemma =
     (case find (\<lambda>r. nocase_key (lr_lemma r) = nocase_key lemma) (t_lemma db) of
        None \<Rightarrow> None
      | Some row \<Rightarrow>
          (let vrows = sort_key (\<lambda>v. nocase_key (vr_variant v))
                         (filter (\<lambda>v. vr_lemma_id v = lr_id row) (t_variant db))
           in Some (JDict [(ascii ''lemma'', JStr (lr_lemma row)),
                           (ascii ''variants'', JList (map (\<lambda>v. JStr (vr_variant v)) vrows)),
                           (ascii ''entries'', JList (map (variant_entry J db) vrows))])))"

section \<open>Routes\<close>

datatype http_response = HttpJson json | HttpAbort int

definition fetch_lemma_json :: "json_text \<Rightarrow> ViewerDB \<Rightarrow> ustr \<Rightarrow> http_response" where
  "fetch_lemma_json J db lemma =
     (case build_lemma_tree J db lemma of None \<Rightarrow> HttpAbort 404 | Some doc \<Rightarrow> HttpJson doc)"

text \<open>\<open>/api/lemma?lemma=...\<close>: a missing or empty parameter is a 400.\<close>

definition api_lemma_query :: "json_text \<Rightarrow> ViewerDB \<Rightarrow> ustr option \<Rightarrow> http_response" where
  "api_lemma_query J db arg =
     (case arg of Some l \<Rightarrow> if l \<noteq> [] then fetch_lemma_json J db l else HttpAbort 400
      | None \<Rightarrow> HttpAbort 400)"

definition PAGE_SIZE_DEFAULT :: int where "PAGE_SIZE_DEFAULT = 50"
definition PAGE_SIZE_MAX :: int where "PAGE_SIZE_MAX = 200"

text \<open>
  \<open>api_lemmas\<close> on the query arguments \<open>q\<close>, \<open>page\<close>, \<open>page_size\<close> (\<open>None\<close> when absent).
  \<open>py_int\<close> is Python's \<open>int()\<close> on a string, \<open>None\<close> when it raises \<open>ValueError\<close>, which
  Flask turns into a 500.
\<close>

text \<open>\<open>sqlite3\<close> binds a Python \<open>int\<close> as a 64-bit integer: a larger \<open>OFFSET\<close> raises
  \<open>OverflowError\<close> before the query runs, and Flask answers 500.\<close>

definition SQLITE_INT_MAX :: int where "SQLITE_INT_MAX = 2 ^ 63 - 1"

text \<open>The page of the lemma list for the stripped query and the two integers.\<close>

definition lemmas_page :: "ViewerDB \<Rightarrow> ustr \<Rightarrow> int \<Rightarrow> int \<Rightarrow> json" where
  "lemmas_page db q pg sz =
     (let page = max 1 pg;
          page_size = min PAGE_SIZE_MAX (max 1 sz);
          offset = (page - 1) * page_size;
          like = (if q \<noteq> [] then q @ [37] else [37]);
          hits = filter (\<lambda>r. like_match like (lr_lemma r)) (t_lemma db);
          rows = take (nat page_size) (drop (nat offset) (sort_key (\<lambda>r. nocase_key (lr_lemma r)) hits))
      in JDict [(ascii ''query'', JStr q), (ascii ''page'', JInt page),
                (ascii ''page_size'', JInt page_size), (ascii ''total'', JInt (int (length hits))),
                (ascii ''items'', JList (map (\<lambda>r. JStr (lr_lemma r)) rows))])"

definition api_lemmas ::
  "(ustr \<Rightarrow> int option) \<Rightarrow> ViewerDB \<Rightarrow> ustr option \<Rightarrow> ustr option \<Rightarrow> ustr option \<Rightarrow> http_response" where
  "api_lemmas py_int db q_arg page_arg size_arg =
     (let q = py_strip (case q_arg of Some s \<Rightarrow> s | None \<Rightarrow> []);
          page_v = (case page_arg of None \<Rightarrow> Some 1
                    | Some s \<Rightarrow> if s = [] then Some 1 else py_int s);
          size_v = (case size_arg of None \<Rightarrow> Some PAGE_SIZE_DEFAULT | Some s \<Rightarrow> py_int s)
      in case page_v of
           Some pg \<Rightarrow> (case size_v of
                        Some sz \<Rightarrow> if SQLITE_INT_MAX < (max 1 pg - 1) * min PAGE_SIZE_MAX (max 1 sz)
                                  then HttpAbort 500 else HttpJson (lemmas_page db q pg sz)
                      | None \<Rightarrow> HttpAbort 500)
         | None \<Rightarrow> HttpAbort 500)"

section \<open>Lemmas\<close>

lemmas viewer_eval = nocase_key_def nocase_fold_def pron_text_def group_append_def pos_blocks_def
  variant_entry_def build_lemma_tree_def fetch_lemma_json_def api_lemma_query_def api_lemmas_def
  lemmas_page_def SQLITE_INT_MAX_def
  PAGE_SIZE_DEFAULT_def PAGE_SIZE_MAX_def json_eval py_isspace_def ascii_def Let_def

text \<open>A page never holds more than \<open>PAGE_SIZE_MAX\<close> lemmas, and \<open>page\<close> and
  \<open>page_size\<close> in the answer are at least 1.\<close>

lemma lemmas_page_bounds:
  "\<exists>total items.
     lemmas_page db q pg sz =
       JDict [(ascii ''query'', JStr q), (ascii ''page'', JInt (max 1 pg)),
              (ascii ''page_size'', JInt (min PAGE_SIZE_MAX (max 1 sz))),
              (ascii ''total'', JInt total), (ascii ''items'', JList items)] \<and>
     int (length items) \<le> min PAGE_SIZE_MAX (max 1 sz)"
proof -
  have len: "int (length (map f (take (nat k) xs))) \<le> k" if "0 \<le> k" for k :: int and f xs
    using that by (simp add: min_def) (use le_nat_iff in blast)
  have k: "0 \<le> min PAGE_SIZE_MAX (max 1 sz)" by (simp add: PAGE_SIZE_MAX_def)
  show ?thesis
    unfolding lemmas_page_def Let_def
    by (rule exI, rule exI, rule conjI[OF refl]) (rule len[OF k])
qed

text \<open>C26. Every answer of \<open>/api/lemmas\<close> has the five keys in order, the stripped query, a
  \<open>page\<close> and a \<open>page_size\<close> of at least 1, a \<open>page_size\<close> of at most \<open>PAGE_SIZE_MAX\<close>, and
  no more items than \<open>page_size\<close>, whatever the request parameters.\<close>

theorem api_lemmas_page_bounds:
  assumes "api_lemmas py_int db q pg sz = HttpJson r"
  shows "\<exists>page page_size total items.
           r = JDict [(ascii ''query'', JStr (py_strip (case q of Some s \<Rightarrow> s | None \<Rightarrow> []))),
                      (ascii ''page'', JInt page), (ascii ''page_size'', JInt page_size),
                      (ascii ''total'', JInt total), (ascii ''items'', JList items)] \<and>
           1 \<le> page \<and> 1 \<le> page_size \<and> page_size \<le> PAGE_SIZE_MAX \<and> int (length items) \<le> page_size"
proof -
  from assms obtain p z where "r = lemmas_page db (py_strip (case q of Some s \<Rightarrow> s | None \<Rightarrow> [])) p z"
    by (auto simp: api_lemmas_def Let_def split: option.splits if_splits)
  moreover obtain total items where
    "lemmas_page db (py_strip (case q of Some s \<Rightarrow> s | None \<Rightarrow> [])) p z =
       JDict [(ascii ''query'', JStr (py_strip (case q of Some s \<Rightarrow> s | None \<Rightarrow> []))),
              (ascii ''page'', JInt (max 1 p)), (ascii ''page_size'', JInt (min PAGE_SIZE_MAX (max 1 z))),
              (ascii ''total'', JInt total), (ascii ''items'', JList items)]"
    "int (length items) \<le> min PAGE_SIZE_MAX (max 1 z)"
    using lemmas_page_bounds by blast
  ultimately show ?thesis by (auto simp: PAGE_SIZE_MAX_def)
qed

text \<open>The search string is used as a \<open>LIKE\<close> pattern without escaping: \<open>_\<close> in a query
  matches any character, so searching \<open>a_c\<close> lists \<open>abc\<close>.\<close>

lemma api_lemmas_underscore_wildcard:
  "api_lemmas (\<lambda>_. None) \<lparr>t_lemma = [\<lparr>lr_id = 1, lr_lemma = ascii ''abc''\<rparr>], t_variant = [], t_pron = [],
                             t_pos = []\<rparr> (Some (ascii ''a_c'')) None None =
   HttpJson (JDict [(ascii ''query'', JStr (ascii ''a_c'')), (ascii ''page'', JInt 1),
                    (ascii ''page_size'', JInt 50), (ascii ''total'', JInt 1),
                    (ascii ''items'', JList [JStr (ascii ''abc'')])])"
  by (simp add: viewer_eval)

text \<open>A page number whose offset exceeds SQLite's integers is an internal server error.\<close>

lemma api_lemmas_offset_overflow:
  "api_lemmas (\<lambda>_. Some (2 ^ 62)) \<lparr>t_lemma = [], t_variant = [], t_pron = [], t_pos = []\<rparr>
     None (Some (ascii ''4611686018427387904'')) (Some (ascii ''200'')) = HttpAbort 500"
  by (simp add: viewer_eval)

lemma api_lemmas_page_bounds_witness:
  "\<exists>page page_size total items.
     JDict [(ascii ''query'', JStr (ascii ''a_c'')), (ascii ''page'', JInt 1),
            (ascii ''page_size'', JInt 50), (ascii ''total'', JInt 1),
            (ascii ''items'', JList [JStr (ascii ''abc'')])]
     = JDict [(ascii ''query'', JStr (py_strip (ascii ''a_c''))),
              (ascii ''page'', JInt page), (ascii ''page_size'', JInt page_size),
              (ascii ''total'', JInt total), (ascii ''items'', JList items)] \<and>
     1 \<le> page \<and> 1 \<le> page_size \<and> page_size \<le> PAGE_SIZE_MAX \<and> int (length items) \<le> page_size"
  using api_lemmas_page_bounds[OF api_lemmas_underscore_wildcard] by simp

end
