(* ===== verification/Dictfiles.thy ===== *)
theory Dictfiles
  imports Json
begin

text \<open>
  The JSON dictionary on disk, \<open>src/memory/adapters/language/dictionary_maker.py\<close> and
  \<open>dictionary_loader.py\<close>. The file system is an association list from paths (lists of
  names, the root \<open>[]\<close> always a directory) to nodes: a directory, a file holding a JSON
  value, or a file whose text \<open>json.load\<close> rejects. \<open>json.dump\<close> followed by \<open>json.load\<close>
  gives the value back, so a written file holds the value itself. \<open>os.listdir\<close> reports the
  entries of a directory in the order they were created.
\<close>

section \<open>The file system\<close>

datatype fnode = FDir | FFile json | FCorrupt

type_synonym path = "ustr list"
type_synonym fsys = "(path \<times> fnode) list"

definition fs_isdir :: "fsys \<Rightarrow> path \<Rightarrow> bool" where
  "fs_isdir fs p \<longleftrightarrow> p = [] \<or> dict_get fs p = Some FDir"

definition fs_isfile :: "fsys \<Rightarrow> path \<Rightarrow> bool" where
  "fs_isfile fs p \<longleftrightarrow> (case dict_get fs p of Some FDir \<Rightarrow> False | Some _ \<Rightarrow> True | None \<Rightarrow> False)"

definition fs_exists :: "fsys \<Rightarrow> path \<Rightarrow> bool" where
  "fs_exists fs p \<longleftrightarrow> p = [] \<or> dict_get fs p \<noteq> None"

text \<open>\<open>os.listdir(d)\<close>: the names directly below \<open>d\<close>; a missing directory raises.\<close>

definition fs_listdir :: "fsys \<Rightarrow> path \<Rightarrow> py_exc + ustr list" where
  "fs_listdir fs d =
     (if fs_isdir fs d then Inr (map last (filter (\<lambda>p. p \<noteq> [] \<and> butlast p = d) (map fst fs)))
      else Inl OSError)"

text \<open>\<open>json.load(open(p))\<close>: a corrupt file raises \<open>JSONDecodeError\<close>, a directory or a
  missing file \<open>OSError\<close>.\<close>

definition fs_load :: "fsys \<Rightarrow> path \<Rightarrow> py_exc + json" where
  "fs_load fs p = (case dict_get fs p of Some (FFile v) \<Rightarrow> Inr v | Some FCorrupt \<Rightarrow> Inl JSONDecodeError
                   | _ \<Rightarrow> Inl OSError)"

text \<open>\<open>json.dump(v, open(p, "w"))\<close>: the parent must be a directory and \<open>p\<close> not one.\<close>

definition fs_write :: "fsys \<Rightarrow> path \<Rightarrow> json \<Rightarrow> py_exc + fsys" where
  "fs_write fs p v =
     (if p \<noteq> [] \<and> fs_isdir fs (butlast p) \<and> dict_get fs p \<noteq> Some FDir
      then Inr (dict_set fs p (FFile v)) else Inl OSError)"

definition fs_remove :: "fsys \<Rightarrow> path \<Rightarrow> py_exc + fsys" where
  "fs_remove fs p = (if fs_isfile fs p then Inr (filter (\<lambda>e. fst e \<noteq> p) fs) else Inl OSError)"

text \<open>\<open>os.makedirs(d, exist_ok=True)\<close>: each missing prefix of \<open>d\<close> becomes a directory; a
  prefix that is a file raises.\<close>

definition mkdir_step :: "fsys \<Rightarrow> path \<Rightarrow> py_exc + fsys" where
  "mkdir_step fs q = (case dict_get fs q of None \<Rightarrow> Inr (fs @ [(q, FDir)]) | Some FDir \<Rightarrow> Inr fs
                      | Some _ \<Rightarrow> Inl OSError)"

definition makedirs :: "fsys \<Rightarrow> path \<Rightarrow> py_exc + fsys" where
  "makedirs fs d = foldM mkdir_step (map (\<lambda>i. take i d) [1..<Suc (length d)]) fs"

text \<open>A well-formed file system: one node per path, and the parent of every node a directory.\<close>

definition wf_fs :: "fsys \<Rightarrow> bool" where
  "wf_fs fs \<longleftrightarrow> distinct (map fst fs) \<and> list_all (\<lambda>p. p \<noteq> [] \<and> fs_isdir fs (butlast p)) (map fst fs)"

section \<open>Python values\<close>

text \<open>\<open>d.get(k, default)\<close>, \<open>d[k]\<close>, \<open>len(v)\<close>, \<open>str.lower\<close>/\<open>str.upper\<close> receivers, and
  \<open>os.path.join(d, v)\<close> with a value that must be a string.\<close>

fun py_get :: "json \<Rightarrow> ustr \<Rightarrow> json \<Rightarrow> py_exc + json" where
  "py_get (JDict kv) k dflt = Inr (case dict_get kv k of Some v \<Rightarrow> v | None \<Rightarrow> dflt)"
| "py_get _ k dflt = Inl AttributeError"

fun py_index :: "json \<Rightarrow> ustr \<Rightarrow> py_exc + json" where
  "py_index (JDict kv) k = (case dict_get kv k of Some v \<Rightarrow> Inr v | None \<Rightarrow> Inl KeyError)"
| "py_index _ k = Inl TypeError"

fun py_len :: "json \<Rightarrow> py_exc + nat" where
  "py_len (JList xs) = Inr (length xs)"
| "py_len (JDict kv) = Inr (length kv)"
| "py_len (JStr s) = Inr (length s)"
| "py_len _ = Inl TypeError"

fun as_str :: "json \<Rightarrow> py_exc + ustr" where
  "as_str (JStr s) = Inr s"
| "as_str _ = Inl AttributeError"

fun path_name :: "json \<Rightarrow> py_exc + ustr" where
  "path_name (JStr s) = Inr s"
| "path_name _ = Inl TypeError"

fun is_dict :: "json \<Rightarrow> bool" where
  "is_dict (JDict _) = True"
| "is_dict _ = False"

definition str_upper :: "ucd \<Rightarrow> ustr \<Rightarrow> ustr" where
  "str_upper U s = concat (map (u_upper U) s)"

text \<open>
  Python's \<open>==\<close> on JSON values: \<open>True == 1\<close>, and two dicts are equal when they have the
  same keys with equal values, whatever their order. On dicts with distinct keys, which
  are all the dicts \<open>json.load\<close> builds, that is equality of the normal forms below.
\<close>

fun py_norm :: "json \<Rightarrow> json" where
  "py_norm (JBool b) = JInt (if b then 1 else 0)"
| "py_norm (JList xs) = JList (map py_norm xs)"
| "py_norm (JDict kv) = JDict (sort_key fst (map (\<lambda>p. (fst p, py_norm (snd p))) kv))"
| "py_norm v = v"

definition py_eq :: "json \<Rightarrow> json \<Rightarrow> bool" where
  "py_eq a b \<longleftrightarrow> py_norm a = py_norm b"

text \<open>\<open>v.get("forms", {}).get("FORM", {}).get("INFLECTION", {})\<close>.\<close>

definition inflections_of :: "json \<Rightarrow> py_exc + json" where
  "inflections_of v =
     sum_bind (py_get v (ascii ''forms'') (JDict [])) (\<lambda>f.
     sum_bind (py_get f (ascii ''FORM'') (JDict [])) (\<lambda>g.
     py_get g (ascii ''INFLECTION'') (JDict [])))"

section \<open>\<open>save_entry\<close>\<close>

definition RESERVED_WINDOWS_NAMES :: "ustr list" where
  "RESERVED_WINDOWS_NAMES =
     map ascii [''con'', ''prn'', ''aux'', ''nul'', ''com1'', ''com2'', ''lpt1'', ''lpt2'']"

text \<open>\<open>base = inflections.get("INF", entry["lemma"]) or entry["lemma"]\<close>: the attribute
  \<open>get\<close> is looked up before its argument is evaluated, and \<open>base.lower()\<close> needs a string.\<close>

definition entry_base :: "json \<Rightarrow> py_exc + ustr" where
  "entry_base entry =
     sum_bind (inflections_of entry) (\<lambda>infl.
       if \<not> is_dict infl then Inl AttributeError
       else sum_bind (py_index entry (ascii ''lemma'')) (\<lambda>lem.
            sum_bind (py_get infl (ascii ''INF'') lem) (\<lambda>b.
            sum_bind (if py_truthy b then Inr b else py_index entry (ascii ''lemma'')) as_str)))"

definition entry_file :: "ucd \<Rightarrow> ustr \<Rightarrow> ustr" where
  "entry_file U base =
     (let raw = str_lower U base;
          fname = (if raw \<in> set RESERVED_WINDOWS_NAMES then raw @ ascii ''_lex'' else raw)
      in fname @ ascii ''.json'')"

definition fresh_container :: "json \<Rightarrow> py_exc + json" where
  "fresh_container entry =
     sum_bind (py_index entry (ascii ''word'')) (\<lambda>w.
     sum_bind (py_index entry (ascii ''lemma'')) (\<lambda>l.
     sum_bind (py_index entry (ascii ''pos'')) (\<lambda>p.
     Inr (JDict [(ascii ''word'', w), (ascii ''lemma'', l), (ascii ''pos'', p),
                 (ascii ''variants'', JList [])]))))"

definition load_container :: "fsys \<Rightarrow> path \<Rightarrow> json \<Rightarrow> py_exc + json" where
  "load_container fs p entry =
     (if fs_exists fs p
      then (case fs_load fs p of Inr c \<Rightarrow> Inr c
            | Inl e \<Rightarrow> if e = JSONDecodeError then fresh_container entry else Inl e)
      else fresh_container entry)"

definition make_variant :: "json \<Rightarrow> py_exc + json" where
  "make_variant entry =
     sum_bind (py_get entry (ascii ''etymology'') JNull) (\<lambda>ety.
     sum_bind (py_get entry (ascii ''pos_index'') JNull) (\<lambda>pidx.
     sum_bind (py_get entry (ascii ''forms'') (JDict [])) (\<lambda>fo.
     sum_bind (py_get entry (ascii ''pronunciation'') (JStr [])) (\<lambda>pr.
     sum_bind (py_get entry (ascii ''definitions'') (JList [])) (\<lambda>df.
     Inr (JDict [(ascii ''etymology'', ety), (ascii ''pos_index'', pidx), (ascii ''forms'', fo),
                 (ascii ''pronunciation'', pr), (ascii ''definitions'', df)]))))))"

text \<open>The dedupe: the variant is appended unless its definitions equal those of a variant
  already in the container.\<close>

definition add_variant :: "json \<Rightarrow> json \<Rightarrow> py_exc + json" where
  "add_variant c variant =
     sum_bind (py_index c (ascii ''variants'')) (\<lambda>vs.
     sum_bind (py_iter vs) (\<lambda>items.
     sum_bind (seq_sum (map (\<lambda>v. py_index v (ascii ''definitions'')) items)) (\<lambda>existing.
     sum_bind (py_index variant (ascii ''definitions'')) (\<lambda>defs.
       if list_ex (py_eq defs) existing then Inr c
       else (case (c, vs) of
               (JDict kv, JList xs) \<Rightarrow> Inr (JDict (dict_set kv (ascii ''variants'') (JList (xs @ [variant]))))
             | _ \<Rightarrow> Inl AttributeError)))))"

definition save_entry :: "ucd \<Rightarrow> json \<Rightarrow> path \<Rightarrow> fsys \<Rightarrow> py_exc + fsys" where
  "save_entry U entry out fs =
     sum_bind (makedirs fs out) (\<lambda>fs1.
     sum_bind (entry_base entry) (\<lambda>base.
     (let p = out @ [entry_file U base] in
      sum_bind (load_container fs1 p entry) (\<lambda>c.
      sum_bind (make_variant entry) (\<lambda>v.
      sum_bind (add_variant c v) (\<lambda>c'.
      fs_write fs1 p c'))))))"

section \<open>\<open>sort_wiktionary_dumps\<close>\<close>

definition sort_one :: "ucd \<Rightarrow> path \<Rightarrow> fsys \<Rightarrow> json \<Rightarrow> py_exc + fsys" where
  "sort_one U out fs entry =
     sum_bind (py_get entry (ascii ''raw_label'') (JStr [])) (\<lambda>rl.
     sum_bind (as_str rl) (\<lambda>s.
     sum_bind (if str_lower U s = ascii ''proper noun'' then Inr (JStr (ascii ''PROPN''))
               else py_index entry (ascii ''pos'')) (\<lambda>pf.
     sum_bind (path_name pf) (\<lambda>name.
     save_entry U entry (out @ [name]) fs))))"

definition DUMP_SUFFIX :: ustr where
  "DUMP_SUFFIX = ascii ''_wiktionary_dump.json''"

definition sort_dump :: "ucd \<Rightarrow> path \<Rightarrow> path \<Rightarrow> fsys \<Rightarrow> ustr \<Rightarrow> py_exc + fsys" where
  "sort_dump U dump out fs fname =
     (if \<not> endswith fname DUMP_SUFFIX then Inr fs
      else (let p = dump @ [fname] in
            sum_bind (fs_load fs p) (\<lambda>entries.
            sum_bind (py_iter entries) (\<lambda>es.
            sum_bind (foldM (sort_one U out) es fs) (\<lambda>fs'.
            fs_remove fs' p)))))"

definition sort_wiktionary_dumps :: "ucd \<Rightarrow> path \<Rightarrow> path \<Rightarrow> fsys \<Rightarrow> py_exc + fsys" where
  "sort_wiktionary_dumps U dump out fs =
     sum_bind (fs_listdir fs dump) (\<lambda>names. foldM (sort_dump U dump out) names fs)"

section \<open>\<open>build_manifest\<close>\<close>

text \<open>One manifest row per variant: the counts of \<open>dictionary_maker.build_manifest\<close>, the
  entries of the dict literal evaluated in their order.\<close>

definition manifest_row :: "ustr \<Rightarrow> ustr \<Rightarrow> json \<Rightarrow> json \<Rightarrow> json \<Rightarrow> py_exc + json" where
  "manifest_row pos fname c lemma v =
     sum_bind (inflections_of v) (\<lambda>forms.
     sum_bind (py_len forms) (\<lambda>total.
     sum_bind (case forms of JDict kv \<Rightarrow> Inr (length (filter (\<lambda>p. py_truthy (snd p)) kv))
               | _ \<Rightarrow> Inl AttributeError) (\<lambda>filled.
     sum_bind (py_index c (ascii ''pos'')) (\<lambda>pv.
     sum_bind (py_get v (ascii ''pos_index'') JNull) (\<lambda>pidx.
     sum_bind (py_get v (ascii ''etymology'') JNull) (\<lambda>ety.
     sum_bind (sum_bind (py_get v (ascii ''definitions'') (JList [])) py_len) (\<lambda>dc.
     sum_bind (sum_bind (py_get v (ascii ''definitions'') (JList [])) (\<lambda>ds.
               sum_bind (py_iter ds) (\<lambda>ds'.
               seq_sum (map (\<lambda>d. sum_bind (py_get d (ascii ''examples'') (JList [])) py_len) ds'))))
       (\<lambda>exs.
     Inr (JDict [(ascii ''path'', JStr (pos @ ascii ''/'' @ fname)), (ascii ''lemma'', lemma),
                 (ascii ''pos'', pv), (ascii ''pos_index'', pidx), (ascii ''etymology'', ety),
                 (ascii ''definition_count'', JInt (int dc)),
                 (ascii ''example_count'', JInt (int (sum_list exs))),
                 (ascii ''form_slots'', JInt (int total)), (ascii ''filled_slots'', JInt (int filled))])))))))))"

definition manifest_file :: "fsys \<Rightarrow> path \<Rightarrow> ustr \<Rightarrow> json list \<Rightarrow> ustr \<Rightarrow> py_exc + json list" where
  "manifest_file fs dd pos acc fname =
     (if \<not> endswith fname (ascii ''.json'') then Inr acc
      else sum_bind (fs_load fs (dd @ [pos, fname])) (\<lambda>c.
           sum_bind (py_get c (ascii ''lemma'') (JStr (take (length fname - 5) fname))) (\<lambda>lemma.
           sum_bind (py_get c (ascii ''variants'') (JList [])) (\<lambda>vs0.
           sum_bind (py_iter vs0) (\<lambda>vs.
           foldM (\<lambda>acc' v. sum_bind (manifest_row pos fname c lemma v) (\<lambda>r. Inr (acc' @ [r]))) vs acc)))))"

definition manifest_pos :: "fsys \<Rightarrow> path \<Rightarrow> json list \<Rightarrow> ustr \<Rightarrow> py_exc + json list" where
  "manifest_pos fs dd acc pos =
     (if \<not> fs_isdir fs (dd @ [pos]) then Inr acc
      else sum_bind (fs_listdir fs (dd @ [pos])) (\<lambda>names. foldM (manifest_file fs dd pos) names acc))"

definition MANIFEST_NAME :: ustr where
  "MANIFEST_NAME = ascii ''manifest.json''"

definition build_manifest :: "path \<Rightarrow> fsys \<Rightarrow> py_exc + fsys" where
  "build_manifest dd fs =
     sum_bind (fs_listdir fs dd) (\<lambda>poss.
     sum_bind (foldM (manifest_pos fs dd) poss []) (\<lambda>m.
     fs_write fs (dd @ [MANIFEST_NAME]) (JList m)))"

section \<open>\<open>build_pos_manifests\<close>\<close>

text \<open>\<open>by_pos[e["pos"]].append(e)\<close> on a \<open>defaultdict(list)\<close>: a list or dict key raises
  \<open>TypeError\<close>; keys compare with \<open>==\<close>, the first one inserted is kept.\<close>

fun py_hashable :: "json \<Rightarrow> bool" where
  "py_hashable (JList _) = False"
| "py_hashable (JDict _) = False"
| "py_hashable _ = True"

definition group_add :: "(json \<times> json list) list \<Rightarrow> json \<Rightarrow> json \<Rightarrow> (json \<times> json list) list" where
  "group_add bp k e =
     (if list_ex (\<lambda>g. py_eq (fst g) k) bp
      then map (\<lambda>g. if py_eq (fst g) k then (fst g, snd g @ [e]) else g) bp
      else bp @ [(k, [e])])"

definition group_by_pos :: "json list \<Rightarrow> py_exc + (json \<times> json list) list" where
  "group_by_pos es =
     foldM (\<lambda>bp e. sum_bind (py_index e (ascii ''pos'')) (\<lambda>k.
                     if py_hashable k then Inr (group_add bp k e) else Inl TypeError)) es []"

text \<open>\<open>f"{pos}.json"\<close>: \<open>str\<close> of a hashable JSON value.\<close>

fun dec_nat :: "nat \<Rightarrow> ustr" where
  "dec_nat n = (if n < 10 then [48 + n] else dec_nat (n div 10) @ [48 + n mod 10])"

fun py_str :: "json \<Rightarrow> ustr" where
  "py_str (JStr s) = s"
| "py_str JNull = ascii ''None''"
| "py_str (JBool b) = (if b then ascii ''True'' else ascii ''False'')"
| "py_str (JInt i) = (if i < 0 then ascii ''-'' @ dec_nat (nat (- i)) else dec_nat (nat i))"
| "py_str (JList _) = ascii ''[...]''"
| "py_str (JDict _) = ascii ''{...}''"

definition build_pos_manifests :: "path \<Rightarrow> path \<Rightarrow> fsys \<Rightarrow> py_exc + fsys" where
  "build_pos_manifests dd md fs =
     sum_bind (fs_load fs (dd @ [MANIFEST_NAME])) (\<lambda>entries.
     sum_bind (py_iter entries) (\<lambda>es.
     sum_bind (group_by_pos es) (\<lambda>bp.
     foldM (\<lambda>fs' g. fs_write fs' (md @ [py_str (fst g) @ ascii ''.json'']) (JList (snd g))) bp fs)))"

section \<open>\<open>load_dictionary\<close>\<close>

text \<open>The loaded dictionary maps a word form to a dict from upper-cased POS folder names
  to entries. \<open>full_dict.setdefault(k, {})[P] = entry\<close>:\<close>

type_synonym full_dict = "(ustr \<times> (ustr \<times> json) list) list"

definition fd_assign :: "full_dict \<Rightarrow> ustr \<Rightarrow> ustr \<Rightarrow> json \<Rightarrow> full_dict" where
  "fd_assign fd k P entry =
     (case dict_get fd k of Some m \<Rightarrow> dict_set fd k (dict_set m P entry) | None \<Rightarrow> fd @ [(k, [(P, entry)])])"

text \<open>\<open>all_defs.extend(v.get("definitions", []))\<close> over the variants.\<close>

definition flatten_defs :: "json list \<Rightarrow> py_exc + json list" where
  "flatten_defs vs =
     foldM (\<lambda>ad v. sum_bind (py_get v (ascii ''definitions'') (JList [])) (\<lambda>d.
                    sum_bind (py_iter d) (\<lambda>ds. Inr (ad @ ds)))) vs []"

fun py_values :: "json \<Rightarrow> py_exc + json list" where
  "py_values (JDict kv) = Inr (map snd kv)"
| "py_values _ = Inl AttributeError"

text \<open>Registration under every non-empty string among the inflected forms of a variant.\<close>

definition register_forms :: "ucd \<Rightarrow> ustr \<Rightarrow> json \<Rightarrow> full_dict \<Rightarrow> json \<Rightarrow> py_exc + full_dict" where
  "register_forms U P entry fd v =
     sum_bind (inflections_of v) (\<lambda>infl.
     sum_bind (py_values infl) (\<lambda>forms.
     Inr (foldl (\<lambda>fd' f. case f of JStr s \<Rightarrow> if s \<noteq> [] then fd_assign fd' (str_lower U s) P entry else fd'
                               | _ \<Rightarrow> fd') fd forms)))"

definition load_file :: "ucd \<Rightarrow> fsys \<Rightarrow> path \<Rightarrow> ustr \<Rightarrow> full_dict \<Rightarrow> ustr \<Rightarrow> py_exc + full_dict" where
  "load_file U fs dd pf fd fname =
     (if \<not> endswith fname (ascii ''.json'') then Inr fd
      else (let lemma = str_lower U (take (length fname - 5) fname) in
            sum_bind (fs_load fs (dd @ [pf, fname])) (\<lambda>entry.
            sum_bind (py_get entry (ascii ''variants'') (JList [])) (\<lambda>vs0.
            sum_bind (py_iter vs0) (\<lambda>vs.
            sum_bind (flatten_defs vs) (\<lambda>all_defs.
            case entry of
              JDict kv \<Rightarrow>
                (let entry' = JDict (dict_set kv (ascii ''_flattened_definitions'') (JList all_defs));
                     P = str_upper U pf
                 in sum_bind (py_get entry' (ascii ''variants'') (JList [])) (\<lambda>vs0'.
                    sum_bind (py_iter vs0') (\<lambda>vs'.
                    foldM (register_forms U P entry') vs' (fd_assign fd lemma P entry'))))
            | _ \<Rightarrow> Inl TypeError))))))"

definition load_pos :: "ucd \<Rightarrow> fsys \<Rightarrow> path \<Rightarrow> full_dict \<Rightarrow> ustr \<Rightarrow> py_exc + full_dict" where
  "load_pos U fs dd fd pf =
     (if \<not> fs_isdir fs (dd @ [pf]) then Inr fd
      else sum_bind (fs_listdir fs (dd @ [pf])) (\<lambda>names. foldM (load_file U fs dd pf) names fd))"

definition load_dictionary :: "ucd \<Rightarrow> path \<Rightarrow> fsys \<Rightarrow> py_exc + full_dict" where
  "load_dictionary U dd fs = sum_bind (fs_listdir fs dd) (\<lambda>poss. foldM (load_pos U fs dd) poss [])"

lemmas dictfiles_eval = fs_isdir_def fs_isfile_def fs_exists_def fs_listdir_def fs_load_def fs_write_def
  fs_remove_def mkdir_step_def makedirs_def py_eq_def inflections_of_def RESERVED_WINDOWS_NAMES_def
  entry_base_def entry_file_def fresh_container_def load_container_def make_variant_def
  add_variant_def save_entry_def sort_one_def DUMP_SUFFIX_def sort_dump_def
  sort_wiktionary_dumps_def manifest_row_def manifest_file_def manifest_pos_def MANIFEST_NAME_def
  build_manifest_def group_add_def group_by_pos_def build_pos_manifests_def fd_assign_def
  flatten_defs_def register_forms_def load_file_def load_pos_def load_dictionary_def
  str_upper_def str_lower_def endswith_def

section \<open>Properties\<close>

lemma fs_write_Inr:
  "fs_write fs p v = Inr fs' \<longleftrightarrow>
     p \<noteq> [] \<and> fs_isdir fs (butlast p) \<and> dict_get fs p \<noteq> Some FDir \<and> fs' = dict_set fs p (FFile v)"
  by (auto simp: fs_write_def)

lemma fs_write_isdir: "fs_write fs p v = Inr fs' \<Longrightarrow> fs_isdir fs' q = fs_isdir fs q"
  by (auto simp: fs_write_Inr fs_isdir_def)

lemma fs_write_isfile: "fs_write fs p v = Inr fs' \<Longrightarrow> fs_isfile fs' q = (q = p \<or> fs_isfile fs q)"
  by (auto simp: fs_write_Inr fs_isfile_def split: option.split fnode.split)

lemma fs_write_load: "fs_write fs p v = Inr fs' \<Longrightarrow> fs_load fs' p = Inr v"
  by (auto simp: fs_write_Inr fs_load_def)

lemma fs_write_wf: "wf_fs fs \<Longrightarrow> fs_write fs p v = Inr fs' \<Longrightarrow> wf_fs fs'"
  by (auto simp: wf_fs_def fs_write_isdir list_all_iff fs_write_Inr)

lemma fs_remove_isdir: "fs_remove fs p = Inr fs' \<Longrightarrow> fs_isdir fs' q = fs_isdir fs q"
  by (auto simp: fs_remove_def fs_isdir_def fs_isfile_def dict_get_filter_neq split: if_splits option.splits fnode.splits)

lemma fs_remove_isfile: "fs_remove fs p = Inr fs' \<Longrightarrow> fs_isfile fs' q = (q \<noteq> p \<and> fs_isfile fs q)"
  by (auto simp: fs_remove_def fs_isfile_def dict_get_filter_neq split: if_splits)

lemma fs_write_load_other: "fs_write fs p v = Inr fs' \<Longrightarrow> q \<noteq> p \<Longrightarrow> fs_load fs' q = fs_load fs q"
  by (auto simp: fs_write_Inr fs_load_def)

lemma fs_remove_load_other: "fs_remove fs p = Inr fs' \<Longrightarrow> q \<noteq> p \<Longrightarrow> fs_load fs' q = fs_load fs q"
  by (auto simp: fs_remove_def fs_load_def dict_get_filter_neq split: if_splits)

lemma fs_remove_wf: "wf_fs fs \<Longrightarrow> fs_remove fs p = Inr fs' \<Longrightarrow> wf_fs fs'"
proof -
  assume wf: "wf_fs fs" and r: "fs_remove fs p = Inr fs'"
  then have fs': "fs' = filter (\<lambda>e. fst e \<noteq> p) fs" by (simp add: fs_remove_def split: if_splits)
  have "distinct (map fst fs')" using wf unfolding fs' wf_fs_def by (simp add: distinct_map_filter)
  moreover have "list_all (\<lambda>q. q \<noteq> [] \<and> fs_isdir fs' (butlast q)) (map fst fs')"
    using wf unfolding wf_fs_def fs_remove_isdir[OF r] by (auto simp: fs' list_all_iff)
  ultimately show ?thesis by (simp add: wf_fs_def)
qed

lemma wf_parent_dir: "wf_fs fs \<Longrightarrow> dict_get fs p = Some n \<Longrightarrow> fs_isdir fs (butlast p)"
  unfolding wf_fs_def list_all_iff by (blast dest: dict_get_in_keys)

lemma wf_not_root: "wf_fs fs \<Longrightarrow> dict_get fs [] = None"
  unfolding wf_fs_def list_all_iff by (metis dict_get_in_keys not_Some_eq)

lemma mkdir_step_Inr:
  "mkdir_step fs q = Inr fs' \<longleftrightarrow>
     (dict_get fs q = None \<and> fs' = fs @ [(q, FDir)]) \<or> (dict_get fs q = Some FDir \<and> fs' = fs)"
  by (auto simp: mkdir_step_def split: option.split fnode.split)

lemma mkdir_step_isfile: "mkdir_step fs q = Inr fs' \<Longrightarrow> fs_isfile fs' r = fs_isfile fs r"
  by (auto simp: mkdir_step_Inr fs_isfile_def dict_get_snoc_new split: if_splits)

lemma mkdir_step_isdir: "mkdir_step fs q = Inr fs' \<Longrightarrow> fs_isdir fs' r \<longleftrightarrow> fs_isdir fs r \<or> r = q"
  by (auto simp: mkdir_step_Inr fs_isdir_def dict_get_snoc_new split: if_splits)

lemma mkdir_step_load: "mkdir_step fs q = Inr fs' \<Longrightarrow> fs_load fs' r = fs_load fs r"
  by (auto simp: mkdir_step_Inr fs_load_def dict_get_snoc_new split: if_splits)

lemma mkdir_step_wf:
  "wf_fs fs \<Longrightarrow> q \<noteq> [] \<Longrightarrow> fs_isdir fs (butlast q) \<Longrightarrow> mkdir_step fs q = Inr fs' \<Longrightarrow> wf_fs fs'"
  unfolding wf_fs_def
  by (auto simp: mkdir_step_Inr mkdir_step_isdir[of fs q fs'] list_all_iff dict_get_def
                 map_of_eq_None_iff)

lemma makedirs_snoc: "makedirs fs (d @ [x]) = sum_bind (makedirs fs d) (\<lambda>fs'. mkdir_step fs' (d @ [x]))"
proof -
  have "map (\<lambda>i. take i (d @ [x])) [1..<Suc (length d)] = map (\<lambda>i. take i d) [1..<Suc (length d)]"
    by (rule map_cong) auto
  then have eq: "map (\<lambda>i. take i (d @ [x])) [1..<Suc (length (d @ [x]))]
        = map (\<lambda>i. take i d) [1..<Suc (length d)] @ [d @ [x]]"
    by simp
  show ?thesis
    unfolding makedirs_def eq foldM_append sum_bind_def foldM_single by (rule refl)
qed

lemma makedirs_Nil [simp]: "makedirs fs [] = Inr fs"
  by (simp add: makedirs_def)

lemma makedirs_facts:
  "makedirs fs d = Inr fs' \<Longrightarrow>
     fs_isdir fs' d \<and> (\<forall>r. fs_isfile fs' r = fs_isfile fs r) \<and> (\<forall>r. fs_isdir fs r \<longrightarrow> fs_isdir fs' r)
     \<and> (wf_fs fs \<longrightarrow> wf_fs fs')"
proof (induction d arbitrary: fs' rule: rev_induct)
  case Nil
  then show ?case by (simp add: fs_isdir_def)
next
  case (snoc x d)
  then obtain fs1 where m: "makedirs fs d = Inr fs1" and s: "mkdir_step fs1 (d @ [x]) = Inr fs'"
    by (auto simp: makedirs_snoc sum_bind_def split: sum.splits)
  from snoc.IH[OF m] have ih: "fs_isdir fs1 d" "\<forall>r. fs_isfile fs1 r = fs_isfile fs r"
    "\<forall>r. fs_isdir fs r \<longrightarrow> fs_isdir fs1 r" "wf_fs fs \<longrightarrow> wf_fs fs1" by auto
  show ?case
    using ih mkdir_step_isfile[OF s] mkdir_step_isdir[OF s] mkdir_step_wf[OF _ _ _ s] by auto
qed

lemma makedirs_load: "makedirs fs d = Inr fs' \<Longrightarrow> fs_load fs' r = fs_load fs r"
proof (induction d arbitrary: fs' rule: rev_induct)
  case (snoc x d)
  then obtain fs1 where "makedirs fs d = Inr fs1" and "mkdir_step fs1 (d @ [x]) = Inr fs'"
    by (auto simp: makedirs_snoc sum_bind_def split: sum.splits)
  then show ?case using snoc.IH mkdir_step_load by metis
qed simp

lemma makedirs_existing: "wf_fs fs \<Longrightarrow> fs_isdir fs d \<Longrightarrow> makedirs fs d = Inr fs"
proof (induction d rule: rev_induct)
  case Nil
  then show ?case by simp
next
  case (snoc x d)
  then have "dict_get fs (d @ [x]) = Some FDir" by (simp add: fs_isdir_def)
  moreover then have "fs_isdir fs d" using wf_parent_dir[OF snoc.prems(1)] by fastforce
  ultimately show ?case using snoc by (simp add: makedirs_snoc mkdir_step_def)
qed

lemma py_eq_refl [simp]: "py_eq a a"
  by (simp add: py_eq_def)

lemma save_entry_Inr:
  "save_entry U e d fs = Inr fs' \<Longrightarrow>
     \<exists>fs1 base c v c'. makedirs fs d = Inr fs1 \<and> entry_base e = Inr base
       \<and> load_container fs1 (d @ [entry_file U base]) e = Inr c \<and> make_variant e = Inr v
       \<and> add_variant c v = Inr c' \<and> fs_write fs1 (d @ [entry_file U base]) c' = Inr fs'"
  by (simp add: save_entry_def sum_bind_eq_Inr Let_def)

lemma save_entry_frame:
  "save_entry U e d fs = Inr fs' \<Longrightarrow> butlast p \<noteq> d \<Longrightarrow> fs_isfile fs' p = fs_isfile fs p"
  by (auto dest!: save_entry_Inr makedirs_facts simp: fs_write_isfile)

lemma save_entry_load_frame:
  "save_entry U e d fs = Inr fs' \<Longrightarrow> butlast p \<noteq> d \<Longrightarrow> fs_load fs' p = fs_load fs p"
proof -
  assume se: "save_entry U e d fs = Inr fs'" and p: "butlast p \<noteq> d"
  then obtain fs1 base c' where m: "makedirs fs d = Inr fs1"
    and w: "fs_write fs1 (d @ [entry_file U base]) c' = Inr fs'" by (blast dest: save_entry_Inr)
  have "p \<noteq> d @ [entry_file U base]" using p by auto
  then show "fs_load fs' p = fs_load fs p" using fs_write_load_other[OF w] makedirs_load[OF m] by simp
qed

lemma save_entry_wf: "wf_fs fs \<Longrightarrow> save_entry U e d fs = Inr fs' \<Longrightarrow> wf_fs fs'"
  by (auto dest!: save_entry_Inr makedirs_facts intro: fs_write_wf)

lemma make_variant_defs: "make_variant e = Inr v \<Longrightarrow> \<exists>df. py_index v (ascii ''definitions'') = Inr df"
  by (auto simp: make_variant_def sum_bind_eq_Inr ascii_def dict_get_def)

lemma add_variant_again:
  assumes a: "add_variant c v = Inr c'" and v: "\<exists>df. py_index v (ascii ''definitions'') = Inr df"
  shows "add_variant c' v = Inr c'"
proof -
  from a obtain vs items existing defs where
    vs: "py_index c (ascii ''variants'') = Inr vs" and it: "py_iter vs = Inr items"
    and ex: "seq_sum (map (\<lambda>v. py_index v (ascii ''definitions'')) items) = Inr existing"
    and df: "py_index v (ascii ''definitions'') = Inr defs"
    and r: "(if list_ex (py_eq defs) existing then Inr c
             else (case (c, vs) of (JDict kv, JList xs) \<Rightarrow> Inr (JDict (dict_set kv (ascii ''variants'') (JList (xs @ [v]))))
                   | _ \<Rightarrow> Inl AttributeError)) = Inr c'"
    by (auto simp: add_variant_def sum_bind_eq_Inr)
  show ?thesis
  proof (cases "list_ex (py_eq defs) existing")
    case True
    then show ?thesis using a r by simp
  next
    case False
    with r obtain kv xs where c: "c = JDict kv" and l: "vs = JList xs"
      and c': "c' = JDict (dict_set kv (ascii ''variants'') (JList (xs @ [v])))"
      by (auto split: json.splits)
    have "seq_sum (map (\<lambda>v. py_index v (ascii ''definitions'')) (xs @ [v])) = Inr (existing @ [defs])"
      using ex it l df seq_sum_snoc[OF ex] by simp
    then show ?thesis using df by (simp add: c' add_variant_def list_ex_iff)
  qed
qed

lemma fs_write_again: "fs_write fs p v = Inr fs' \<Longrightarrow> fs_write fs' p v = Inr fs'"
  using fs_write_isdir[of fs p v fs' "butlast p"] by (auto simp: fs_write_Inr)

lemma load_container_written:
  "fs_write fs p c = Inr fs' \<Longrightarrow> load_container fs' p e = Inr c"
  by (auto simp: fs_write_Inr load_container_def fs_exists_def fs_load_def)

text \<open>C13. Saving the same entry twice leaves the dictionary as the first save left it: the
  second save reloads the file, finds a variant with the same definitions, skips it and
  writes the same container back.\<close>

theorem save_entry_idempotent:
  assumes wf: "wf_fs fs" and s: "save_entry U e d fs = Inr fs'"
  shows "save_entry U e d fs' = Inr fs'"
proof -
  from save_entry_Inr[OF s] obtain fs1 base c v c' where
    m: "makedirs fs d = Inr fs1" and b: "entry_base e = Inr base"
    and mv: "make_variant e = Inr v" and av: "add_variant c v = Inr c'"
    and w: "fs_write fs1 (d @ [entry_file U base]) c' = Inr fs'" by blast
  have "wf_fs fs1" "fs_isdir fs1 d" using makedirs_facts[OF m] wf by auto
  then have "makedirs fs' d = Inr fs'"
    using fs_write_wf[OF _ w] fs_write_isdir[OF w] by (simp add: makedirs_existing)
  then show ?thesis
    using b mv load_container_written[OF w] add_variant_again[OF av make_variant_defs[OF mv]]
      fs_write_again[OF w]
    by (simp add: save_entry_def)
qed

definition ex_entry :: json where
  "ex_entry = JDict [(ascii ''word'', JStr (ascii ''ran'')), (ascii ''lemma'', JStr (ascii ''run'')),
     (ascii ''pos'', JStr (ascii ''verb'')), (ascii ''definitions'', JList [JDict [(ascii ''gloss'', JStr (ascii ''move''))]])]"

lemma save_entry_idempotent_witness:
  "wf_fs [] \<and> save_entry ascii_ucd ex_entry [ascii ''d'', ascii ''verb''] [] = Inr (projr (save_entry ascii_ucd ex_entry [ascii ''d'', ascii ''verb''] []))
   \<and> save_entry ascii_ucd ex_entry [ascii ''d'', ascii ''verb''] (projr (save_entry ascii_ucd ex_entry [ascii ''d'', ascii ''verb''] []))
     = Inr (projr (save_entry ascii_ucd ex_entry [ascii ''d'', ascii ''verb''] []))"
proof -
  have wf: "wf_fs []" by (simp add: wf_fs_def)
  have s: "save_entry ascii_ucd ex_entry [ascii ''d'', ascii ''verb''] [] = Inr (projr (save_entry ascii_ucd ex_entry [ascii ''d'', ascii ''verb''] []))"
    by (simp add: dictfiles_eval json_eval ex_entry_def ascii_def ascii_ucd_def ascii_class_defs)
  show ?thesis using wf s save_entry_idempotent[OF wf s] by simp
qed

lemma sort_one_Inr: "sort_one U out fs e = Inr fs' \<Longrightarrow> \<exists>name. save_entry U e (out @ [name]) fs = Inr fs'"
  by (auto simp: sort_one_def sum_bind_eq_Inr)

lemma sort_entries_frame:
  assumes loop: "foldM (sort_one U out) es fs = Inr fs'" and p: "butlast (butlast p) \<noteq> out"
  shows "fs_isfile fs' p = fs_isfile fs p"
proof -
  have step: "fs_isfile a' p = fs_isfile fs p"
    if h: "fs_isfile a p = fs_isfile fs p" and "e \<in> set es" and so: "sort_one U out a e = Inr a'"
    for a e a'
  proof -
    from sort_one_Inr[OF so] obtain name where se: "save_entry U e (out @ [name]) a = Inr a'" by blast
    have "butlast p \<noteq> out @ [name]" using p by auto
    from save_entry_frame[OF se this] h show ?thesis by simp
  qed
  show ?thesis
    using foldM_invariant[where P = "\<lambda>a. fs_isfile a p = fs_isfile fs p", OF step _ loop] by simp
qed

lemma sort_entries_load_frame:
  assumes loop: "foldM (sort_one U out) es fs = Inr fs'" and p: "butlast (butlast p) \<noteq> out"
  shows "fs_load fs' p = fs_load fs p"
proof -
  have step: "fs_load a' p = fs_load fs p"
    if h: "fs_load a p = fs_load fs p" and "e \<in> set es" and so: "sort_one U out a e = Inr a'"
    for a e a'
  proof -
    from sort_one_Inr[OF so] obtain name where se: "save_entry U e (out @ [name]) a = Inr a'" by blast
    have "butlast p \<noteq> out @ [name]" using p by auto
    from save_entry_load_frame[OF se this] h show ?thesis by simp
  qed
  show ?thesis
    using foldM_invariant[where P = "\<lambda>a. fs_load a p = fs_load fs p", OF step _ loop] by simp
qed

lemma sort_entries_wf:
  assumes loop: "foldM (sort_one U out) es fs = Inr fs'" and wf: "wf_fs fs"
  shows "wf_fs fs'"
proof -
  have step: "wf_fs a'" if "wf_fs a" "e \<in> set es" "sort_one U out a e = Inr a'" for a e a'
    using sort_one_Inr[OF that(3)] save_entry_wf[OF that(1)] by blast
  show ?thesis by (rule foldM_invariant[where P = wf_fs, OF step wf loop])
qed

lemma sort_dump_Inr:
  "sort_dump U dump out fs n = Inr fs' \<Longrightarrow>
     (\<not> endswith n DUMP_SUFFIX \<and> fs' = fs) \<or>
     (endswith n DUMP_SUFFIX \<and> (\<exists>es fs2. foldM (sort_one U out) es fs = Inr fs2 \<and> fs_remove fs2 (dump @ [n]) = Inr fs'))"
  unfolding sort_dump_def Let_def by (cases "endswith n DUMP_SUFFIX") (auto simp: sum_bind_eq_Inr)

lemma sort_dump_wf: "sort_dump U dump out fs n = Inr fs' \<Longrightarrow> wf_fs fs \<Longrightarrow> wf_fs fs'"
  by (drule sort_dump_Inr) (blast intro: fs_remove_wf sort_entries_wf)

lemma sort_dump_removes:
  assumes s: "sort_dump U dump out fs n = Inr fs'" and d: "butlast dump \<noteq> out"
    and f: "endswith f DUMP_SUFFIX" and isf: "fs_isfile fs' (dump @ [f])"
  shows "fs_isfile fs (dump @ [f]) \<and> f \<noteq> n"
proof (cases "endswith n DUMP_SUFFIX")
  case False
  then show ?thesis using sort_dump_Inr[OF s] f isf by auto
next
  case True
  then obtain es fs2 where loop: "foldM (sort_one U out) es fs = Inr fs2"
    and r: "fs_remove fs2 (dump @ [n]) = Inr fs'" using sort_dump_Inr[OF s] by blast
  have "butlast (butlast (dump @ [f])) \<noteq> out" using d by simp
  from sort_entries_frame[OF loop this] isf fs_remove_isfile[OF r] show ?thesis by auto
qed

lemma sort_dumps_loop_removes:
  "foldM (sort_dump U dump out) ns fs = Inr fs' \<Longrightarrow> butlast dump \<noteq> out \<Longrightarrow>
   endswith f DUMP_SUFFIX \<Longrightarrow> fs_isfile fs' (dump @ [f]) \<Longrightarrow> fs_isfile fs (dump @ [f]) \<and> f \<notin> set ns"
proof (induction ns arbitrary: fs)
  case (Cons n ns)
  obtain fs1 where s: "sort_dump U dump out fs n = Inr fs1"
    and r: "foldM (sort_dump U dump out) ns fs1 = Inr fs'"
    using Cons.prems(1) by (cases "sort_dump U dump out fs n") auto
  have ih: "fs_isfile fs1 (dump @ [f]) \<and> f \<notin> set ns" by (rule Cons.IH[OF r Cons.prems(2-4)])
  then have "fs_isfile fs (dump @ [f]) \<and> f \<noteq> n"
    using sort_dump_removes[OF s Cons.prems(2,3)] by blast
  with ih show ?case by simp
qed simp

lemma listdir_complete: "fs_listdir fs d = Inr ns \<Longrightarrow> fs_isfile fs (d @ [f]) \<Longrightarrow> f \<in> set ns"
proof -
  assume ls: "fs_listdir fs d = Inr ns" and isf: "fs_isfile fs (d @ [f])"
  from isf obtain n where "dict_get fs (d @ [f]) = Some n"
    by (auto simp: fs_isfile_def split: option.splits)
  then have m: "d @ [f] \<in> set (filter (\<lambda>p. p \<noteq> [] \<and> butlast p = d) (map fst fs))"
    by (auto dest: dict_get_in_keys)
  have eq: "ns = map last (filter (\<lambda>p. p \<noteq> [] \<and> butlast p = d) (map fst fs))"
    using ls by (simp add: fs_listdir_def split: if_splits)
  have "f = last (d @ [f])" by simp
  also have "\<dots> \<in> last ` set (filter (\<lambda>p. p \<noteq> [] \<and> butlast p = d) (map fst fs))"
    using m by (rule imageI)
  also have "\<dots> = set ns" by (simp only: eq set_map)
  finally show ?thesis .
qed

text \<open>C14. After a successful run of \<open>sort_wiktionary_dumps\<close> no file named
  \<open>*_wiktionary_dump.json\<close> is left in the dump directory: each listed dump is deleted once its
  entries are saved, and saving never writes into the dump directory when it is not a POS
  folder of the output directory.\<close>

theorem sort_wiktionary_dumps_removes_dumps:
  assumes "sort_wiktionary_dumps U dump out fs = Inr fs'" and "butlast dump \<noteq> out"
    and "endswith f DUMP_SUFFIX"
  shows "\<not> fs_isfile fs' (dump @ [f])"
proof
  assume isf: "fs_isfile fs' (dump @ [f])"
  from assms(1) obtain ns where ls: "fs_listdir fs dump = Inr ns"
    and loop: "foldM (sort_dump U dump out) ns fs = Inr fs'"
    by (auto simp: sort_wiktionary_dumps_def sum_bind_eq_Inr)
  from sort_dumps_loop_removes[OF loop assms(2,3) isf] listdir_complete[OF ls] show False by blast
qed

lemma sort_dump_load_frame:
  assumes s: "sort_dump U dump out fs n = Inr fs'" and p: "butlast (butlast p) \<noteq> out"
    and q: "\<not> (butlast p = dump \<and> endswith (last p) DUMP_SUFFIX)"
  shows "fs_load fs' p = fs_load fs p"
proof (cases "endswith n DUMP_SUFFIX")
  case False
  then show ?thesis using sort_dump_Inr[OF s] by auto
next
  case True
  then obtain es fs2 where loop: "foldM (sort_one U out) es fs = Inr fs2"
    and r: "fs_remove fs2 (dump @ [n]) = Inr fs'" using sort_dump_Inr[OF s] by blast
  have "p \<noteq> dump @ [n]" using q True by auto
  with sort_entries_load_frame[OF loop p] fs_remove_load_other[OF r] show ?thesis by simp
qed

text \<open>C21. \<open>sort_wiktionary_dumps\<close> changes only the files of the POS folders of the output
  directory and the dump files it deletes: every other path reads back as before (a file
  with the same content, a corrupt file still corrupt, a directory or missing path still
  no file).\<close>

theorem sort_wiktionary_dumps_frame:
  assumes "sort_wiktionary_dumps U dump out fs = Inr fs'" and "butlast (butlast p) \<noteq> out"
    and "\<not> (butlast p = dump \<and> endswith (last p) DUMP_SUFFIX)"
  shows "fs_load fs' p = fs_load fs p"
proof -
  from assms(1) obtain ns where loop: "foldM (sort_dump U dump out) ns fs = Inr fs'"
    by (auto simp: sort_wiktionary_dumps_def sum_bind_eq_Inr)
  have step: "fs_load a' p = fs_load fs p"
    if "fs_load a p = fs_load fs p" "n \<in> set ns" "sort_dump U dump out a n = Inr a'" for a n a'
    using sort_dump_load_frame[OF that(3) assms(2,3)] that(1) by simp
  show ?thesis
    using foldM_invariant[where P = "\<lambda>a. fs_load a p = fs_load fs p", OF step _ loop] by simp
qed

lemma sort_wiktionary_dumps_wf:
  assumes "wf_fs fs" and "sort_wiktionary_dumps U dump out fs = Inr fs'"
  shows "wf_fs fs'"
proof -
  from assms(2) obtain ns where loop: "foldM (sort_dump U dump out) ns fs = Inr fs'"
    by (auto simp: sort_wiktionary_dumps_def sum_bind_eq_Inr)
  have step: "wf_fs a'" if "wf_fs a" "n \<in> set ns" "sort_dump U dump out a n = Inr a'" for a n a'
    using sort_dump_wf that by blast
  show ?thesis by (rule foldM_invariant[where P = wf_fs, OF step assms(1) loop])
qed

definition ex_dump_fs :: fsys where
  "ex_dump_fs = [([ascii ''u''], FDir), ([ascii ''u'', ascii ''a_wiktionary_dump.json''], FFile (JList [ex_entry]))]"

lemma ex_dump_sorted:
  "sort_wiktionary_dumps ascii_ucd [ascii ''u''] [ascii ''d''] ex_dump_fs
   = Inr (projr (sort_wiktionary_dumps ascii_ucd [ascii ''u''] [ascii ''d''] ex_dump_fs))"
  by (simp add: dictfiles_eval json_eval ex_entry_def ex_dump_fs_def ascii_def ascii_ucd_def ascii_class_defs)

lemma sort_wiktionary_dumps_removes_dumps_witness:
  "butlast [ascii ''u''] \<noteq> [ascii ''d''] \<and> endswith (ascii ''a_wiktionary_dump.json'') DUMP_SUFFIX
   \<and> \<not> fs_isfile (projr (sort_wiktionary_dumps ascii_ucd [ascii ''u''] [ascii ''d''] ex_dump_fs))
                   ([ascii ''u''] @ [ascii ''a_wiktionary_dump.json''])"
proof -
  have d: "butlast [ascii ''u''] \<noteq> [ascii ''d'']" by (simp add: ascii_def)
  have e: "endswith (ascii ''a_wiktionary_dump.json'') DUMP_SUFFIX"
    by (simp add: endswith_def DUMP_SUFFIX_def ascii_def)
  show ?thesis using d e sort_wiktionary_dumps_removes_dumps[OF ex_dump_sorted d e] by simp
qed

lemma sort_wiktionary_dumps_frame_witness:
  "butlast (butlast [ascii ''u'', ascii ''notes.json'']) \<noteq> [ascii ''d'']
   \<and> \<not> (butlast [ascii ''u'', ascii ''notes.json''] = [ascii ''u''] \<and> endswith (last [ascii ''u'', ascii ''notes.json'']) DUMP_SUFFIX)
   \<and> fs_load (projr (sort_wiktionary_dumps ascii_ucd [ascii ''u''] [ascii ''d''] ex_dump_fs)) [ascii ''u'', ascii ''notes.json'']
       = fs_load ex_dump_fs [ascii ''u'', ascii ''notes.json'']"
proof -
  have p: "butlast (butlast [ascii ''u'', ascii ''notes.json'']) \<noteq> [ascii ''d'']" by (simp add: ascii_def)
  have q: "\<not> (butlast [ascii ''u'', ascii ''notes.json''] = [ascii ''u''] \<and> endswith (last [ascii ''u'', ascii ''notes.json'']) DUMP_SUFFIX)"
    by (simp add: endswith_def DUMP_SUFFIX_def ascii_def)
  show ?thesis using p q sort_wiktionary_dumps_frame[OF ex_dump_sorted p q] by simp
qed

definition fd_lookup :: "full_dict \<Rightarrow> ustr \<Rightarrow> ustr \<Rightarrow> json option" where
  "fd_lookup fd k P = (case dict_get fd k of Some m \<Rightarrow> dict_get m P | None \<Rightarrow> None)"

lemma fd_lookup_assign [simp]:
  "fd_lookup (fd_assign fd k P v) k' P' = (if k' = k \<and> P' = P then Some v else fd_lookup fd k' P')"
  by (auto simp: fd_lookup_def fd_assign_def dict_get_snoc_new dict_get_single split: option.splits)

lemma register_forms_keeps:
  assumes "register_forms U P v fd x = Inr fd'" and "fd_lookup fd k P = Some v"
  shows "fd_lookup fd' k P = Some v"
proof -
  have "fd_lookup (foldl (\<lambda>fd' f. case f of JStr s \<Rightarrow> if s \<noteq> [] then fd_assign fd' (str_lower U s) P v else fd'
                              | _ \<Rightarrow> fd') fd0 forms) k P = Some v"
    if "fd_lookup fd0 k P = Some v" for fd0 forms
    using that by (induction forms arbitrary: fd0) (auto split: json.split)
  then show ?thesis using assms by (auto simp: register_forms_def sum_bind_eq_Inr)
qed

text \<open>The definitions of a variant as the loader collects them: the list under
  \<open>definitions\<close>, none when the key is missing. A variant is well formed for this when it is a
  dict whose \<open>definitions\<close>, if present, is a list (as \<open>save_entry\<close> writes it).\<close>

fun variant_defs :: "json \<Rightarrow> json list" where
  "variant_defs (JDict vkv) = (case dict_get vkv (ascii ''definitions'') of Some (JList ds) \<Rightarrow> ds | _ \<Rightarrow> [])"
| "variant_defs _ = []"

fun variant_ok :: "json \<Rightarrow> bool" where
  "variant_ok (JDict vkv) = (case dict_get vkv (ascii ''definitions'') of None \<Rightarrow> True | Some (JList _) \<Rightarrow> True
                             | Some _ \<Rightarrow> False)"
| "variant_ok _ = False"

lemma flatten_defs_loop:
  "list_all variant_ok vs \<Longrightarrow>
   foldM (\<lambda>ad v. sum_bind (py_get v (ascii ''definitions'') (JList [])) (\<lambda>d.
                 sum_bind (py_iter d) (\<lambda>ds. Inr (ad @ ds)))) vs acc
   = Inr (acc @ concat (map variant_defs vs))"
proof (induction vs arbitrary: acc)
  case (Cons v vs)
  then obtain vkv where v: "v = JDict vkv" by (cases v) auto
  show ?case using Cons by (auto simp: v sum_bind_def split: option.splits json.splits)
qed simp

lemma flatten_defs_concat: "list_all variant_ok vs \<Longrightarrow> flatten_defs vs = Inr (concat (map variant_defs vs))"
  using flatten_defs_loop[of vs "[]"] by (simp add: flatten_defs_def)

text \<open>C31. Loading one \<open>.json\<close> file of a POS folder (one step of the loop of
  \<open>load_dictionary\<close>) registers the file's entry under the lower case of its file name
  without the extension and the upper case of the POS folder, with
  \<open>_flattened_definitions\<close> set to the definitions of all its variants in order; registering
  the inflected forms afterwards never replaces that entry. (A later file whose inflection
  equals this key may still overwrite it.)\<close>

theorem load_file_registers_lemma:
  assumes l: "load_file U fs dd pf fd fname = Inr fd'" and j: "endswith fname (ascii ''.json'')"
    and e: "fs_load fs (dd @ [pf, fname]) = Inr (JDict kv)"
    and v: "dict_get kv (ascii ''variants'') = Some (JList vs)" and ok: "list_all variant_ok vs"
  shows "fd_lookup fd' (str_lower U (take (length fname - 5) fname)) (str_upper U pf)
           = Some (JDict (dict_set kv (ascii ''_flattened_definitions'') (JList (concat (map variant_defs vs)))))"
proof -
  define lk where "lk = str_lower U (take (length fname - 5) fname)"
  define up where "up = str_upper U pf"
  define ent where "ent = JDict (dict_set kv (ascii ''_flattened_definitions'') (JList (concat (map variant_defs vs))))"
  from l j e obtain vs' where loop: "foldM (register_forms U up ent) vs' (fd_assign fd lk up ent) = Inr fd'"
    by (auto simp: load_file_def sum_bind_eq_Inr Let_def lk_def up_def ent_def v flatten_defs_concat[OF ok])
  have step: "fd_lookup a' lk up = Some ent"
    if "fd_lookup a lk up = Some ent" "x \<in> set vs'" "register_forms U up ent a x = Inr a'" for a x a'
    using register_forms_keeps[OF that(3) that(1)] .
  have "fd_lookup fd' lk up = Some ent"
    using foldM_invariant[where P = "\<lambda>a. fd_lookup a lk up = Some ent", OF step _ loop] by simp
  then show ?thesis unfolding lk_def up_def ent_def .
qed

definition ex_con_fs :: fsys where
  "ex_con_fs = [([ascii ''d''], FDir), ([ascii ''d'', ascii ''noun''], FDir),
     ([ascii ''d'', ascii ''noun'', ascii ''con_lex.json''], FFile (JDict [(ascii ''lemma'', JStr (ascii ''con'')),
        (ascii ''variants'', JList [JDict [(ascii ''definitions'', JList [JStr (ascii ''a''), JStr (ascii ''b'')])],
                                  JDict [(ascii ''definitions'', JList [JStr (ascii ''c'')])]])]))]"

lemma load_file_registers_lemma_witness:
  "endswith (ascii ''con_lex.json'') (ascii ''.json'')
   \<and> fd_lookup (projr (load_file ascii_ucd ex_con_fs [ascii ''d''] (ascii ''noun'') [] (ascii ''con_lex.json'')))
        (ascii ''con_lex'') (ascii ''NOUN'')
     = Some (JDict [(ascii ''lemma'', JStr (ascii ''con'')),
        (ascii ''variants'', JList [JDict [(ascii ''definitions'', JList [JStr (ascii ''a''), JStr (ascii ''b'')])],
                                  JDict [(ascii ''definitions'', JList [JStr (ascii ''c'')])]]),
        (ascii ''_flattened_definitions'', JList [JStr (ascii ''a''), JStr (ascii ''b''), JStr (ascii ''c'')])])"
proof -
  define vs where "vs = [JDict [(ascii ''definitions'', JList [JStr (ascii ''a''), JStr (ascii ''b'')])],
                         JDict [(ascii ''definitions'', JList [JStr (ascii ''c'')])]]"
  define kv where "kv = [(ascii ''lemma'', JStr (ascii ''con'')), (ascii ''variants'', JList vs)]"
  have j: "endswith (ascii ''con_lex.json'') (ascii ''.json'')" by (simp add: endswith_def ascii_def)
  have e: "fs_load ex_con_fs ([ascii ''d''] @ [ascii ''noun'', ascii ''con_lex.json'']) = Inr (JDict kv)"
    by (simp add: fs_load_def ex_con_fs_def json_eval ascii_def kv_def vs_def)
  have v: "dict_get kv (ascii ''variants'') = Some (JList vs)" by (simp add: kv_def json_eval ascii_def)
  have ok: "list_all variant_ok vs" by (simp add: vs_def json_eval ascii_def)
  have l: "load_file ascii_ucd ex_con_fs [ascii ''d''] (ascii ''noun'') [] (ascii ''con_lex.json'')
           = Inr (projr (load_file ascii_ucd ex_con_fs [ascii ''d''] (ascii ''noun'') [] (ascii ''con_lex.json'')))"
    by (simp add: dictfiles_eval json_eval ex_con_fs_def ascii_def ascii_ucd_def ascii_class_defs)
  from load_file_registers_lemma[OF l j e v ok] show ?thesis using j
    by (simp add: kv_def vs_def str_lower_def str_upper_def ascii_def ascii_ucd_def ascii_class_defs json_eval)
qed

text \<open>Saving an entry whose lemma is a reserved Windows name and loading the dictionary back
  registers it under the file name with its suffix, not under the lemma.\<close>

lemma save_load_reserved_name:
  "load_dictionary ascii_ucd [ascii ''d'']
     (projr (save_entry ascii_ucd (JDict [(ascii ''word'', JStr (ascii ''con'')), (ascii ''lemma'', JStr (ascii ''con'')),
        (ascii ''pos'', JStr (ascii ''noun''))]) [ascii ''d'', ascii ''noun''] []))
   = Inr [(ascii ''con_lex'', [(ascii ''NOUN'', JDict [(ascii ''word'', JStr (ascii ''con'')), (ascii ''lemma'', JStr (ascii ''con'')),
        (ascii ''pos'', JStr (ascii ''noun'')),
        (ascii ''variants'', JList [JDict [(ascii ''etymology'', JNull), (ascii ''pos_index'', JNull),
            (ascii ''forms'', JDict []), (ascii ''pronunciation'', JStr []), (ascii ''definitions'', JList [])]]),
        (ascii ''_flattened_definitions'', JList [])])])]"
  by (simp add: dictfiles_eval json_eval ascii_def ascii_ucd_def ascii_class_defs)

definition pos_is :: "json \<Rightarrow> json \<Rightarrow> bool" where
  "pos_is k e \<longleftrightarrow> (case py_index e (ascii ''pos'') of Inr k' \<Rightarrow> py_eq k' k | Inl _ \<Rightarrow> False)"

definition grp_inv :: "json list \<Rightarrow> (json \<times> json list) list \<Rightarrow> bool" where
  "grp_inv seen bp \<longleftrightarrow> (\<forall>g\<in>set bp. snd g = filter (pos_is (fst g)) seen)
                        \<and> (\<forall>e\<in>set seen. \<exists>g\<in>set bp. pos_is (fst g) e)"

lemma group_add_inv:
  assumes inv: "grp_inv seen bp" and k: "py_index e (ascii ''pos'') = Inr k"
  shows "grp_inv (seen @ [e]) (group_add bp k e)"
proof -
  have pe: "pos_is x e \<longleftrightarrow> py_norm k = py_norm x" for x by (simp add: pos_is_def k py_eq_def)
  show ?thesis
  proof (cases "list_ex (\<lambda>g. py_eq (fst g) k) bp")
    case True
    then obtain g0 where g0: "g0 \<in> set bp" "py_norm (fst g0) = py_norm k"
      by (auto simp: list_ex_iff py_eq_def)
    define u where "u = (\<lambda>g. if py_eq (fst g) k then (fst g, snd g @ [e]) else g)"
    have pk: "pos_is (fst g) e = py_eq (fst g) k" for g by (auto simp: pe py_eq_def)
    have c1: "snd (u g) = filter (pos_is (fst (u g))) (seen @ [e])" if "g \<in> set bp" for g
      using inv that by (simp add: grp_inv_def u_def pk)
    have c2: "\<exists>g'\<in>set (map u bp). pos_is (fst g') x" if xin: "x \<in> set (seen @ [e])" for x
    proof (cases "x = e")
      case True
      have "pos_is (fst (u g0)) e" using g0 by (simp add: u_def pe)
      then show ?thesis using g0(1) True by auto
    next
      case False
      then have "x \<in> set seen" using xin by simp
      then obtain g where "g \<in> set bp" "pos_is (fst g) x" using inv by (auto simp: grp_inv_def)
      moreover have "fst (u g) = fst g" by (simp add: u_def)
      ultimately show ?thesis by (metis image_eqI set_map)
    qed
    have "grp_inv (seen @ [e]) (map u bp)"
      unfolding grp_inv_def using c1 c2 by auto
    then show ?thesis using True by (simp add: group_add_def u_def)
  next
    case False
    then have nm: "\<forall>g\<in>set bp. py_norm (fst g) \<noteq> py_norm k" by (auto simp: list_ex_iff py_eq_def)
    have "\<not> pos_is k e'" if ein: "e' \<in> set seen" for e'
    proof
      assume "pos_is k e'"
      moreover obtain g where "g \<in> set bp" "pos_is (fst g) e'" using inv ein by (auto simp: grp_inv_def)
      ultimately show False using nm
        by (auto simp: pos_is_def py_eq_def split: sum.splits)
    qed
    then have "filter (pos_is k) seen = []" by (simp add: filter_empty_conv)
    then have "grp_inv (seen @ [e]) (bp @ [(k, [e])])"
      using inv nm unfolding grp_inv_def by (auto simp: pe)
    then show ?thesis using False by (simp add: group_add_def)
  qed
qed

lemma group_loop:
  "foldM (\<lambda>bp e. sum_bind (py_index e (ascii ''pos'')) (\<lambda>k.
            if py_hashable k then Inr (group_add bp k e) else Inl TypeError)) es bp = Inr bp'
   \<Longrightarrow> grp_inv seen bp \<Longrightarrow> grp_inv (seen @ es) bp'"
proof (induction es arbitrary: seen bp)
  case (Cons e es)
  then obtain k where k: "py_index e (ascii ''pos'') = Inr k" and h: "py_hashable k"
    and r: "foldM (\<lambda>bp e. sum_bind (py_index e (ascii ''pos'')) (\<lambda>k.
            if py_hashable k then Inr (group_add bp k e) else Inl TypeError)) es (group_add bp k e) = Inr bp'"
    by (cases "py_index e (ascii ''pos'')") (auto split: if_splits)
  from Cons.IH[OF r group_add_inv[OF Cons.prems(2) k]] show ?case by simp
qed simp

text \<open>C22. \<open>build_pos_manifests\<close> groups the manifest by POS: each group holds exactly the
  rows whose \<open>pos\<close> equals its key under Python's \<open>==\<close>, in manifest order.\<close>

theorem group_by_pos_groups:
  assumes "group_by_pos es = Inr bp" and "(k, items) \<in> set bp"
  shows "items = filter (pos_is k) es"
proof -
  have "grp_inv ([] @ es) bp"
    using group_loop[of es "[]" bp "[]"] assms(1) by (simp add: group_by_pos_def grp_inv_def)
  then show ?thesis using assms(2) by (force simp: grp_inv_def)
qed

lemma group_by_pos_groups_witness:
  "(JStr (ascii ''noun''), [JDict [(ascii ''pos'', JStr (ascii ''noun''))], JDict [(ascii ''pos'', JStr (ascii ''noun'')), (ascii ''n'', JInt 3)]])
     \<in> set (projr (group_by_pos [JDict [(ascii ''pos'', JStr (ascii ''noun''))], JDict [(ascii ''pos'', JBool True)],
                                 JDict [(ascii ''pos'', JInt 1)], JDict [(ascii ''pos'', JStr (ascii ''noun'')), (ascii ''n'', JInt 3)]]))
   \<and> [JDict [(ascii ''pos'', JStr (ascii ''noun''))], JDict [(ascii ''pos'', JStr (ascii ''noun'')), (ascii ''n'', JInt 3)]]
     = filter (pos_is (JStr (ascii ''noun''))) [JDict [(ascii ''pos'', JStr (ascii ''noun''))], JDict [(ascii ''pos'', JBool True)],
                                 JDict [(ascii ''pos'', JInt 1)], JDict [(ascii ''pos'', JStr (ascii ''noun'')), (ascii ''n'', JInt 3)]]
   \<and> (JBool True, [JDict [(ascii ''pos'', JBool True)], JDict [(ascii ''pos'', JInt 1)]])
     \<in> set (projr (group_by_pos [JDict [(ascii ''pos'', JStr (ascii ''noun''))], JDict [(ascii ''pos'', JBool True)],
                                 JDict [(ascii ''pos'', JInt 1)], JDict [(ascii ''pos'', JStr (ascii ''noun'')), (ascii ''n'', JInt 3)]]))"
proof -
  define es where "es = [JDict [(ascii ''pos'', JStr (ascii ''noun''))], JDict [(ascii ''pos'', JBool True)],
                         JDict [(ascii ''pos'', JInt 1)], JDict [(ascii ''pos'', JStr (ascii ''noun'')), (ascii ''n'', JInt 3)]]"
  have g: "group_by_pos es = Inr (projr (group_by_pos es))"
    by (simp add: es_def group_by_pos_def group_add_def py_eq_def json_eval ascii_def)
  have m: "(JStr (ascii ''noun''), [JDict [(ascii ''pos'', JStr (ascii ''noun''))], JDict [(ascii ''pos'', JStr (ascii ''noun'')), (ascii ''n'', JInt 3)]])
           \<in> set (projr (group_by_pos es))"
    by (simp add: es_def group_by_pos_def group_add_def py_eq_def json_eval ascii_def)
  have t: "(JBool True, [JDict [(ascii ''pos'', JBool True)], JDict [(ascii ''pos'', JInt 1)]]) \<in> set (projr (group_by_pos es))"
    by (simp add: es_def group_by_pos_def group_add_def py_eq_def json_eval ascii_def)
  show ?thesis using m t group_by_pos_groups[OF g m] unfolding es_def by simp
qed

fun is_count :: "json \<Rightarrow> bool" where
  "is_count (JInt i) = (0 \<le> i)"
| "is_count _ = False"

fun is_jstr :: "json \<Rightarrow> bool" where
  "is_jstr (JStr _) = True"
| "is_jstr _ = False"

definition ROW_KEYS :: "ustr list" where
  "ROW_KEYS = map ascii [''path'', ''lemma'', ''pos'', ''pos_index'', ''etymology'', ''definition_count'',
                         ''example_count'', ''form_slots'', ''filled_slots'']"

definition row_typed :: "json \<Rightarrow> bool" where
  "row_typed r \<longleftrightarrow> (case r of
      JDict kv \<Rightarrow> map fst kv = ROW_KEYS \<and> is_jstr (snd (kv ! 0))
                 \<and> list_all (\<lambda>p. is_count (snd p)) (drop 5 kv)
    | _ \<Rightarrow> False)"

text \<open>A manifest row that is right for the dictionary \<open>dd\<close> of \<open>fs\<close>: typed, its \<open>path\<close>
  \<open>pos/fname\<close> names a \<open>.json\<close> file \<open>dd/pos/fname\<close> of \<open>fs\<close>, and no more slots are filled
  than there are.\<close>

definition row_ok :: "fsys \<Rightarrow> path \<Rightarrow> json \<Rightarrow> bool" where
  "row_ok fs dd r \<longleftrightarrow> row_typed r \<and> (case r of
      JDict kv \<Rightarrow>
        list_ex (\<lambda>q. length q = length dd + 2 \<and> take (length dd) q = dd \<and> fs_isfile fs q
                     \<and> endswith (last q) (ascii ''.json'')
                     \<and> snd (kv ! 0) = JStr (q ! length dd @ ascii ''/'' @ last q)) (map fst fs)
        \<and> (case (snd (kv ! 7), snd (kv ! 8)) of (JInt t, JInt f) \<Rightarrow> f \<le> t | _ \<Rightarrow> False)
    | _ \<Rightarrow> False)"

lemma json_dict_case_Inr:
  "(case x of JDict kv \<Rightarrow> Inr (f kv) | _ \<Rightarrow> Inl e) = Inr y \<longleftrightarrow> (\<exists>kv. x = JDict kv \<and> y = f kv)"
  by (cases x) auto

lemma manifest_row_ok:
  assumes r: "manifest_row pos fname c lemma v = Inr r" and e: "fs_load fs (dd @ [pos, fname]) = Inr c"
    and j: "endswith fname (ascii ''.json'')"
  shows "row_ok fs dd r"
proof -
  have g: "dict_get fs (dd @ [pos, fname]) = Some (FFile c)"
    using e by (auto simp: fs_load_def split: option.splits fnode.splits)
  then have "dd @ [pos, fname] \<in> set (map fst fs)" by (rule dict_get_in_keys)
  moreover have "fs_isfile fs (dd @ [pos, fname])" using g by (simp add: fs_isfile_def)
  ultimately have ex: "list_ex (\<lambda>q. length q = length dd + 2 \<and> take (length dd) q = dd \<and> fs_isfile fs q
                     \<and> endswith (last q) (ascii ''.json'')
                     \<and> JStr (pos @ ascii ''/'' @ fname) = JStr (q ! length dd @ ascii ''/'' @ last q)) (map fst fs)"
    using j unfolding list_ex_iff by (intro bexI[of _ "dd @ [pos, fname]"]) (auto simp: nth_append)
  from r obtain kvf where i: "inflections_of v = Inr (JDict kvf)"
    by (auto simp: manifest_row_def sum_bind_eq_Inr json_dict_case_Inr)
  from r obtain lemma' pv pidx ety dc exs where rr: "r = JDict [(ascii ''path'', JStr (pos @ ascii ''/'' @ fname)),
      (ascii ''lemma'', lemma'), (ascii ''pos'', pv), (ascii ''pos_index'', pidx), (ascii ''etymology'', ety),
      (ascii ''definition_count'', JInt (int dc)), (ascii ''example_count'', JInt (int exs)),
      (ascii ''form_slots'', JInt (int (length kvf))),
      (ascii ''filled_slots'', JInt (int (length (filter (\<lambda>p. py_truthy (snd p)) kvf))))]"
    using i by (auto simp: manifest_row_def sum_bind_eq_Inr json_dict_case_Inr)
  show ?thesis
    using ex by (simp add: rr row_ok_def row_typed_def ROW_KEYS_def length_filter_le)
qed

lemma manifest_file_ok:
  assumes "manifest_file fs dd pos acc fname = Inr acc'" and "list_all (row_ok fs dd) acc"
  shows "list_all (row_ok fs dd) acc'"
proof -
  have step: "list_all (row_ok fs dd) a'"
    if "list_all (row_ok fs dd) a" "v \<in> set vs" "sum_bind (manifest_row pos fname c lem v) (\<lambda>r. Inr (a @ [r])) = Inr a'"
       "fs_load fs (dd @ [pos, fname]) = Inr c" "endswith fname (ascii ''.json'')"
    for a v a' vs c lem
    using that manifest_row_ok by (auto simp: sum_bind_eq_Inr)
  show ?thesis using assms
    by (auto simp: manifest_file_def sum_bind_eq_Inr split: if_splits
             intro: foldM_invariant[where P = "list_all (row_ok fs dd)", OF step])
qed

lemma manifest_pos_ok:
  assumes "manifest_pos fs dd acc pos = Inr acc'" and "list_all (row_ok fs dd) acc"
  shows "list_all (row_ok fs dd) acc'"
  using assms
  by (auto simp: manifest_pos_def sum_bind_eq_Inr split: if_splits
           intro: foldM_invariant[where P = "list_all (row_ok fs dd)"] manifest_file_ok)

text \<open>C7. Every row that \<open>build_manifest\<close> writes to \<open>manifest.json\<close> is a dict with the nine
  keys in their order and non-negative integer counts; its \<open>path\<close> \<open>pos/fname\<close> names the
  \<open>.json\<close> file \<open>pos/fname\<close> of the dictionary it was read from, and its \<open>filled_slots\<close> is
  at most its \<open>form_slots\<close>.\<close>

theorem build_manifest_rows_ok:
  assumes "build_manifest dd fs = Inr fs'"
  shows "\<exists>rows. fs_load fs' (dd @ [MANIFEST_NAME]) = Inr (JList rows) \<and> list_all (row_ok fs dd) rows"
proof -
  from assms obtain poss m where loop: "foldM (manifest_pos fs dd) poss [] = Inr m"
    and w: "fs_write fs (dd @ [MANIFEST_NAME]) (JList m) = Inr fs'"
    by (auto simp: build_manifest_def sum_bind_eq_Inr)
  have "list_all (row_ok fs dd) m"
    by (rule foldM_invariant[where P = "list_all (row_ok fs dd)", OF _ _ loop]) (auto intro: manifest_pos_ok)
  with fs_write_load[OF w] show ?thesis by blast
qed

definition ex_manifest_fs :: fsys where
  "ex_manifest_fs = projr (save_entry ascii_ucd ex_entry [ascii ''d'', ascii ''verb''] [])"

lemma build_manifest_rows_ok_witness:
  "\<exists>rows. fs_load (projr (build_manifest [ascii ''d''] ex_manifest_fs))
            ([ascii ''d''] @ [MANIFEST_NAME]) = Inr (JList rows) \<and> list_all (row_ok ex_manifest_fs [ascii ''d'']) rows"
proof -
  have b: "build_manifest [ascii ''d''] ex_manifest_fs = Inr (projr (build_manifest [ascii ''d''] ex_manifest_fs))"
    by (simp add: ex_manifest_fs_def dictfiles_eval json_eval ex_entry_def ascii_def ascii_ucd_def ascii_class_defs)
  show ?thesis by (rule build_manifest_rows_ok[OF b])
qed

end
