(* ===== verification/Driver.thy ===== *)
theory Driver
  imports Dictfiles
begin

text \<open>
  \<open>src/memory/adapters/sync_loop_until_done.py\<close>: the driver that runs the word sync
  (\<open>sync_json_words_to_db.py\<close>) again and again until a pass finds no new lemma and
  either reaches the end of the file list or makes no progress. The pass is a subprocess:
  the model takes it as a parameter, a function from the command line and the file system
  to an exit code and the file system it leaves. The state file and the list of missing
  lemmas are read from the file system of \<open>Dictfiles\<close>. The loop need not end, so it is a
  \<open>partial_function (option)\<close>: \<open>None\<close> is a driver that never stops.
\<close>

section \<open>Arguments and command line\<close>

text \<open>The parsed \<open>argparse\<close> namespace; \<open>sleep\<close> is kept as the text \<open>str(args.sleep)\<close>.\<close>

record loop_args =
  la_script :: ustr
  la_json_dir :: ustr
  la_db :: ustr
  la_scraper :: ustr
  la_state :: ustr
  la_out_missing :: ustr
  la_out_failed :: ustr
  la_target_new :: int
  la_batch_size :: int
  la_sleep :: ustr
  la_retries :: int
  la_fast_keys_only :: bool
  la_no_stopwords :: bool
  la_progress :: int
  la_rawdir :: ustr

definition build_cmd :: "ustr \<Rightarrow> loop_args \<Rightarrow> ustr list" where
  "build_cmd exe a =
     [exe, la_script a,
      ascii ''--json-dir'', la_json_dir a,
      ascii ''--db'', la_db a,
      ascii ''--scraper'', la_scraper a,
      ascii ''--state'', la_state a,
      ascii ''--out-missing'', la_out_missing a,
      ascii ''--out-failed'', la_out_failed a,
      ascii ''--target-new'', py_str (JInt (la_target_new a)),
      ascii ''--batch-size'', py_str (JInt (la_batch_size a)),
      ascii ''--sleep'', la_sleep a,
      ascii ''--retries'', py_str (JInt (la_retries a)),
      ascii ''--progress'', py_str (JInt (la_progress a)),
      ascii ''--rawdir'', la_rawdir a]
     @ (if la_fast_keys_only a then [ascii ''--fast-keys-only''] else [])
     @ (if la_no_stopwords a then [ascii ''--no-stopwords''] else [])"

section \<open>Reading the state file and the missing list\<close>

fun split_on :: "uchar \<Rightarrow> ustr \<Rightarrow> ustr list" where
  "split_on c [] = [[]]"
| "split_on c (x # xs) = (if x = c then [] # split_on c xs
                          else (case split_on c xs of g # gs \<Rightarrow> (x # g) # gs | [] \<Rightarrow> [[x]]))"

text \<open>\<open>Path(s)\<close> relative to the working directory: the components between slashes, empty
  components and \<open>.\<close> dropped.\<close>

definition str_path :: "ustr \<Rightarrow> path" where
  "str_path s = filter (\<lambda>c. c \<noteq> [] \<and> c \<noteq> ascii ''.'') (split_on 47 s)"

text \<open>\<open>int(s)\<close> of a string: surrounding whitespace, an optional sign, then decimal digits in
  groups joined by single underscores. Digits outside ASCII are not modelled.\<close>

definition digits_val :: "ustr \<Rightarrow> int" where
  "digits_val ds = foldl (\<lambda>acc d. 10 * acc + int d - 48) 0 ds"

definition py_int_str :: "ustr \<Rightarrow> int option" where
  "py_int_str s =
     (let t = py_strip s;
          (neg, body) = (case t of c # r \<Rightarrow> if c = 45 then (True, r) else if c = 43 then (False, r) else (False, t)
                         | [] \<Rightarrow> (False, []));
          groups = split_on 95 body
      in if body \<noteq> [] \<and> list_all (\<lambda>g. g \<noteq> [] \<and> list_all is_ascii_digit g) groups
         then Some ((if neg then -1 else 1) * digits_val (concat groups)) else None)"

fun py_int :: "json \<Rightarrow> py_exc + int" where
  "py_int (JInt i) = Inr i"
| "py_int (JBool b) = Inr (if b then 1 else 0)"
| "py_int (JStr s) = (case py_int_str s of Some i \<Rightarrow> Inr i | None \<Rightarrow> Inl ValueError)"
| "py_int _ = Inl TypeError"

text \<open>\<open>read_state_idx\<close>: \<open>(idx, len(files))\<close>, and \<open>(0, 0)\<close> for a missing file or any
  exception.\<close>

definition read_state_idx :: "fsys \<Rightarrow> path \<Rightarrow> int \<times> int" where
  "read_state_idx fs st =
     (case fs_load fs st of
        Inr (JDict kv) \<Rightarrow>
          (let files = (case dict_get kv (ascii ''files'') of Some v \<Rightarrow> if py_truthy v then v else JList []
                        | None \<Rightarrow> JList []);
               idx = (case dict_get kv (ascii ''idx'') of Some v \<Rightarrow> v | None \<Rightarrow> JInt 0)
           in case (py_int idx, py_len files) of (Inr i, Inr n) \<Rightarrow> (i, int n) | _ \<Rightarrow> (0, 0))
      | _ \<Rightarrow> (0, 0))"

definition read_count :: "fsys \<Rightarrow> path \<Rightarrow> int" where
  "read_count fs p = (case fs_load fs p of Inr v \<Rightarrow> (case py_len v of Inr n \<Rightarrow> int n | Inl _ \<Rightarrow> 0)
                      | Inl _ \<Rightarrow> 0)"

section \<open>The loop\<close>

text \<open>Whether the loop stops after a pass: no new lemma, and the end of the file list
  reached (\<open>total = total_after or total\<close>) or no progress of the saved index.\<close>

definition loop_done :: "int \<Rightarrow> int \<Rightarrow> int \<times> int \<Rightarrow> int \<Rightarrow> bool" where
  "loop_done idx_before tot after new_count \<longleftrightarrow>
     (let tot' = (if snd after \<noteq> 0 then snd after else tot)
      in new_count = 0 \<and> (tot' \<noteq> 0 \<and> fst after \<ge> tot') \<or> new_count = 0 \<and> fst after = idx_before)"

text \<open>One pass: the exit code, and the file system it leaves. A non-zero exit code ends the
  driver with that code (\<open>sys.exit(rc)\<close>); a normal stop is exit code 0.\<close>

partial_function (option) loop_until_done ::
  "(ustr list \<Rightarrow> fsys \<Rightarrow> int \<times> fsys) \<Rightarrow> ustr \<Rightarrow> loop_args \<Rightarrow> fsys \<Rightarrow> (int \<times> fsys) option" where
  "loop_until_done run exe a fs =
     (let st = str_path (la_state a); before = read_state_idx fs st; (rc, fs1) = run (build_cmd exe a) fs
      in if rc \<noteq> 0 then Some (rc, fs1)
         else if loop_done (fst before) (snd before) (read_state_idx fs1 st) (read_count fs1 (str_path (la_out_missing a)))
         then Some (0, fs1)
         else loop_until_done run exe a fs1)"

section \<open>Termination\<close>

text \<open>The driver stops as soon as a measure of the file system decreases, along an invariant
  kept by every successful pass, at every successful pass after which it does not stop.\<close>

lemma loop_until_done_variant:
  assumes inv: "\<And>fs fs1. P fs \<Longrightarrow> run (build_cmd exe a) fs = (0, fs1) \<Longrightarrow> P fs1"
    and dec: "\<And>fs fs1. P fs \<Longrightarrow> run (build_cmd exe a) fs = (0, fs1) \<Longrightarrow>
     \<not> loop_done (fst (read_state_idx fs (str_path (la_state a)))) (snd (read_state_idx fs (str_path (la_state a))))
         (read_state_idx fs1 (str_path (la_state a))) (read_count fs1 (str_path (la_out_missing a)))
     \<Longrightarrow> (\<mu> fs1 :: nat) < \<mu> fs"
    and P0: "P fs"
  shows "\<exists>r. loop_until_done run exe a fs = Some r"
  using P0
proof (induction "\<mu> fs" arbitrary: fs rule: less_induct)
  case less
  obtain rc fs1 where r: "run (build_cmd exe a) fs = (rc, fs1)" by (cases "run (build_cmd exe a) fs")
  show ?case
  proof (cases "rc \<noteq> 0 \<or> loop_done (fst (read_state_idx fs (str_path (la_state a))))
                   (snd (read_state_idx fs (str_path (la_state a))))
                   (read_state_idx fs1 (str_path (la_state a))) (read_count fs1 (str_path (la_out_missing a)))")
    case True
    then show ?thesis by (subst loop_until_done.simps) (auto simp: r Let_def)
  next
    case False
    then have "\<mu> fs1 < \<mu> fs" and "P fs1" using dec inv r less.prems by auto
    then obtain r' where "loop_until_done run exe a fs1 = Some r'" using less.hyps by blast
    then show ?thesis using False by (subst loop_until_done.simps) (simp add: r Let_def)
  qed
qed

text \<open>A pass after which the driver goes on has moved the saved index forward: with the file
  count \<open>N > 0\<close> kept, a pass that reports no new lemma and leaves the index where it was,
  or takes it to \<open>N\<close>, ends the loop.\<close>

lemma loop_done_progress:
  assumes "snd after = N" "0 < N" "ib \<le> fst after" "fst after \<le> N"
    and "nc \<noteq> 0 \<Longrightarrow> ib < fst after" "\<not> loop_done ib tot after nc"
  shows "nat (N - fst after) < nat (N - ib)"
  using assms unfolding loop_done_def Let_def by auto

text \<open>C25. The driver stops (with the exit code of a failed pass, or 0) when every successful
  sync pass keeps the file list at \<open>N > 0\<close> files and, started from a saved index at most
  \<open>N\<close>, never moves it backwards or past \<open>N\<close> and moves it forward whenever it reports new
  lemmas; the saved index of the first state is at most \<open>N\<close>.\<close>

theorem loop_until_done_terminates:
  fixes N :: int
  assumes N: "0 < N"
    and pass: "\<And>fs fs1. run (build_cmd exe a) fs = (0, fs1) \<Longrightarrow> fst (read_state_idx fs (str_path (la_state a))) \<le> N \<Longrightarrow>
       snd (read_state_idx fs1 (str_path (la_state a))) = N \<and> fst (read_state_idx fs (str_path (la_state a))) \<le> fst (read_state_idx fs1 (str_path (la_state a))) \<and> fst (read_state_idx fs1 (str_path (la_state a))) \<le> N \<and>
       (read_count fs1 (str_path (la_out_missing a)) \<noteq> 0 \<longrightarrow> fst (read_state_idx fs (str_path (la_state a))) < fst (read_state_idx fs1 (str_path (la_state a))))"
    and start: "fst (read_state_idx fs (str_path (la_state a))) \<le> N"
  shows "\<exists>r. loop_until_done run exe a fs = Some r"
proof (rule loop_until_done_variant[where P = "\<lambda>fs. fst (read_state_idx fs (str_path (la_state a))) \<le> N" and \<mu> = "\<lambda>fs. nat (N - fst (read_state_idx fs (str_path (la_state a))))"])
  show "fst (read_state_idx fs1 (str_path (la_state a))) \<le> N" if "fst (read_state_idx fs0 (str_path (la_state a))) \<le> N" "run (build_cmd exe a) fs0 = (0, fs1)" for fs0 fs1
    using pass[OF that(2,1)] by simp
  show "nat (N - fst (read_state_idx fs1 (str_path (la_state a)))) < nat (N - fst (read_state_idx fs0 (str_path (la_state a))))"
    if "fst (read_state_idx fs0 (str_path (la_state a))) \<le> N" "run (build_cmd exe a) fs0 = (0, fs1)"
       "\<not> loop_done (fst (read_state_idx fs0 (str_path (la_state a)))) (snd (read_state_idx fs0 (str_path (la_state a))))
          (read_state_idx fs1 (str_path (la_state a))) (read_count fs1 (str_path (la_out_missing a)))" for fs0 fs1
    using pass[OF that(2,1)] that(3) N by (intro loop_done_progress) auto
qed (rule start)

definition ex_args :: loop_args where
  "ex_args = \<lparr>la_script = ascii ''sync_json_words_to_db.py'', la_json_dir = ascii ''json'', la_db = ascii ''l0.sqlite3'',
     la_scraper = ascii ''wiktionary_scraper.py'', la_state = ascii ''state.json'',
     la_out_missing = ascii ''missing.json'', la_out_failed = ascii ''failed.json'', la_target_new = 10,
     la_batch_size = 10, la_sleep = ascii ''0.6'', la_retries = 1, la_fast_keys_only = False,
     la_no_stopwords = False, la_progress = 2000, la_rawdir = ascii ''./_raw''\<rparr>"

definition ex_state :: "int \<Rightarrow> fsys" where
  "ex_state i = [([ascii ''state.json''], FFile (JDict [(ascii ''idx'', JInt i),
     (ascii ''files'', JList [JStr (ascii ''a.json''), JStr (ascii ''b.json''), JStr (ascii ''c.json'')])]))]"

lemma loop_until_done_terminates_witness:
  "\<exists>r. loop_until_done (\<lambda>_ fs. (0, ex_state (min 3 (fst (read_state_idx fs [ascii ''state.json'']) + 1))))
          (ascii ''python'') ex_args (ex_state 0) = Some r"
proof -
  have st: "str_path (la_state ex_args) = [ascii ''state.json'']"
    by code_simp
  have rd: "read_state_idx (ex_state i) [ascii ''state.json''] = (i, 3)" for i
    by (simp add: read_state_idx_def ex_state_def fs_load_def json_eval ascii_def)
  have mc: "read_count (ex_state i) (str_path (la_out_missing ex_args)) = 0" for i
    by (simp add: read_count_def ex_state_def fs_load_def json_eval) code_simp
  show ?thesis
    by (rule loop_until_done_terminates[where N = 3]) (auto simp: st rd mc)
qed

end
