(* ===== verification/ScrapeRun.thy ===== *)
theory ScrapeRun
  imports Labels Store Dictfiles
begin

text \<open>
  The driver of \<open>src/memory/adapters/wiktionary_scraper.py\<close>: its text helpers
  (\<open>norm_space\<close>, \<open>text_clean\<close>, \<open>unique_preserve\<close>, \<open>_strip_invisible\<close>,
  \<open>_normalize_punct\<close>, \<open>_canon_for_dedupe\<close>), \<open>write_lemma_json\<close> and \<open>run\<close>, which for each
  word scrapes it, enriches the lemma object in place (\<open>Labels\<close>), upserts it into the L0
  store (\<open>Store\<close>) and writes it as a JSON file (the file system of \<open>Dictfiles\<close>), retrying
  a failed word. The HTML scraper itself is a parameter: a function from the attempt number
  and the word to the lemma object or an exception, so that a retry may see another answer.
\<close>

section \<open>Text helpers\<close>

text \<open>\<open>re.sub(r"\s+", " ", s)\<close>: every maximal run of whitespace becomes one space.\<close>

fun collapse_ws :: "bool \<Rightarrow> ustr \<Rightarrow> ustr" where
  "collapse_ws b [] = []"
| "collapse_ws b (c # cs) =
     (if py_isspace c then (if b then collapse_ws True cs else 32 # collapse_ws True cs)
      else c # collapse_ws False cs)"

definition norm_space :: "ustr \<Rightarrow> ustr" where
  "norm_space s = py_strip (collapse_ws False s)"

definition text_clean :: "ustr \<Rightarrow> ustr" where
  "text_clean s = py_strip (collapse_ws False s)"

text \<open>\<open>_ZW_RE\<close>: zero-width characters, bidi controls and the soft hyphen.\<close>

definition is_invisible :: "uchar \<Rightarrow> bool" where
  "is_invisible c \<longleftrightarrow> (0x200B \<le> c \<and> c \<le> 0x200F) \<or> (0x202A \<le> c \<and> c \<le> 0x202E)
                        \<or> (0x2066 \<le> c \<and> c \<le> 0x2069) \<or> c = 0xAD"

definition strip_invisible :: "ustr \<Rightarrow> ustr" where
  "strip_invisible s = filter (\<lambda>c. \<not> is_invisible c) s"

definition PUNCT :: "uchar list" where
  "PUNCT = ascii '',.;:!?%''"

text \<open>\<open>re.sub(r"\s+([,.;:!?%])", r"\1", s)\<close>: a run of whitespace is dropped when a
  punctuation mark follows it; the pending run is the first argument.\<close>

fun drop_ws_before_punct :: "ustr \<Rightarrow> ustr \<Rightarrow> ustr" where
  "drop_ws_before_punct run [] = run"
| "drop_ws_before_punct run (c # cs) =
     (if py_isspace c then drop_ws_before_punct (run @ [c]) cs
      else if c \<in> set PUNCT then c # drop_ws_before_punct [] cs
      else run @ c # drop_ws_before_punct [] cs)"

text \<open>\<open>re.sub(r"([,.;:!?%])(?!\s|$)", r"\1 ", s)\<close>: a space after every punctuation mark
  that is followed by a character other than whitespace.\<close>

fun space_after_punct :: "ustr \<Rightarrow> ustr" where
  "space_after_punct [] = []"
| "space_after_punct (c # cs) =
     (if c \<in> set PUNCT \<and> cs \<noteq> [] \<and> \<not> py_isspace (hd cs) then c # 32 # space_after_punct cs
      else c # space_after_punct cs)"

definition normalize_punct :: "ustr \<Rightarrow> ustr" where
  "normalize_punct s =
     (let s1 = strip_invisible s;
          s2 = py_strip (collapse_ws False s1);
          s3 = drop_ws_before_punct [] s2;
          s4 = space_after_punct s3
      in py_strip (collapse_ws False s4))"

text \<open>\<open>re.sub(r"[ .,:;\u2013\u2014-]+$", "", s)\<close> (en and em dash written as escapes) on a
  string without line breaks.\<close>

definition DEDUPE_TRAIL :: "uchar list" where
  "DEDUPE_TRAIL = [32, 46, 44, 58, 59, 0x2013, 0x2014, 45]"

definition canon_for_dedupe :: "ucd \<Rightarrow> ustr \<Rightarrow> ustr" where
  "canon_for_dedupe U s =
     (let s1 = normalize_punct (str_lower U (strip_invisible s))
      in rev (dropWhile (\<lambda>c. c \<in> set DEDUPE_TRAIL) (rev s1)))"

section \<open>\<open>unique_preserve\<close>\<close>

text \<open>
  The key of an item: \<open>json.dumps(x, ensure_ascii=False, sort_keys=True)\<close> for a dict or
  a list, \<open>str(x)\<close> otherwise.
\<close>

fun json_escape_char :: "uchar \<Rightarrow> ustr" where
  "json_escape_char c =
     (if c = 34 then [92, 34] else if c = 92 then [92, 92] else if c = 10 then [92, 110]
      else if c = 13 then [92, 114] else if c = 9 then [92, 116] else if c = 8 then [92, 98]
      else if c = 12 then [92, 102]
      else if c < 32 then [92, 117, 48, 48] @ [(if c div 16 < 10 then 48 + c div 16 else 87 + c div 16),
                                           (if c mod 16 < 10 then 48 + c mod 16 else 87 + c mod 16)]
      else [c])"

definition json_quote :: "ustr \<Rightarrow> ustr" where
  "json_quote s = [34] @ concat (map json_escape_char s) @ [34]"

text \<open>\<open>sep.join(parts)\<close>.\<close>

fun str_join :: "ustr \<Rightarrow> ustr list \<Rightarrow> ustr" where
  "str_join sep [] = []"
| "str_join sep [x] = x"
| "str_join sep (x # y # xs) = x @ sep @ str_join sep (y # xs)"

function json_dumps :: "json \<Rightarrow> ustr" where
  "json_dumps JNull = ascii ''null''"
| "json_dumps (JBool b) = (if b then ascii ''true'' else ascii ''false'')"
| "json_dumps (JInt i) = py_str (JInt i)"
| "json_dumps (JStr s) = json_quote s"
| "json_dumps (JList xs) = [91] @ str_join (ascii '', '') (map json_dumps xs) @ [93]"
| "json_dumps (JDict kv) =
     [123] @ str_join (ascii '', '')
                (map (\<lambda>p. json_quote (fst p) @ ascii '': '' @ json_dumps (snd p)) (sort_key fst kv)) @ [125]"
  by pat_completeness auto
termination
  by (relation "measure size") (auto simp: json_size_rules)

fun item_key :: "json \<Rightarrow> ustr" where
  "item_key (JList xs) = json_dumps (JList xs)"
| "item_key (JDict kv) = json_dumps (JDict kv)"
| "item_key v = py_str v"

definition unique_preserve :: "json list \<Rightarrow> json list" where
  "unique_preserve xs =
     snd (foldl (\<lambda>(seen, out) x. let k = item_key x in if k \<in> set seen then (seen, out) else (seen @ [k], out @ [x]))
                ([], []) xs)"

section \<open>\<open>write_lemma_json\<close> and \<open>run\<close>\<close>

text \<open>\<open>outdir.mkdir(parents=True, exist_ok=True)\<close> then \<open>(outdir / f"{lemma}.json").write_text(...)\<close>.
  The file system it leaves is returned with the exception, if any: on a well-formed file
  system a failing \<open>mkdir\<close> creates nothing, and a failing write comes after the directories
  were made.\<close>

definition write_lemma_json :: "path \<Rightarrow> ustr \<Rightarrow> json \<Rightarrow> fsys \<Rightarrow> fsys \<times> py_exc option" where
  "write_lemma_json outdir lemma obj fs =
     (case makedirs fs outdir of
        Inl e \<Rightarrow> (fs, Some e)
      | Inr fs1 \<Rightarrow> (case fs_write fs1 (outdir @ [lemma @ ascii ''.json'']) obj of
                     Inl e \<Rightarrow> (fs1, Some e)
                   | Inr fs2 \<Rightarrow> (fs2, None)))"

datatype run_outcome = RunOK ustr | RunFail ustr

record RunState =
  rs_db :: "L0DB option"
  rs_fs :: fsys
  rs_log :: "run_outcome list"

text \<open>One try of the body of the \<open>try\<close> block (or of a retry): scrape, enrich, upsert when
  there is a connection, write the file unless \<open>no_files\<close>. The database and the file
  system keep what the failing step did before it raised.\<close>

definition attempt ::
  "ucd \<Rightarrow> (nat \<Rightarrow> ustr \<Rightarrow> py_exc + json) \<Rightarrow> path \<Rightarrow> bool \<Rightarrow> nat \<Rightarrow> ustr \<Rightarrow> RunState \<Rightarrow> RunState \<times> bool" where
  "attempt U scrape outdir no_files k w st =
     (case scrape k w of
        Inl _ \<Rightarrow> (st, False)
      | Inr obj \<Rightarrow>
          (case enrich_lemma_inplace_scr U obj of
             Inl _ \<Rightarrow> (st, False)
           | Inr obj' \<Rightarrow>
               (let (db', err) = (case rs_db st of
                                    Some db \<Rightarrow> (case upsert_lemma db obj' of (d, e) \<Rightarrow> (Some d, e))
                                  | None \<Rightarrow> (None, None));
                    st1 = st\<lparr>rs_db := db'\<rparr>
                in if err \<noteq> None then (st1, False)
                   else if no_files then (st1, True)
                   else (case write_lemma_json outdir w obj' (rs_fs st1) of
                           (fs', Some _) \<Rightarrow> (st1\<lparr>rs_fs := fs'\<rparr>, False)
                         | (fs', None) \<Rightarrow> (st1\<lparr>rs_fs := fs'\<rparr>, True)))))"

text \<open>\<open>for k in range(1, retry+1)\<close>: retries until one succeeds.\<close>

fun retry_loop ::
  "ucd \<Rightarrow> (nat \<Rightarrow> ustr \<Rightarrow> py_exc + json) \<Rightarrow> path \<Rightarrow> bool \<Rightarrow> nat list \<Rightarrow> ustr \<Rightarrow> RunState \<Rightarrow> RunState \<times> bool" where
  "retry_loop U scrape outdir no_files [] w st = (st, False)"
| "retry_loop U scrape outdir no_files (k # ks) w st =
     (case attempt U scrape outdir no_files k w st of
        (st', True) \<Rightarrow> (st', True)
      | (st', False) \<Rightarrow> retry_loop U scrape outdir no_files ks w st')"

definition run_word ::
  "ucd \<Rightarrow> (nat \<Rightarrow> ustr \<Rightarrow> py_exc + json) \<Rightarrow> path \<Rightarrow> nat \<Rightarrow> bool \<Rightarrow> RunState \<Rightarrow> ustr \<Rightarrow> RunState" where
  "run_word U scrape outdir retry no_files st w0 =
     (let w = py_strip w0 in
      if w = [] then st
      else (case attempt U scrape outdir no_files 0 w st of
              (st1, True) \<Rightarrow> st1\<lparr>rs_log := rs_log st1 @ [RunOK w]\<rparr>
            | (st1, False) \<Rightarrow>
                (case retry_loop U scrape outdir no_files [1..<Suc retry] w st1 of
                   (st2, ok) \<Rightarrow> st2\<lparr>rs_log := rs_log st2 @ [if ok then RunOK w else RunFail w]\<rparr>)))"

definition run ::
  "ucd \<Rightarrow> (nat \<Rightarrow> ustr \<Rightarrow> py_exc + json) \<Rightarrow> path \<Rightarrow> nat \<Rightarrow> bool \<Rightarrow> ustr list \<Rightarrow> RunState \<Rightarrow> RunState" where
  "run U scrape outdir retry no_files words st = foldl (run_word U scrape outdir retry no_files) st words"

section \<open>Properties\<close>

lemma insert_rows_tables: "db_tables (fst (insert_rows db t pss)) = db_tables db"
  by (induction db t pss rule: insert_rows.induct) (auto simp: insert_row_def split: sum.splits prod.splits option.splits)

lemma exec_stmt_tables: "db_tables (fst (exec_stmt db s)) = db_tables db"
  by (cases s) (auto simp: with_table_def insert_row_def insert_rows_tables split: sum.splits prod.splits option.splits)

lemma exec_stmts_tables: "db_tables (fst (exec_stmts db ss)) = db_tables db"
proof (induction db ss rule: exec_stmts.induct)
  case (2 db s ss)
  obtain d e where de: "exec_stmt db s = (d, e)" by fastforce
  moreover have "db_tables d = db_tables db" using exec_stmt_tables[of db s] de by simp
  ultimately show ?case using 2 by (cases e) auto
qed simp

lemma upsert_lemma_tables: "db_tables (fst (upsert_lemma db obj)) = db_tables db"
proof -
  obtain stmts perr where u: "upsert_stmts obj = (stmts, perr)" by fastforce
  obtain d e where x: "exec_stmts db stmts = (d, e)" by fastforce
  have "db_tables d = db_tables db" using exec_stmts_tables[of db stmts] x by simp
  then show ?thesis by (simp add: upsert_lemma_def u x)
qed

lemma upsert_lemma_fails_without_variant:
  assumes "T_variant \<notin> set (db_tables db)"
  shows "snd (upsert_lemma db obj) \<noteq> None"
proof (cases obj)
  case (JDict kv)
  show ?thesis
  proof (cases "dict_get kv (ascii ''lemma'')")
    case None
    then show ?thesis using JDict by (simp add: upsert_lemma_def upsert_stmts_def split: prod.splits)
  next
    case (Some lem)
    obtain rest where st: "fst (upsert_stmts (JDict kv)) =
        [SBegin, SUpsertEntry (PVal lem) (JDict kv), SDelete T_variant (PVal lem)] @ rest"
      using upsert_stmts_prefix[OF Some] by blast
    have "snd (exec_stmts db [SBegin, SUpsertEntry (PVal lem) (JDict kv), SDelete T_variant (PVal lem)]) \<noteq> None"
      using assms by (auto simp: with_table_def split: prod.splits option.splits sum.splits)
    then have "snd (exec_stmts db (fst (upsert_stmts (JDict kv)))) \<noteq> None"
      unfolding st exec_stmts_append by (auto split: prod.splits option.splits)
    then show ?thesis using JDict by (auto simp: upsert_lemma_def split: prod.splits option.splits)
  qed
qed (auto simp: upsert_lemma_def upsert_stmts_def)

definition fresh_store :: "RunState \<Rightarrow> bool" where
  "fresh_store st \<longleftrightarrow> (case rs_db st of Some db \<Rightarrow> T_variant \<notin> set (db_tables db) | None \<Rightarrow> False)"

lemma attempt_fresh:
  assumes f: "fresh_store st" and a: "attempt U scrape outdir nf k w st = (st', ok)"
  shows "\<not> ok \<and> fresh_store st' \<and> rs_fs st' = rs_fs st \<and> rs_log st' = rs_log st"
proof -
  from f obtain db where db: "rs_db st = Some db" and t: "T_variant \<notin> set (db_tables db)"
    by (auto simp: fresh_store_def split: option.splits)
  have up: "snd (upsert_lemma db obj) \<noteq> None \<and> T_variant \<notin> set (db_tables (fst (upsert_lemma db obj)))" for obj
    using upsert_lemma_fails_without_variant[OF t] upsert_lemma_tables t by simp
  show ?thesis
  proof (cases "scrape k w")
    case (Inl e)
    then show ?thesis using a f by (simp add: attempt_def)
  next
    case sc: (Inr obj)
    show ?thesis
    proof (cases "enrich_lemma_inplace_scr U obj")
      case (Inl e)
      then show ?thesis using a f sc by (simp add: attempt_def)
    next
      case (Inr obj')
      obtain d e where u: "upsert_lemma db obj' = (d, e)" by fastforce
      have "e \<noteq> None" "T_variant \<notin> set (db_tables d)" using up[of obj'] u by auto
      then show ?thesis using a sc Inr u db by (auto simp: attempt_def fresh_store_def)
    qed
  qed
qed

lemma retry_loop_fresh:
  "fresh_store st \<Longrightarrow> retry_loop U scrape outdir nf ks w st = (st', ok) \<Longrightarrow>
   \<not> ok \<and> fresh_store st' \<and> rs_fs st' = rs_fs st \<and> rs_log st' = rs_log st"
proof (induction ks arbitrary: st)
  case (Cons k ks)
  obtain st1 ok1 where a: "attempt U scrape outdir nf k w st = (st1, ok1)" by fastforce
  from attempt_fresh[OF Cons.prems(1) a] have "\<not> ok1" "fresh_store st1" "rs_fs st1 = rs_fs st" "rs_log st1 = rs_log st"
    by auto
  then show ?case using Cons.IH[of st1] Cons.prems(2) a by simp
qed simp

lemma run_word_fresh:
  assumes "fresh_store st"
  shows "fresh_store (run_word U scrape outdir retry nf st w)
         \<and> rs_fs (run_word U scrape outdir retry nf st w) = rs_fs st
         \<and> rs_log (run_word U scrape outdir retry nf st w)
             = rs_log st @ (if py_strip w = [] then [] else [RunFail (py_strip w)])"
proof (cases "py_strip w = []")
  case False
  obtain st1 ok1 where a: "attempt U scrape outdir nf 0 (py_strip w) st = (st1, ok1)" by fastforce
  note a1 = attempt_fresh[OF assms a]
  obtain st2 ok2 where r: "retry_loop U scrape outdir nf [1..<Suc retry] (py_strip w) st1 = (st2, ok2)" by fastforce
  note r1 = retry_loop_fresh[OF conjunct1[OF conjunct2[OF a1]] r]
  show ?thesis using False a a1 r r1 by (simp add: run_word_def fresh_store_def)
qed (simp add: run_word_def assms)

text \<open>C33. Against a store opened by \<open>db_connect\<close> on a database without the variant table,
  \<open>run\<close> writes no lemma file and reports every non-blank word as failed, whatever the
  scraper returns and however many retries are allowed: every upsert raises before the
  file is written.\<close>

theorem run_fresh_store_all_fail:
  assumes "T_variant \<notin> set (db_tables db)"
  shows "rs_fs (run U scrape outdir retry nf words \<lparr>rs_db = Some db, rs_fs = fs, rs_log = []\<rparr>) = fs
         \<and> rs_log (run U scrape outdir retry nf words \<lparr>rs_db = Some db, rs_fs = fs, rs_log = []\<rparr>)
             = map RunFail (filter (\<lambda>w. w \<noteq> []) (map py_strip words))"
proof -
  have "fresh_store (foldl (run_word U scrape outdir retry nf) st ws)
        \<and> rs_fs (foldl (run_word U scrape outdir retry nf) st ws) = rs_fs st
        \<and> rs_log (foldl (run_word U scrape outdir retry nf) st ws)
            = rs_log st @ map RunFail (filter (\<lambda>w. w \<noteq> []) (map py_strip ws))"
    if "fresh_store st" for st ws
    using that
  proof (induction ws arbitrary: st)
    case (Cons w ws)
    from run_word_fresh[OF Cons.prems, of U scrape outdir retry nf w] Cons.IH show ?case by auto
  qed simp
  from this[of "\<lparr>rs_db = Some db, rs_fs = fs, rs_log = []\<rparr>" words] assms show ?thesis
    by (simp add: run_def fresh_store_def)
qed

lemma run_fresh_store_all_fail_witness:
  "rs_fs (run ascii_ucd (\<lambda>_ w. Inr (JDict [(ascii ''lemma'', JStr w)])) [ascii ''out''] 1 False
            [ascii ''go'', ascii ''  '', ascii '' run'']
            \<lparr>rs_db = Some (l0_connect L0DB_empty), rs_fs = [], rs_log = []\<rparr>) = []
   \<and> rs_log (run ascii_ucd (\<lambda>_ w. Inr (JDict [(ascii ''lemma'', JStr w)])) [ascii ''out''] 1 False
            [ascii ''go'', ascii ''  '', ascii '' run'']
            \<lparr>rs_db = Some (l0_connect L0DB_empty), rs_fs = [], rs_log = []\<rparr>)
     = [RunFail (ascii ''go''), RunFail (ascii ''run'')]"
proof -
  have t: "T_variant \<notin> set (db_tables (l0_connect L0DB_empty))"
    by (simp add: l0_connect_def L0DB_empty_def T_variant_def T_entry_def ascii_def)
  show ?thesis using run_fresh_store_all_fail[OF t] by (simp add: py_strip_def py_lstrip_def py_rstrip_def py_isspace_def ascii_def)
qed

text \<open>The dedupe key of \<open>unique_preserve\<close> does not tell a string from a list or dict whose
  JSON text it is, nor \<open>"True"\<close> from \<open>True\<close>: the second item of each pair is dropped.\<close>

lemma unique_preserve_conflates:
  "unique_preserve [JStr (ascii ''[]''), JList [], JStr (ascii ''True''), JBool True]
   = [JStr (ascii ''[]''), JStr (ascii ''True'')]"
  by (simp add: unique_preserve_def ascii_def Let_def)

text \<open>\<open>_normalize_punct\<close> puts a space after every full stop followed by a character, so a
  decimal number is split: \<open>"3.5 kg"\<close> becomes \<open>"3. 5 kg"\<close>.\<close>

lemma normalize_punct_splits_decimal:
  "normalize_punct (ascii ''3.5 kg'') = ascii ''3. 5 kg''"
  by (simp add: normalize_punct_def strip_invisible_def is_invisible_def PUNCT_def py_strip_def
                py_lstrip_def py_rstrip_def py_isspace_def ascii_def)

end
