(* ===== verification/Spec2Isabelle.thy ===== *)
theory Spec2Isabelle
  imports Pipeline Labels Sync Store Viewer Driver ScrapeRun
begin

text \<open>
  \<^bold>\<open>A verification development of the PABLO language core.\<close>

  The program. \<open>src/brain/language/\<close> turns text into a flagged token stream
  (\<open>tokenizer.py\<close>), sentence spans (\<open>sentences.py\<close>), part-of-speech and lemma
  annotations (\<open>morph.py\<close>), and a typed graph (\<open>graph_builder.py\<close>: the
  \<open>GraphBuilder\<close> and the \<open>.pgraph\<close> binary codec). \<open>src/memory/adapters/\<close> builds
  the dictionary the core consults: Wiktionary pages are scraped into JSON lemma
  objects, their glosses enriched with labels, and the lemmas stored in SQLite; a sync
  script finds words of the JSON dictionary still missing from the database and
  scrapes them in resumable runs.

  The library, leaf first.
  \<^item> \<open>Prelude\<close>: bytes as \<open>8 word\<close>, Python strings as lists of code points, the
    error type \<open>pg_error\<close> (one constructor per \<open>raise\<close> site and per
    out-of-range \<open>buf[i]\<close>), \<open>sum_bind\<close> for statement sequences that may raise,
    \<open>seq_bytes\<close> for \<open>out += ...\<close> sequences.
  \<^item> \<open>Varint\<close>: \<open>_uvarint_encode\<close> (\<open>uvarint_loop\<close>, \<open>uvarint_encode\<close>) and
    \<open>_uvarint_decode\<close> (\<open>uvarint_dec_loop\<close>, \<open>uvarint_decode\<close>) as terminating
    functions (measures: the value, the bytes left), and the two-byte flag fields.
    Theorems: roundtrip at any offset (C3), the decoder's bounds (C4), rejection
    of ten continuation bytes (C5).
  \<^item> \<open>Graph\<close>: the enums as datatypes with their codes, the flag bits, \<open>Node\<close>,
    \<open>Edge\<close>, \<open>Graph\<close> as records of Python ints, \<open>GraphBuilder\<close> as a record of its
    slots with \<open>GraphBuilder_init\<close>, \<open>add_node\<close>, \<open>add_edge\<close>, \<open>set_thumbnail\<close>,
    \<open>finalize\<close> returning the new state; \<open>builder_op\<close>/\<open>builder_run\<close> give runs
    of method calls. Theorems: dense node ids and matching counts after any run
    (C8), the thumbnail check (C9), the only failing call (C10).
  \<^item> \<open>Codec\<close>: \<open>encode_pgraph\<close> and \<open>decode_pgraph\<close> with their per-record
    helpers. Readers thread the offset; \<open>reader_local\<close> states that a reader only
    looks at the bytes from its offset on, and is closed under \<open>sum_bind\<close>, so each
    field is proved at offset 0 of the remaining bytes. Theorems: the roundtrip for
    graphs with in-range fields whatever follows the encoding (C1), byte-level
    re-encoding (C2), the loss of an empty thumbnail (C6); the module's
    \<open>_self_check\<close> holds (\<open>self_check_passes\<close>).

  \<^item> \<open>Tokenizer\<close>: \<open>tokenizer.py\<close>. The master regular expression is one matcher
    per named alternative over code points (\<open>url_match\<close>, \<open>email_match\<close> with the
    greedy domain's backtracking, \<open>handle_match\<close>, \<open>ellipsis_match\<close>, \<open>word_match\<close>,
    \<open>punct_match\<close>, \<open>ws_match\<close>), tried in order by \<open>first_match\<close>; \<open>scan\<close> is
    \<open>re.finditer\<close>, skipping positions where nothing matches; \<open>build_tokens\<close>,
    \<open>fallback_token\<close> and \<open>sentence_cues\<close> (with \<open>bubble_weak\<close>) are the two loops of
    \<open>tokenize\<close>; \<open>tokens_to_graph\<close> drives the builder. \<open>str.isdigit/isalpha/isupper/
    lower\<close> are the parameter \<open>ucd\<close> of \<open>Prelude\<close>. Theorems: token well-formedness (C11),
    the post-pass refines a declarative cue specification (C12), the token graph (C15) and its flag mapping (C16); the
    specification's examples and the loss of unmatched characters are checked as lemmas.
  \<^item> \<open>Sentences\<close>: \<open>sentences.py\<close>. \<open>segment_tokens\<close> is \<open>seg_loop\<close> over \<open>(s, k)\<close>
    with the look-ahead loops \<open>weak_run\<close> and \<open>skip_punct\<close>; \<open>segment\<close> maps to
    characters. Theorems: partition (C18), strong ends close after their weak run (C19);
    the specification's examples, including the ellipsis asymmetry, as lemmas.
  \<^item> \<open>Morph\<close>: \<open>morph.py\<close>. \<open>POS\<close>, \<open>pack_bits\<close>, \<open>Vocab\<close> (map and list) with
    \<open>get_id\<close>/\<open>get_str\<close>, the closed-class tables, \<open>classify\<close> (the rule cascade),
    \<open>analyze_tokens\<close> threading the vocabulary, \<open>annotate_graph\<close> returning the updated
    graph. Theorems: field layout (C23), vocabulary invariant (C24) and inverse (C27)
    with repeat and no-collision lemmas, the analyser's ids (C28), the stemmer strips exactly
    the \<open>-ing\<close>/\<open>-ed\<close> suffix, so doubled letters stay (C29), what annotation changes (C30).
  \<^item> \<open>Pipeline\<close>: the token graph and \<open>tester.py\<close> (\<open>tester\<close>) through the codec
    (C17, C32).
  \<^item> \<open>Json\<close>: a JSON document as \<open>json.load\<close> returns it (\<open>json\<close>, dicts as
    association lists in insertion order), \<open>dict.get\<close>/item assignment
    (\<open>dict_get\<close>, \<open>dict_set\<close>, \<open>setdefault\<close>), truth values, iteration (\<open>py_iter\<close>),
    comparison through sorted \<open>json.dumps\<close> (\<open>same_dump\<close>), \<open>str.strip\<close>, and the
    exceptions \<open>py_exc\<close> the adapters can raise on malformed values.
  \<^item> \<open>Labels\<close>: \<open>language/dictionary_label_enricher.py\<close> and the inline copies in
    \<open>wiktionary_to_db.py\<close> and \<open>wiktionary_scraper.py\<close>. The three regular
    expressions are matchers (\<open>lead_paren_match\<close>, \<open>trail_bracket_search\<close>,
    \<open>split_match\<close> with \<open>re_split\<close>); \<open>enrich_def_obj\<close>,
    \<open>enrich_def_inplace_db\<close>, \<open>enrich_def_inplace_scr\<close> recurse into subdefinitions
    (termination by the size of the JSON value); \<open>enrich_entries_loop\<close>,
    \<open>enrich_file\<close>, \<open>enrich_files\<close> are the file loop of \<open>enrich_dictionary\<close> with the
    loop variables that Python keeps alive across entries and files (\<open>EnrichVars\<close>).
    Theorem: the importers' two copies agree (C34). Lemmas on concrete files show that the
    docstring's idempotence fails and that the mis-indented comparison writes one file's
    definitions into the next file.
  \<^item> \<open>Sync\<close>: \<open>sync_json_words_to_db.py\<close>. \<open>word_findall\<close> is \<open>WORD_RE.findall\<close>;
    the two collectors recurse over the document; \<open>scan_files\<close> is the \<open>while\<close> loop
    over the file list (measure: files left), \<open>sync_scan\<close> and \<open>sync_run\<close> one run of
    \<open>main\<close> with \<open>scrape_one\<close>, \<open>chunks\<close>, \<open>scrape_all\<close>, \<open>merge_failed\<close> and
    \<open>successes\<close>. Theorems: what the scan collects (C35), why it stops before the end
    (C36), batching does not change the failures (C37).
  \<^item> \<open>Store\<close>: \<open>l0_db.py\<close> (\<open>connect\<close>, \<open>upsert_lemma\<close>) and the same code in
    \<open>wiktionary_scraper.py\<close>. \<open>upsert_stmts\<close> is the Python function as the SQL statements
    it issues and the exception it may raise (\<open>harvest_entry\<close>, \<open>harvest_block\<close>,
    \<open>harvest_def\<close>, \<open>sense_rows\<close> are its loops); \<open>exec_stmt\<close> is SQLite's behaviour on
    them (missing tables, nested \<open>BEGIN\<close>, parameter binding, commit). Theorem: on a
    store opened on an empty database every upsert fails and poisons the connection (C20).
  \<^item> \<open>Viewer\<close>: the JSON API of \<open>dictionarytest/flask_viewer.py\<close> over the rows of its
    four tables, with SQLite's \<open>NOCASE\<close> collation and \<open>LIKE\<close> written out:
    \<open>build_lemma_tree\<close> (\<open>pron_text\<close>, \<open>pos_blocks\<close>, \<open>variant_entry\<close>), the
    routes \<open>api_lemma_query\<close>, \<open>fetch_lemma_json\<close>, \<open>api_lemmas\<close> (\<open>lemmas_page\<close>; an offset beyond SQLite's 64-bit
    integers raises \<open>OverflowError\<close>, an HTTP 500).
    Theorem: the paging bounds of \<open>/api/lemmas\<close> (C26).
  \<^item> \<open>Dictfiles\<close>: \<open>language/dictionary_maker.py\<close> and \<open>dictionary_loader.py\<close> over a
    file system (\<open>fsys\<close>: paths to directories, JSON files and undecodable files, with
    \<open>fs_listdir\<close>, \<open>fs_load\<close>, \<open>fs_write\<close>, \<open>fs_remove\<close>, \<open>makedirs\<close> and the
    well-formedness \<open>wf_fs\<close>). \<open>save_entry\<close> (\<open>entry_base\<close>, \<open>entry_file\<close>,
    \<open>load_container\<close>, \<open>make_variant\<close>, \<open>add_variant\<close>), \<open>sort_wiktionary_dumps\<close>,
    \<open>build_manifest\<close>, \<open>build_pos_manifests\<close> (\<open>group_by_pos\<close>, keys compared with
    Python's \<open>==\<close> through \<open>py_norm\<close>) and \<open>load_dictionary\<close>. Theorems: every manifest
    row is typed, names the \<open>.json\<close> file it was read from and fills at most its slots
    (C7), saving is idempotent (C13), dumps are deleted (C14), sorting changes nothing
    outside the output's POS folders and the deleted dumps (C21), the grouping by POS
    (C22), the entry one file registers, with its flattened definitions (C31).
  \<^item> \<open>Driver\<close>: \<open>sync_loop_until_done.py\<close>. The argparse namespace (\<open>loop_args\<close>),
    the command line (\<open>build_cmd\<close>), \<open>read_state_idx\<close> and \<open>read_count\<close> over the file
    system of \<open>Dictfiles\<close>, the stop test \<open>loop_done\<close>, and the loop
    \<open>loop_until_done\<close>, a \<open>partial_function (option)\<close> whose pass (the subprocess) is
    a parameter. Theorem: the driver returns when every successful pass keeps the file
    count \<open>N > 0\<close>, keeps the saved index in \<open>[previous index, N]\<close> and advances it
    whenever it reports new lemmas (C25); the measure is \<open>N - idx\<close>.
  \<^item> \<open>ScrapeRun\<close>: the text helpers and the \<open>run\<close> driver of
    \<open>wiktionary_scraper.py\<close>: \<open>attempt\<close> scrapes (a parameter), enriches
    (\<open>enrich_lemma_inplace_scr\<close> of \<open>Labels\<close>), upserts (\<open>upsert_lemma\<close> of \<open>Store\<close>) and
    writes (\<open>write_lemma_json\<close> over \<open>Dictfiles\<close>); \<open>retry_loop\<close>, \<open>run_word\<close>, \<open>run\<close>
    thread the connection, the file system and the log. Theorem: against the store
    \<open>db_connect\<close> creates, no file is written and every word fails (C33).

  Bounds. Varint fields are proved in \<open>[0, 2^70)\<close>: the decoder's guard
  \<open>shift > 63\<close> lets a tenth byte carry seven payload bits, so this is exactly the
  range that decodes; byte fields are below 256 and flags below \<open>2^16\<close>, the widths
  the source's comments give. Texts are bounded by \<open>2^70\<close> code points in the pipeline
  theorems so that token counts, spans and vocabulary ids fit a varint. No fuel is used:
  every loop has a measure (value, bytes left, tokens left, text left, size of the JSON
  value), except the driver of \<open>sync_loop_until_done.py\<close>, which really may run for ever
  and is a \<open>partial_function (option)\<close>; its termination is proved from the
  measure \<open>N - idx\<close> of the saved index along the invariant \<open>idx <= N\<close>.

  Not modelled. Python's Unicode database beyond ASCII is a parameter, not a table;
  \<open>int()\<close> of a string is modelled for ASCII digits. In the enricher and the sync script
  a file is the value \<open>json.load\<close> returned (or \<open>None\<close> when it raised), the directory
  walk is the list it yields, a scrape attempt is an outcome; the dictionary maker, the
  loader and the drivers use the file system of \<open>Dictfiles\<close>, where a file or directory
  name is one path component (a lemma containing \<open>/\<close>, and POS names \<open>""\<close>, \<open>.\<close> or
  with \<open>/\<close>, which \<open>os.path.join\<close> would resolve into other folders, are not modelled), and
  \<open>os.listdir\<close> returns the names in creation order, one of the orders Python may give
  (no theorem depends on the order). JSON numbers are integers: no float occurs in the
  dictionary files these scripts write, and floats are not modelled. \<open>str.lower\<close> maps
  code point by code point, without the context rule for a final sigma. The saved index
  of the sync script is a natural number, as the script writes it; a hand-edited
  negative index, which Python would use to read from the end of the list, is not
  modelled. The enricher's backup mirror (\<open>--backup\<close>) is not modelled. Subprocesses
  and the HTML scraper are parameters. Not modelled: the HTML parsing of the Wiktionary
  scrapers (BeautifulSoup trees) and the HTTP fetch, the two older scraper copies under
  \<open>language/\<close>, the viewer's connection set-up, view DDL and HTML page, \<open>time.sleep\<close>
  and the debug prints, \<open>pablopath.py\<close>, \<open>structure.py\<close> and
  \<open>scripts/verify_setup.py\<close> (path constants and environment checks, no logic to
  verify).
\<close>

end
